theory Spec2Isabelle
  imports Complex_Main "HOL-Library.Sublist"
begin

section \<open>Host values: strings and numbers\<close>

text \<open>
  The client scripts of Repo Inspector (the report page script and the card generator
  script) work on JavaScript strings and numbers. Strings are modelled as \<open>string\<close>
  (a list of 8-bit characters); white space and letter case are the ASCII ones.
  Numbers are modelled by \<open>jsnum\<close>: the three non-finite values and the finite values
  as exact rationals. Rounding to 53-bit mantissas is not modelled; overflow to an
  infinity when a numeric string is read is.
\<close>

definition is_space :: "char \<Rightarrow> bool" where
  "is_space c = (c \<in> set [CHR '' '', CHR 0x09, CHR 0x0A, CHR 0x0B, CHR 0x0C, CHR 0x0D])"

definition trim :: "string \<Rightarrow> string" where
  "trim s = rev (dropWhile is_space (rev (dropWhile is_space s)))"

definition lower_char :: "char \<Rightarrow> char" where
  "lower_char c =
     (case map_of (zip ''ABCDEFGHIJKLMNOPQRSTUVWXYZ'' ''abcdefghijklmnopqrstuvwxyz'') c of
        None \<Rightarrow> c | Some d \<Rightarrow> d)"

definition upper_char :: "char \<Rightarrow> char" where
  "upper_char c =
     (case map_of (zip ''abcdefghijklmnopqrstuvwxyz'' ''ABCDEFGHIJKLMNOPQRSTUVWXYZ'') c of
        None \<Rightarrow> c | Some d \<Rightarrow> d)"

definition toLowerCase :: "string \<Rightarrow> string" where
  "toLowerCase s = map lower_char s"

definition toUpperCase :: "string \<Rightarrow> string" where
  "toUpperCase s = map upper_char s"

text \<open>\<open>s.split(d)\<close> for a one-character separator: never the empty list.\<close>

fun split_on :: "char \<Rightarrow> string \<Rightarrow> string list" where
  "split_on d [] = [[]]"
| "split_on d (c # cs) =
     (if c = d then [] # split_on d cs
      else (case split_on d cs of [] \<Rightarrow> [[c]] | x # xs \<Rightarrow> (c # x) # xs))"

text \<open>\<open>xs.join(sep)\<close>.\<close>

fun join :: "string \<Rightarrow> string list \<Rightarrow> string" where
  "join sep [] = []"
| "join sep [x] = x"
| "join sep (x # y # ys) = x @ sep @ join sep (y # ys)"

datatype jsnum = NaN | Fin rat | PosInf | NegInf

definition isFinite :: "jsnum \<Rightarrow> bool" where
  "isFinite n = (case n of Fin r \<Rightarrow> True | _ \<Rightarrow> False)"

text \<open>\<open>Math.min\<close> and \<open>Math.max\<close> of two numbers: \<open>NaN\<close> is contagious.\<close>

fun js_le :: "jsnum \<Rightarrow> jsnum \<Rightarrow> bool" where
  "js_le NegInf b = True"
| "js_le a PosInf = True"
| "js_le (Fin x) (Fin y) = (x \<le> y)"
| "js_le a b = False"

definition Math_min :: "jsnum \<Rightarrow> jsnum \<Rightarrow> jsnum" where
  "Math_min a b = (if a = NaN \<or> b = NaN then NaN else if js_le a b then a else b)"

definition Math_max :: "jsnum \<Rightarrow> jsnum \<Rightarrow> jsnum" where
  "Math_max a b = (if a = NaN \<or> b = NaN then NaN else if js_le a b then b else a)"

subsection \<open>Reading a number from a string: \<open>Number(s)\<close>\<close>

definition is_digit :: "char \<Rightarrow> bool" where
  "is_digit c = (c \<in> set ''0123456789'')"

definition digit_val :: "char \<Rightarrow> nat" where
  "digit_val c =
     (case map_of (zip ''0123456789abcdefABCDEF''
                       [0, 1, 2, 3, 4, 5, 6, 7, 8, 9, 10, 11, 12, 13, 14, 15, 10, 11, 12, 13, 14, 15]) c of
        None \<Rightarrow> 0 | Some v \<Rightarrow> v)"

definition digits_val :: "nat \<Rightarrow> string \<Rightarrow> nat" where
  "digits_val base ds = foldl (\<lambda>acc c. acc * base + digit_val c) 0 ds"

text \<open>
  A finite value outside the range of doubles is read as an infinity: every value of
  magnitude at least \<open>2^1024 - 2^970\<close> rounds to one.
\<close>

definition to_double_range :: "rat \<Rightarrow> jsnum" where
  "to_double_range r =
     (if 2 ^ 1024 - 2 ^ 970 \<le> r then PosInf
      else if r \<le> - (2 ^ 1024 - 2 ^ 970) then NegInf
      else Fin r)"

text \<open>
  The exponent part of a decimal literal: \<open>e\<close> or \<open>E\<close>, an optional sign and at least
  one digit, up to the end of the string. \<open>None\<close> when the text is not such a part.
\<close>

definition exponent_part :: "string \<Rightarrow> int option" where
  "exponent_part s =
     (case s of
        [] \<Rightarrow> Some 0
      | c # r \<Rightarrow>
          if c = CHR ''e'' \<or> c = CHR ''E'' then
            (let neg = (r \<noteq> [] \<and> hd r = CHR ''-'');
                 ds = (if r \<noteq> [] \<and> (hd r = CHR ''-'' \<or> hd r = CHR ''+'') then tl r else r)
             in if ds \<noteq> [] \<and> list_all is_digit ds
                then Some (if neg then - int (digits_val 10 ds) else int (digits_val 10 ds))
                else None)
          else None)"

text \<open>An unsigned decimal literal: \<open>12\<close>, \<open>12.\<close>, \<open>12.5\<close>, \<open>.5\<close>, each with an optional exponent.\<close>

definition unsigned_decimal :: "string \<Rightarrow> rat option" where
  "unsigned_decimal s =
     (let ip = takeWhile is_digit s;
          r1 = dropWhile is_digit s;
          fp = (if r1 \<noteq> [] \<and> hd r1 = CHR ''.'' then takeWhile is_digit (tl r1) else []);
          r2 = (if r1 \<noteq> [] \<and> hd r1 = CHR ''.'' then dropWhile is_digit (tl r1) else r1)
      in if ip = [] \<and> fp = [] then None
         else (case exponent_part r2 of
                 None \<Rightarrow> None
               | Some e \<Rightarrow>
                   Some (of_nat (digits_val 10 (ip @ fp)) / 10 ^ length fp
                         * (if 0 \<le> e then 10 ^ nat e else 1 / 10 ^ nat (- e)))))"

text \<open>Hexadecimal, octal and binary literals carry no sign.\<close>

definition radix_literal :: "string \<Rightarrow> rat option" where
  "radix_literal s =
     (case s of
        z # x # ds \<Rightarrow>
          if z = CHR ''0'' \<and> ds \<noteq> [] then
            (if (x = CHR ''x'' \<or> x = CHR ''X'') \<and> list_all (\<lambda>c. c \<in> set ''0123456789abcdefABCDEF'') ds
               then Some (of_nat (digits_val 16 ds))
             else if (x = CHR ''o'' \<or> x = CHR ''O'') \<and> list_all (\<lambda>c. c \<in> set ''01234567'') ds
               then Some (of_nat (digits_val 8 ds))
             else if (x = CHR ''b'' \<or> x = CHR ''B'') \<and> list_all (\<lambda>c. c \<in> set ''01'') ds
               then Some (of_nat (digits_val 2 ds))
             else None)
          else None
      | _ \<Rightarrow> None)"

definition Number :: "string \<Rightarrow> jsnum" where
  "Number v =
     (let s = trim v in
      if s = [] then Fin 0
      else (case radix_literal s of
              Some r \<Rightarrow> to_double_range r
            | None \<Rightarrow>
                (let neg = (hd s = CHR ''-'');
                     u = (if hd s = CHR ''-'' \<or> hd s = CHR ''+'' then tl s else s)
                 in if u = ''Infinity'' then (if neg then NegInf else PosInf)
                    else (case unsigned_decimal u of
                            None \<Rightarrow> NaN
                          | Some r \<Rightarrow> to_double_range (if neg then - r else r)))))"

subsection \<open>Writing a number: \<open>String(n)\<close> and \<open>n.toFixed(2)\<close>\<close>

fun digits_of :: "nat \<Rightarrow> string" where
  "digits_of n =
     (if n < 10 then [''0123456789'' ! n]
      else digits_of (n div 10) @ [''0123456789'' ! (n mod 10)])"

declare digits_of.simps [simp del]

fun frac_digits :: "nat \<Rightarrow> rat \<Rightarrow> string" where
  "frac_digits 0 f = []"
| "frac_digits (Suc k) f =
     (if f = 0 then []
      else (let d = nat \<lfloor>f * 10\<rfloor> in (''0123456789'' ! d) # frac_digits k (f * 10 - of_nat d)))"

text \<open>
  Plain decimal notation, with at most 20 fractional digits. It is what \<open>String(n)\<close>
  prints for the integers and short decimals between \<open>1e-6\<close> and \<open>1e21\<close>.
\<close>

definition unsigned_string :: "rat \<Rightarrow> string" where
  "unsigned_string r =
     (let n = nat \<lfloor>r\<rfloor>; f = r - of_nat n
      in digits_of n @ (if f = 0 then [] else CHR ''.'' # frac_digits 20 f))"

definition String_of :: "jsnum \<Rightarrow> string" where
  "String_of n =
     (case n of
        NaN \<Rightarrow> ''NaN''
      | PosInf \<Rightarrow> ''Infinity''
      | NegInf \<Rightarrow> ''-Infinity''
      | Fin r \<Rightarrow> (if r < 0 then CHR ''-'' # unsigned_string (- r) else unsigned_string r))"

text \<open>The number that \<open>r.toFixed(2)\<close> denotes: \<open>r\<close> rounded to hundredths, ties upwards.\<close>

definition toFixed2 :: "rat \<Rightarrow> rat" where
  "toFixed2 r = of_int \<lfloor>r * 100 + 1 / 2\<rfloor> / 100"

text \<open>\<open>Math.round\<close>: the nearest integer, ties upwards.\<close>

definition Math_round :: "rat \<Rightarrow> int" where
  "Math_round r = \<lfloor>r + 1 / 2\<rfloor>"

subsection \<open>Double precision arithmetic\<close>

text \<open>
  A finite number is carried as the rational it denotes. An operation computes the
  exact result and rounds it to the nearest double, a tie to the double with the even
  significand; a result of magnitude \<open>2^1024\<close> or more after rounding is an infinity.
  The sign of a zero is not kept.
\<close>

text \<open>The binary exponent of a positive number: \<open>expo x = e\<close> when \<open>2^e \<le> x < 2^(e+1)\<close>.\<close>

function expo_up :: "rat \<Rightarrow> int \<Rightarrow> int" where
  "expo_up x e = (if 2 \<le> x then expo_up (x / 2) (e + 1) else e)"
  by pat_completeness auto

termination
proof (relation "measure (\<lambda>(x, e). nat \<lceil>x\<rceil>)")
  show "wf (measure (\<lambda>(x, e). nat \<lceil>x\<rceil>))" by simp
next
  fix x :: rat and e :: int
  assume "2 \<le> x"
  then have "x / 2 \<le> of_int \<lceil>x\<rceil> - 1" and "0 < \<lceil>x\<rceil>"
    using le_of_int_ceiling [of x] by linarith+
  then have "\<lceil>x / 2\<rceil> < \<lceil>x\<rceil>"
    by (simp only: ceiling_less_iff)
  with \<open>0 < \<lceil>x\<rceil>\<close> have "nat \<lceil>x / 2\<rceil> < nat \<lceil>x\<rceil>"
    by linarith
  then show "((x / 2, e + 1), (x, e)) \<in> measure (\<lambda>(x, e). nat \<lceil>x\<rceil>)"
    by (simp only: in_measure prod.case)
qed

function expo_down :: "rat \<Rightarrow> int \<Rightarrow> int" where
  "expo_down x e = (if 0 < x \<and> x < 1 then expo_down (2 * x) (e - 1) else e)"
  by pat_completeness auto

termination
proof (relation "measure (\<lambda>(x, e). nat \<lceil>1 / x\<rceil>)")
  show "wf (measure (\<lambda>(x, e). nat \<lceil>1 / x\<rceil>))" by simp
next
  fix x :: rat and e :: int
  assume a: "0 < x \<and> x < 1"
  then have t: "1 < 1 / x" by simp
  then have c: "1 < \<lceil>1 / x\<rceil>"
    by (simp add: less_ceiling_iff)
  have "1 / (2 * x) = (1 / x) / 2" by simp
  also have "\<dots> \<le> of_int \<lceil>1 / x\<rceil> - 1"
    using le_of_int_ceiling [of "1 / x"] t c by linarith
  finally have "\<lceil>1 / (2 * x)\<rceil> < \<lceil>1 / x\<rceil>"
    by (simp only: ceiling_less_iff)
  with c have "nat \<lceil>1 / (2 * x)\<rceil> < nat \<lceil>1 / x\<rceil>"
    by linarith
  then show "((2 * x, e - 1), (x, e)) \<in> measure (\<lambda>(x, e). nat \<lceil>1 / x\<rceil>)"
    by (simp only: in_measure prod.case)
qed

declare expo_up.simps [simp del] expo_down.simps [simp del]

definition expo :: "rat \<Rightarrow> int" where
  "expo x = (if 1 \<le> x then expo_up x 0 else expo_down x 0)"

text \<open>Rounding to the nearest integer, a tie to the even one.\<close>

definition round_even :: "rat \<Rightarrow> int" where
  "round_even q =
     (let n = \<lfloor>q\<rfloor>; r = q - of_int n
      in if r < 1 / 2 then n else if 1 / 2 < r then n + 1 else if even n then n else n + 1)"

text \<open>
  The spacing of the doubles around \<open>x\<close>: 52 binary places below the exponent, and
  \<open>2^-1074\<close> in the subnormal range.
\<close>

definition ulp :: "rat \<Rightarrow> rat" where
  "ulp x = 2 powi (max (expo \<bar>x\<bar>) (- 1022) - 52)"

definition round_double :: "rat \<Rightarrow> rat" where
  "round_double x = of_int (round_even (x / ulp x)) * ulp x"

definition overflow_bound :: rat where
  "overflow_bound = 2 ^ 1024"

definition fl :: "rat \<Rightarrow> jsnum" where
  "fl x =
     (let r = round_double x
      in if overflow_bound \<le> r then PosInf
         else if r \<le> - overflow_bound then NegInf
         else Fin r)"


text \<open>The four operations on doubles.\<close>

definition js_pos :: "jsnum \<Rightarrow> bool" where
  "js_pos n = (case n of Fin r \<Rightarrow> 0 < r | PosInf \<Rightarrow> True | _ \<Rightarrow> False)"

definition js_zero :: "jsnum \<Rightarrow> bool" where
  "js_zero n = (n = Fin 0)"

definition d_neg :: "jsnum \<Rightarrow> jsnum" where
  "d_neg n = (case n of NaN \<Rightarrow> NaN | Fin r \<Rightarrow> Fin (- r) | PosInf \<Rightarrow> NegInf | NegInf \<Rightarrow> PosInf)"

fun d_add :: "jsnum \<Rightarrow> jsnum \<Rightarrow> jsnum" where
  "d_add (Fin x) (Fin y) = fl (x + y)"
| "d_add NaN b = NaN"
| "d_add a NaN = NaN"
| "d_add PosInf NegInf = NaN"
| "d_add NegInf PosInf = NaN"
| "d_add PosInf b = PosInf"
| "d_add NegInf b = NegInf"
| "d_add a PosInf = PosInf"
| "d_add a NegInf = NegInf"

definition d_sub :: "jsnum \<Rightarrow> jsnum \<Rightarrow> jsnum" where
  "d_sub a b = d_add a (d_neg b)"

fun d_mul :: "jsnum \<Rightarrow> jsnum \<Rightarrow> jsnum" where
  "d_mul (Fin x) (Fin y) = fl (x * y)"
| "d_mul NaN b = NaN"
| "d_mul a NaN = NaN"
| "d_mul a b =
     (if js_zero a \<or> js_zero b then NaN else if js_pos a = js_pos b then PosInf else NegInf)"

fun d_div :: "jsnum \<Rightarrow> jsnum \<Rightarrow> jsnum" where
  "d_div (Fin x) (Fin y) =
     (if y = 0 then (if x = 0 then NaN else if 0 < x then PosInf else NegInf) else fl (x / y))"
| "d_div NaN b = NaN"
| "d_div a NaN = NaN"
| "d_div (Fin x) b = Fin 0"
| "d_div a (Fin y) = (if js_pos a = (0 \<le> y) then PosInf else NegInf)"
| "d_div a b = NaN"

text \<open>Two numbers in order, neither of them \<open>NaN\<close>; for the proofs.\<close>

definition ordered :: "jsnum \<Rightarrow> jsnum \<Rightarrow> bool" where
  "ordered a b = (a \<noteq> NaN \<and> b \<noteq> NaN \<and> js_le a b)"

section \<open>Trend chart of the report page\<close>

text \<open>
  A sample of the history: \<open>score_total\<close> is the number the response carries, \<open>None\<close>
  when the field is absent or \<open>null\<close>.
\<close>

record history_sample =
  score_total :: "jsnum option"
  commit_short :: "string option"
  delta :: int

text \<open>\<open>Number(item.score_total || 0)\<close>: zero and \<open>NaN\<close> are falsy.\<close>

definition score_of :: "history_sample \<Rightarrow> jsnum" where
  "score_of item = (case score_total item of None \<Rightarrow> Fin 0 | Some NaN \<Rightarrow> Fin 0 | Some n \<Rightarrow> n)"

record point =
  pt_x :: jsnum
  pt_y :: jsnum
  pt_item :: history_sample

text \<open>
  \<open>buildSmoothPath(points)\<close>. The template literals print numbers with the host's
  conversion, the parameter \<open>shw\<close>.
\<close>

fun smooth_segments :: "(jsnum \<Rightarrow> string) \<Rightarrow> point \<Rightarrow> point list \<Rightarrow> string" where
  "smooth_segments shw prev [] = []"
| "smooth_segments shw prev (current # rest) =
     (let cx = d_div (d_add (pt_x prev) (pt_x current)) (Fin 2)
      in '' C '' @ shw cx @ '' '' @ shw (pt_y prev) @ '', '' @ shw cx @ '' '' @ shw (pt_y current)
         @ '', '' @ shw (pt_x current) @ '' '' @ shw (pt_y current)
         @ smooth_segments shw current rest)"

fun buildSmoothPath :: "(jsnum \<Rightarrow> string) \<Rightarrow> point list \<Rightarrow> string" where
  "buildSmoothPath shw [] = []"
| "buildSmoothPath shw (p # ps) =
     ''M '' @ shw (pt_x p) @ '' '' @ shw (pt_y p) @ smooth_segments shw p ps"

record chart =
  points :: "point list"
  linePath :: string
  areaPath :: string
  label_step :: nat

text \<open>
  The coordinates of a sample, as the callback of \<open>history.map\<close> computes them, with
  width 1020, height 300, \<open>padX\<close> 42, \<open>padY\<close> 32, \<open>min\<close> 0 and \<open>max\<close> 100.
\<close>

definition trend_x :: "nat \<Rightarrow> nat \<Rightarrow> jsnum" where
  "trend_x n index =
     d_add (Fin 42)
       (d_div (d_mul (Fin (of_nat index)) (d_sub (Fin 1020) (d_mul (Fin 42) (Fin 2))))
              (Math_max (d_sub (Fin (of_nat n)) (Fin 1)) (Fin 1)))"

definition trend_y :: "jsnum \<Rightarrow> jsnum" where
  "trend_y score =
     d_sub (d_sub (Fin 300) (Fin 32))
       (d_div (d_mul (d_sub score (Fin 0)) (d_sub (Fin 300) (d_mul (Fin 32) (Fin 2))))
              (d_sub (Fin 100) (Fin 0)))"

definition trend_point :: "nat \<Rightarrow> nat \<Rightarrow> history_sample \<Rightarrow> point" where
  "trend_point n index item =
     \<lparr> pt_x = trend_x n index, pt_y = trend_y (score_of item), pt_item = item \<rparr>"

text \<open>
  \<open>renderTrendChart\<close>: \<open>None\<close> is the fallback state (fewer than two samples, the
  chart is cleared); otherwise the geometry that is written into the SVG markup.
\<close>

definition renderTrendChart :: "(jsnum \<Rightarrow> string) \<Rightarrow> history_sample list \<Rightarrow> chart option" where
  "renderTrendChart shw history =
     (if length history < 2 then None
      else
        (let pts = map (\<lambda>(index, item). trend_point (length history) index item)
                       (zip [0 ..< length history] history);
             line = buildSmoothPath shw pts;
             baselineY = d_sub (Fin 300) (Fin 32)
         in Some \<lparr> points = pts,
                   linePath = line,
                   areaPath = line @ '' L '' @ shw (pt_x (last pts)) @ '' '' @ shw baselineY
                              @ '' L '' @ shw (pt_x (hd pts)) @ '' '' @ shw baselineY @ '' Z'',
                   label_step = max 1 ((length pts + 8) div 9) \<rparr>))"

text \<open>The history of the scenario: scores 40, 70 and 55.\<close>

definition sample_history :: "history_sample list" where
 "sample_history = [\<lparr>score_total = Some (Fin 40), commit_short = Some ''abc1234'', delta = 0\<rparr>,
  \<lparr>score_total = Some (Fin 70), commit_short = None, delta = 30\<rparr>,
  \<lparr>score_total = Some (Fin 55), commit_short = Some ''fff0000'', delta = -15\<rparr>]"

text \<open>Two neighbouring doubles, 50 and the next double above it, as the scores of a history.\<close>

definition next_above_50 :: rat where
  "next_above_50 = 50 + 1 / 2 ^ 47"

definition close_history :: "history_sample list" where
  "close_history =
     [\<lparr>score_total = Some (Fin 50), commit_short = None, delta = 0\<rparr>,
      \<lparr>score_total = Some (Fin next_above_50), commit_short = None, delta = 0\<rparr>]"


section \<open>Score dial\<close>

text \<open>
  The dial as the animation leaves it: the number held by the \<open>--score\<close> custom
  property, the integer shown by \<open>.score-number\<close>, and whether a further animation frame
  has been requested.
\<close>

record dial =
  score_prop :: rat
  score_text :: int
  frame_requested :: bool

text \<open>
  \<open>Number(dial.dataset.scoreTarget || 0)\<close>, clamped to the range 0 to 100 when it is
  finite and 0 otherwise.
\<close>

definition dial_target :: "string option \<Rightarrow> rat" where
  "dial_target scoreTarget =
     (let rawTarget = (case scoreTarget of
                         None \<Rightarrow> Fin 0
                       | Some s \<Rightarrow> if s = [] then Fin 0 else Number s)
      in case rawTarget of Fin r \<Rightarrow> max 0 (min 100 r) | _ \<Rightarrow> 0)"

definition easing :: "rat \<Rightarrow> rat" where
  "easing v = 1 - (1 - v) ^ 3"

text \<open>
  One animation frame of the report page (\<open>animateScoreDial\<close> of the server-rendered
  report): the eased value is written first; the last frame then pins the target.
\<close>

definition frame :: "rat \<Rightarrow> rat \<Rightarrow> rat \<Rightarrow> dial" where
  "frame target start now =
     (let progress = min ((now - start) / 1200) 1;
          val = target * easing progress;
          d = \<lparr> score_prop = toFixed2 val, score_text = Math_round val, frame_requested = False \<rparr>
      in if progress < 1 then d \<lparr> frame_requested := True \<rparr>
         else d \<lparr> score_prop := target, score_text := Math_round target \<rparr>)"

text \<open>
  The frame of the static pages script (\<open>web/app.js\<close>): the same, without the final
  assignment of the target.
\<close>

definition frame_pages :: "rat \<Rightarrow> rat \<Rightarrow> rat \<Rightarrow> dial" where
  "frame_pages target start now =
     (let progress = min ((now - start) / 1200) 1;
          val = target * easing progress
      in \<lparr> score_prop = toFixed2 val, score_text = Math_round val,
           frame_requested = (progress < 1) \<rparr>)"

text \<open>
  The frames the host delivers are its time stamps, in order; a frame runs only while
  one is requested.
\<close>

fun run_frames :: "(rat \<Rightarrow> dial) \<Rightarrow> dial \<Rightarrow> rat list \<Rightarrow> dial" where
  "run_frames f d [] = d"
| "run_frames f d (now # rest) = (if frame_requested d then run_frames f (f now) rest else d)"

text \<open>
  \<open>animateScoreDial\<close>, given the reduced-motion preference, the \<open>data-score-target\<close>
  attribute, the time \<open>performance.now()\<close> of the call and the time stamps of the frames
  that follow.
\<close>

definition animateScoreDial :: "bool \<Rightarrow> string option \<Rightarrow> rat \<Rightarrow> rat list \<Rightarrow> dial" where
  "animateScoreDial reducedMotion scoreTarget start frames =
     (let target = dial_target scoreTarget in
      if reducedMotion
      then \<lparr> score_prop = target, score_text = Math_round target, frame_requested = False \<rparr>
      else run_frames (frame target start)
             \<lparr> score_prop = 0, score_text = 0, frame_requested = True \<rparr> frames)"

definition animateScoreDial_pages :: "bool \<Rightarrow> string option \<Rightarrow> rat \<Rightarrow> rat list \<Rightarrow> dial" where
  "animateScoreDial_pages reducedMotion scoreTarget start frames =
     (let target = dial_target scoreTarget in
      if reducedMotion
      then \<lparr> score_prop = target, score_text = Math_round target, frame_requested = False \<rparr>
      else run_frames (frame_pages target start)
             \<lparr> score_prop = 0, score_text = 0, frame_requested = True \<rparr> frames)"

section \<open>The card generator: form state\<close>

text \<open>
  The generator page keeps its configuration in the controls of one form. The model
  holds what the script reads and writes: the value of each input and select, the
  checked state of each check box, the multi-select options with their \<open>data-kinds\<close>
  annotation, the sixteen colour inputs (an association list over the element ids that
  exist), the disabled flags the script sets, the import box with its error line, and
  the module variable \<open>generatorDefaultPalette\<close>. All controls the script addresses by
  id are taken to exist; a select takes every value assigned to it.
\<close>

record option_node =
  opt_value :: string
  opt_kinds :: string
  opt_checked :: bool
  opt_disabled :: bool

type_synonym palette = "(string \<times> string) list"

record form =
  gen_owner :: string
  gen_repo :: string
  gen_kind :: string
  gen_format :: string
  gen_theme :: string
  gen_theme_options :: "string list"
  gen_locale :: string
  gen_title :: string
  gen_hide :: string
  gen_fields :: string
  gen_width :: string
  gen_langs :: string
  gen_animate :: bool
  gen_animation :: string
  gen_duration :: string
  gen_cache_seconds :: string
  gen_include_report :: bool
  gen_theme_preset :: string
  hide_options :: "option_node list"
  field_options :: "option_node list"
  gen_colors :: palette
  gen_repo_url :: string
  gen_import_error :: string
  svg_only_disabled :: bool
  include_report_disabled :: bool
  langs_disabled :: bool
  fields_disabled :: bool
  custom_theme_disabled :: bool
  generatorDefaultPalette :: "palette option"

definition GENERATOR_THEME_KEYS :: "string list" where
  "GENERATOR_THEME_KEYS =
     [''bg_start'', ''bg_end'', ''border'', ''panel'', ''overlay'', ''chip_bg'', ''chip_text'',
      ''text'', ''muted'', ''accent'', ''accent_2'', ''accent_soft'', ''track'', ''pass'', ''warn'',
      ''fail'']"

definition GENERATOR_JSON_FIELDS :: "string \<Rightarrow> string list" where
  "GENERATOR_JSON_FIELDS kind =
     (if kind = ''quality''
      then [''job_id'', ''commit_sha'', ''finished_at'', ''score_total'', ''report_url'',
            ''total_code_lines'', ''total_code_files'', ''scanned_code_files'', ''status_counts'',
            ''category_scores'', ''detected_stacks'', ''source'', ''report'']
      else [''owner'', ''name'', ''full_name'', ''html_url'', ''description'', ''stars'', ''forks'',
            ''open_issues'', ''watchers'', ''default_branch'', ''primary_language'',
            ''license_name'', ''topics'', ''archived'', ''is_fork'', ''size_kb'', ''created_at'',
            ''updated_at'', ''pushed_at'', ''homepage'', ''has_releases'', ''has_tags'',
            ''languages'', ''language_total_bytes''])"

definition preset_ocean :: palette where
  "preset_ocean = zip GENERATOR_THEME_KEYS
     [''#F8FBFF'', ''#EEF5FF'', ''#A8CBFF'', ''#FFFFFF'', ''#EDF4FF'', ''#E7F0FF'', ''#2D4E83'',
      ''#14284B'', ''#3F6191'', ''#16A4E0'', ''#1AB9A2'', ''#B8DBFF'', ''#D3E3FB'', ''#0F7F39'',
      ''#B55A0C'', ''#BE1D2D'']"

definition preset_ember :: palette where
  "preset_ember = zip GENERATOR_THEME_KEYS
     [''#2E120C'', ''#431A12'', ''#8C3E2A'', ''#35160F'', ''#2C130D'', ''#4C2117'', ''#FFD6B7'',
      ''#FFEDE1'', ''#E5B79A'', ''#FF6A3D'', ''#FFB347'', ''#6B2A1D'', ''#6A2F22'', ''#58D68D'',
      ''#FFC14A'', ''#FF6E6E'']"

definition preset_neon :: palette where
  "preset_neon = zip GENERATOR_THEME_KEYS
     [''#090B1B'', ''#140F2B'', ''#3D2E73'', ''#130F28'', ''#1B1537'', ''#231B47'', ''#CFFBFF'',
      ''#F4F6FF'', ''#B5B9E0'', ''#28F0E2'', ''#FF4FD8'', ''#2E2A60'', ''#37346B'', ''#55F08A'',
      ''#FFD65A'', ''#FF6B9A'']"

definition preset_paper :: palette where
  "preset_paper = zip GENERATOR_THEME_KEYS
     [''#FFFDF8'', ''#F4EFE2'', ''#D8CCB1'', ''#FFF9EE'', ''#F2EBDC'', ''#EADFC8'', ''#5A4631'',
      ''#2F2518'', ''#6F5D49'', ''#8B5E34'', ''#B08952'', ''#D8C3A3'', ''#D9CFBC'', ''#2E7D32'',
      ''#B26A00'', ''#B64033'']"

definition preset_forest :: palette where
  "preset_forest = zip GENERATOR_THEME_KEYS
     [''#0F2018'', ''#183129'', ''#2D5E4F'', ''#153027'', ''#11251D'', ''#1E4236'', ''#CFEFDF'',
      ''#EDFDF4'', ''#A4C7B8'', ''#3ECF8E'', ''#80E3C1'', ''#255145'', ''#2C5044'', ''#54D98C'',
      ''#E3B84F'', ''#F07F7F'']"

definition GENERATOR_THEME_PRESETS :: "(string \<times> palette) list" where
  "GENERATOR_THEME_PRESETS =
     [(''ocean'', preset_ocean), (''ember'', preset_ember), (''neon'', preset_neon),
      (''paper'', preset_paper), (''forest'', preset_forest)]"

subsection \<open>Colours\<close>

definition is_hex :: "char \<Rightarrow> bool" where
  "is_hex c = (c \<in> set ''0123456789abcdefABCDEF'')"

text \<open>\<open>HEX_COLOR_RE\<close>: a hash sign and three or six hexadecimal digits.\<close>

definition HEX_COLOR_RE :: "string \<Rightarrow> bool" where
  "HEX_COLOR_RE raw =
     (case raw of
        [] \<Rightarrow> False
      | c # ds \<Rightarrow> c = CHR ''#'' \<and> (length ds = 3 \<or> length ds = 6) \<and> list_all is_hex ds)"

definition normalizeHexColor :: "string \<Rightarrow> string option" where
  "normalizeHexColor v =
     (let raw = trim v in
      if \<not> HEX_COLOR_RE raw then None
      else if length raw = 4
      then Some (toUpperCase [CHR ''#'', raw ! 1, raw ! 1, raw ! 2, raw ! 2, raw ! 3, raw ! 3])
      else Some (toUpperCase raw))"

text \<open>The value of the colour input of a key; the empty string when there is no such input.\<close>

definition color_value :: "form \<Rightarrow> string \<Rightarrow> string" where
  "color_value f key = (case map_of (gen_colors f) key of None \<Rightarrow> [] | Some v \<Rightarrow> v)"

definition generatorCustomThemeParams :: "form \<Rightarrow> palette" where
  "generatorCustomThemeParams f =
     List.map_filter (\<lambda>key. map_option (Pair key) (normalizeHexColor (color_value f key)))
       GENERATOR_THEME_KEYS"

definition generatorPaletteFromInputs :: "form \<Rightarrow> palette" where
  "generatorPaletteFromInputs f =
     List.map_filter (\<lambda>key. map_option (Pair key) (normalizeHexColor (color_value f key)))
       GENERATOR_THEME_KEYS"

text \<open>Writing the value of the colour input of a key, when there is one.\<close>

definition set_color :: "string \<Rightarrow> string \<Rightarrow> form \<Rightarrow> form" where
  "set_color key v f =
     f \<lparr> gen_colors := map (\<lambda>p. if fst p = key then (key, v) else p) (gen_colors f) \<rparr>"

text \<open>
  \<open>applyGeneratorPalette\<close>: a key is written only when its input exists and the
  palette holds a well-formed colour for it.
\<close>

definition apply_color :: "palette \<Rightarrow> form \<Rightarrow> string \<Rightarrow> form" where
  "apply_color pal f key =
     (case normalizeHexColor (case map_of pal key of None \<Rightarrow> [] | Some v \<Rightarrow> v) of
        None \<Rightarrow> f
      | Some v \<Rightarrow> set_color key v f)"

definition applyGeneratorPalette :: "palette \<Rightarrow> form \<Rightarrow> form" where
  "applyGeneratorPalette pal f = foldl (apply_color pal) f GENERATOR_THEME_KEYS"

text \<open>The value the colour input of a key holds after \<open>applyGeneratorPalette\<close>, for the proofs.\<close>

definition applied_value :: "palette \<Rightarrow> form \<Rightarrow> string \<Rightarrow> string" where
  "applied_value pal f k =
     (case normalizeHexColor (case map_of pal k of None \<Rightarrow> [] | Some v \<Rightarrow> v) of
        None \<Rightarrow> color_value f k
      | Some v \<Rightarrow> if k \<in> set (map fst (gen_colors f)) then v else color_value f k)"

fun hex_of :: "nat \<Rightarrow> string" where
  "hex_of n =
     (if n < 16 then [''0123456789abcdef'' ! n]
      else hex_of (n div 16) @ [''0123456789abcdef'' ! (n mod 16)])"

declare hex_of.simps [simp del]

definition padStart :: "nat \<Rightarrow> char \<Rightarrow> string \<Rightarrow> string" where
  "padStart n c s = replicate (n - length s) c @ s"

text \<open>
  \<open>randomHexColor\<close>, given the value \<open>r\<close> that \<open>Math.random()\<close> returns (at least 0
  and below 1).
\<close>

definition randomHexColor :: "rat \<Rightarrow> string" where
  "randomHexColor r =
     (let v = nat \<lfloor>r * 16777215\<rfloor>
      in CHR ''#'' # toUpperCase (padStart 6 CHR ''0'' (hex_of v)))"

definition randomGeneratorPalette :: "(string \<Rightarrow> rat) \<Rightarrow> palette" where
  "randomGeneratorPalette rnd = map (\<lambda>key. (key, randomHexColor (rnd key))) GENERATOR_THEME_KEYS"

definition captureGeneratorDefaultPalette :: "form \<Rightarrow> form" where
  "captureGeneratorDefaultPalette f =
     (case generatorDefaultPalette f of
        Some p \<Rightarrow> f
      | None \<Rightarrow> f \<lparr> generatorDefaultPalette := Some (generatorPaletteFromInputs f) \<rparr>)"

text \<open>
  \<open>selectedGeneratorPresetId\<close>. The test \<open>value in GENERATOR_THEME_PRESETS\<close> also holds
  for the two lower-case names every object inherits; looking one of them up gives no
  palette.
\<close>

definition selectedGeneratorPresetId :: "form \<Rightarrow> string" where
  "selectedGeneratorPresetId f =
     (let v = toLowerCase (trim (gen_theme_preset f))
      in if v \<in> set (map fst GENERATOR_THEME_PRESETS) \<or> v \<in> set [''constructor'', ''__proto__'']
         then v else ''ocean'')"

definition applyGeneratorPresetPalette :: "form \<Rightarrow> form" where
  "applyGeneratorPresetPalette f =
     (let presetId = selectedGeneratorPresetId f
      in applyGeneratorPalette
           (case map_of GENERATOR_THEME_PRESETS presetId of None \<Rightarrow> [] | Some p \<Rightarrow> p) f)"

definition resetGeneratorPalette :: "form \<Rightarrow> form" where
  "resetGeneratorPalette f =
     (let f1 = captureGeneratorDefaultPalette f
      in applyGeneratorPalette
           (case generatorDefaultPalette f1 of None \<Rightarrow> preset_ocean | Some p \<Rightarrow> p) f1)"

definition randomizeGeneratorPalette :: "(string \<Rightarrow> rat) \<Rightarrow> form \<Rightarrow> form" where
  "randomizeGeneratorPalette rnd f = applyGeneratorPalette (randomGeneratorPalette rnd) f"

text \<open>The palette buttons a user can press between a capture and a reset.\<close>

datatype palette_op = Randomize "string \<Rightarrow> rat" | ApplyPreset string

fun palette_step :: "form \<Rightarrow> palette_op \<Rightarrow> form" where
  "palette_step f (Randomize rnd) = randomizeGeneratorPalette rnd f"
| "palette_step f (ApplyPreset name) = applyGeneratorPresetPalette (f \<lparr> gen_theme_preset := name \<rparr>)"

subsection \<open>Availability: which controls and options are enabled\<close>

text \<open>\<open>v || d\<close> for a string \<open>v\<close>.\<close>

definition value_or :: "string \<Rightarrow> string \<Rightarrow> string" where
  "value_or v d = (if v = [] then d else v)"

text \<open>
  The kinds an option is annotated with: \<open>data-kinds\<close> split at commas, trimmed,
  without empty entries; both kinds when the attribute is absent.
\<close>

definition allowed_kinds :: "option_node \<Rightarrow> string list" where
  "allowed_kinds input =
     filter (\<lambda>item. item \<noteq> []) (map trim (split_on CHR '','' (value_or (opt_kinds input) ''repo,quality'')))"

definition selectedGeneratorHideFlags :: "form \<Rightarrow> string list" where
  "selectedGeneratorHideFlags f =
     filter (\<lambda>v. v \<noteq> [])
       (map (\<lambda>node. trim (opt_value node))
          (filter (\<lambda>node. opt_checked node \<and> \<not> opt_disabled node) (hide_options f)))"

definition syncGeneratorHideField :: "form \<Rightarrow> form" where
  "syncGeneratorHideField f = f \<lparr> gen_hide := join '','' (selectedGeneratorHideFlags f) \<rparr>"

definition hide_supported :: "string \<Rightarrow> string \<Rightarrow> option_node \<Rightarrow> bool" where
  "hide_supported kind format input = (format = ''svg'' \<and> kind \<in> set (allowed_kinds input))"

definition syncGeneratorHideOptionsByKind :: "form \<Rightarrow> form" where
  "syncGeneratorHideOptionsByKind f =
     (let kind = value_or (gen_kind f) ''repo'';
          format = value_or (gen_format f) ''svg''
      in syncGeneratorHideField
           (f \<lparr> hide_options :=
                  map (\<lambda>input.
                         if hide_supported kind format input
                         then input \<lparr> opt_disabled := False \<rparr>
                         else input \<lparr> opt_disabled := True, opt_checked := False \<rparr>)
                      (hide_options f) \<rparr>))"

definition syncGeneratorControlVisibility :: "form \<Rightarrow> form" where
  "syncGeneratorControlVisibility f =
     (let kind = value_or (gen_kind f) ''repo'';
          format = value_or (gen_format f) ''svg'';
          isSvg = (format = ''svg'');
          isJson = (\<not> isSvg);
          isRepo = (kind = ''repo'');
          isQualityJson = (\<not> isSvg \<and> kind = ''quality'')
      in f \<lparr> svg_only_disabled := \<not> isSvg,
               include_report_disabled := \<not> isQualityJson,
               langs_disabled := \<not> isRepo,
               fields_disabled := \<not> isJson \<rparr>)"

definition syncGeneratorCustomThemeVisibility :: "form \<Rightarrow> form" where
  "syncGeneratorCustomThemeVisibility f =
     (let theme = value_or (gen_theme f) ''ocean'';
          format = value_or (gen_format f) ''svg'';
          shown = (theme = ''custom'' \<and> format = ''svg'')
      in f \<lparr> custom_theme_disabled := \<not> shown \<rparr>)"

definition setGeneratorHideSelection :: "bool \<Rightarrow> form \<Rightarrow> form" where
  "setGeneratorHideSelection checked f =
     syncGeneratorHideField
       (f \<lparr> hide_options :=
              map (\<lambda>node. if opt_disabled node then node else node \<lparr> opt_checked := checked \<rparr>)
                  (hide_options f) \<rparr>)"

text \<open>The tokens of a comma-separated flag list: trimmed, lower case, none empty.\<close>

definition flag_tokens :: "string \<Rightarrow> string list" where
  "flag_tokens rawValue =
     filter (\<lambda>item. item \<noteq> []) (map (\<lambda>item. toLowerCase (trim item)) (split_on CHR '','' rawValue))"

definition applyGeneratorHideFlags :: "string \<Rightarrow> form \<Rightarrow> form" where
  "applyGeneratorHideFlags rawValue f =
     (let tokens = flag_tokens rawValue
      in syncGeneratorHideField
           (f \<lparr> hide_options :=
                  map (\<lambda>node.
                         if opt_disabled node then node \<lparr> opt_checked := False \<rparr>
                         else node \<lparr> opt_checked := (toLowerCase (trim (opt_value node)) \<in> set tokens) \<rparr>)
                      (hide_options f) \<rparr>))"

definition selectedGeneratorFieldFlags :: "form \<Rightarrow> string list" where
  "selectedGeneratorFieldFlags f =
     filter (\<lambda>v. v \<noteq> [])
       (map (\<lambda>node. trim (opt_value node))
          (filter (\<lambda>node. opt_checked node \<and> \<not> opt_disabled node) (field_options f)))"

definition syncGeneratorFieldsField :: "form \<Rightarrow> form" where
  "syncGeneratorFieldsField f =
     (let kind = value_or (gen_kind f) ''repo'';
          total = (if kind = ''quality'' then length (GENERATOR_JSON_FIELDS ''quality'')
                   else length (GENERATOR_JSON_FIELDS ''repo''));
          selected = selectedGeneratorFieldFlags f
      in if selected = [] then f \<lparr> gen_fields := ''__none__'' \<rparr>
         else if total \<le> length selected then f \<lparr> gen_fields := [] \<rparr>
         else f \<lparr> gen_fields := join '','' selected \<rparr>)"

definition field_supported :: "string \<Rightarrow> string \<Rightarrow> option_node \<Rightarrow> bool" where
  "field_supported kind format input = (format = ''json'' \<and> kind \<in> set (allowed_kinds input))"

definition syncGeneratorFieldOptionsByKind :: "form \<Rightarrow> form" where
  "syncGeneratorFieldOptionsByKind f =
     (let kind = value_or (gen_kind f) ''repo'';
          format = value_or (gen_format f) ''svg''
      in syncGeneratorFieldsField
           (f \<lparr> field_options :=
                  map (\<lambda>input. input \<lparr> opt_disabled := \<not> field_supported kind format input \<rparr>)
                      (field_options f) \<rparr>))"

definition setGeneratorFieldSelection :: "bool \<Rightarrow> form \<Rightarrow> form" where
  "setGeneratorFieldSelection checked f =
     syncGeneratorFieldsField
       (f \<lparr> field_options :=
              map (\<lambda>node. if opt_disabled node then node else node \<lparr> opt_checked := checked \<rparr>)
                  (field_options f) \<rparr>)"

definition applyGeneratorFieldFlags :: "string \<Rightarrow> form \<Rightarrow> form" where
  "applyGeneratorFieldFlags rawValue f =
     (let tokens = flag_tokens rawValue;
          explicitNone = (''__none__'' \<in> set tokens \<or> ''none'' \<in> set tokens);
          hasExplicitSelection = (tokens \<noteq> [])
      in syncGeneratorFieldsField
           (f \<lparr> field_options :=
                  map (\<lambda>node.
                         if opt_disabled node then node
                         else if \<not> hasExplicitSelection then node \<lparr> opt_checked := True \<rparr>
                         else node \<lparr> opt_checked :=
                                (\<not> explicitNone \<and> toLowerCase (trim (opt_value node)) \<in> set tokens) \<rparr>)
                      (field_options f) \<rparr>))"

text \<open>
  The handlers the page binds to a change of the kind and of the format select (of the
  theme select too): the new value is in the control, then the availability is synced.
\<close>

definition on_kind_change :: "string \<Rightarrow> form \<Rightarrow> form" where
  "on_kind_change kind f =
     syncGeneratorFieldOptionsByKind
       (syncGeneratorHideOptionsByKind (syncGeneratorControlVisibility (f \<lparr> gen_kind := kind \<rparr>)))"

definition on_format_change :: "string \<Rightarrow> form \<Rightarrow> form" where
  "on_format_change format f =
     syncGeneratorCustomThemeVisibility
       (syncGeneratorFieldOptionsByKind
          (syncGeneratorHideOptionsByKind (syncGeneratorControlVisibility (f \<lparr> gen_format := format \<rparr>))))"

subsection \<open>Export: the canonical request path\<close>

definition hex2 :: "nat \<Rightarrow> string" where
  "hex2 n = [''0123456789ABCDEF'' ! (n div 16), ''0123456789ABCDEF'' ! (n mod 16)]"

definition percent_encode :: "char \<Rightarrow> string" where
  "percent_encode c = CHR ''%'' # hex2 (of_char c)"

definition is_alnum :: "char \<Rightarrow> bool" where
  "is_alnum c = (c \<in> set ''ABCDEFGHIJKLMNOPQRSTUVWXYZabcdefghijklmnopqrstuvwxyz0123456789'')"

text \<open>\<open>encodeURIComponent\<close>: letters, digits and \<open>- _ . ! ~ * ' ( )\<close> stay.\<close>

definition encodeURIComponent :: "string \<Rightarrow> string" where
  "encodeURIComponent s =
     concat (map (\<lambda>c. if is_alnum c \<or> c \<in> set (CHR 0x27 # ''-_.!~*()'') then [c]
                       else percent_encode c) s)"

text \<open>
  \<open>URLSearchParams\<close>: an ordered list of pairs. \<open>set\<close> overwrites the first pair of the
  name and drops its other pairs, or appends; \<open>toString\<close> is the form-urlencoded
  serialisation.
\<close>

type_synonym search_params = "(string \<times> string) list"

fun params_set :: "string \<Rightarrow> string \<Rightarrow> search_params \<Rightarrow> search_params" where
  "params_set k v [] = [(k, v)]"
| "params_set k v ((k', v') # ps) =
     (if k' = k then (k, v) # filter (\<lambda>(n, w). n \<noteq> k) ps else (k', v') # params_set k v ps)"

definition form_encode :: "string \<Rightarrow> string" where
  "form_encode s =
     concat (map (\<lambda>c. if is_alnum c \<or> c \<in> set ''*-._'' then [c]
                       else if c = CHR '' '' then ''+''
                       else percent_encode c) s)"

definition params_toString :: "search_params \<Rightarrow> string" where
  "params_toString ps = join ''&'' (map (\<lambda>(k, v). form_encode k @ ''='' @ form_encode v) ps)"

text \<open>\<open>Number(v || d)\<close> for the string \<open>v\<close> of a numeric input.\<close>

definition number_or :: "string \<Rightarrow> rat \<Rightarrow> jsnum" where
  "number_or v d = (if v = [] then Fin d else Number v)"

definition clamp_string :: "rat \<Rightarrow> rat \<Rightarrow> jsnum \<Rightarrow> string" where
  "clamp_string lo hi n = String_of (Math_max (Fin lo) (Math_min (Fin hi) n))"

text \<open>
  \<open>buildGeneratorPath\<close>, in two parts. \<open>generator_params\<close> is the \<open>URLSearchParams\<close>
  object it fills: the parameters are set in the order of the source, and an entry
  \<open>None\<close> is a parameter the source leaves out.
\<close>

definition set_entry :: "search_params \<Rightarrow> (string \<times> string) option \<Rightarrow> search_params" where
  "set_entry ps e = (case e of None \<Rightarrow> ps | Some (k, v) \<Rightarrow> params_set k v ps)"

definition generator_params :: "form \<Rightarrow> search_params" where
  "generator_params f =
     (let kind = value_or (gen_kind f) ''repo'';
          format = value_or (gen_format f) ''svg'';
          theme = value_or (gen_theme f) ''ocean'';
          locale = value_or (gen_locale f) ''en'';
          title = trim (gen_title f);
          hide = trim (gen_hide f);
          width = number_or (gen_width f) 760;
          langs = number_or (gen_langs f) 4;
          animate = gen_animate f;
          animation = value_or (gen_animation f) ''all'';
          duration = number_or (gen_duration f) 1400;
          cacheSeconds = number_or (gen_cache_seconds f) 21600;
          includeReport = gen_include_report f;
          fields = trim (gen_fields f);
          entries =
            (if format = ''svg'' then
               [Some (''theme'', theme),
                Some (''locale'', locale),
                Some (''card_width'', clamp_string 640 1400 width),
                (if title \<noteq> [] then Some (''title'', title) else None),
                (if hide \<noteq> [] then Some (''hide'', hide) else None),
                Some (''animate'', if animate then ''true'' else ''false''),
                Some (''animation'', animation),
                Some (''duration'', clamp_string 350 7000 duration),
                Some (''cache_seconds'', clamp_string 0 86400 cacheSeconds),
                (if kind = ''repo'' then Some (''langs_count'', clamp_string 1 10 langs) else None)]
               @ (if theme = ''custom'' then map Some (generatorCustomThemeParams f) else [])
             else if kind = ''repo'' then
               [Some (''langs_count'', clamp_string 1 30 langs),
                (if fields \<noteq> [] then Some (''fields'', fields) else None)]
             else
               [Some (''locale'', locale),
                (if includeReport then Some (''include_report'', ''true'') else None),
                (if fields \<noteq> [] then Some (''fields'', fields) else None)])
      in foldl set_entry [] entries)"

definition buildGeneratorPath :: "form \<Rightarrow> string" where
  "buildGeneratorPath f =
     (let owner = trim (gen_owner f);
          repo = trim (gen_repo f);
          kind = value_or (gen_kind f) ''repo'';
          format = value_or (gen_format f) ''svg''
      in if owner = [] \<or> repo = [] then []
         else
           (let path = ''/api/stats/'' @ kind @ ''/'' @ encodeURIComponent owner @ ''/''
                       @ encodeURIComponent repo @ ''.'' @ format;
                qs = params_toString (generator_params f)
            in if qs \<noteq> [] then path @ ''?'' @ qs else path))"

section \<open>The card generator: import\<close>

subsection \<open>Regular expressions\<close>

text \<open>
  The regular expressions of the script are written as terms and run by one
  backtracking matcher. \<open>rx_run\<close> lists the ways an expression matches a prefix of the
  input, in the order in which backtracking tries them; each way is the rest of the
  input and the captured groups so far. Repetition is greedy and, as in every
  expression of the script, over single characters.
\<close>

datatype cls =
    Lit char
  | LitI char
  | AnyOf "char list"
  | NoneOf "char list"
  | NonSpaceNoneOf "char list"
  | Space
  | Dot

fun cls_match :: "cls \<Rightarrow> char \<Rightarrow> bool" where
  "cls_match (Lit a) c = (c = a)"
| "cls_match (LitI a) c = (lower_char c = lower_char a)"
| "cls_match (AnyOf as) c = (c \<in> set as)"
| "cls_match (NoneOf as) c = (c \<notin> set as)"
| "cls_match (NonSpaceNoneOf as) c = (\<not> is_space c \<and> c \<notin> set as)"
| "cls_match Space c = is_space c"
| "cls_match Dot c = (c \<notin> set [CHR 0x0A, CHR 0x0D])"

datatype rx =
    Eps
  | One cls
  | Star cls
  | Plus cls
  | Then rx rx
  | Or rx rx
  | Opt rx
  | Group rx

fun rx_run :: "rx \<Rightarrow> string \<Rightarrow> string list \<Rightarrow> (string \<times> string list) list" where
  "rx_run Eps s caps = [(s, caps)]"
| "rx_run (One k) s caps =
     (case s of [] \<Rightarrow> [] | c # r \<Rightarrow> if cls_match k c then [(r, caps)] else [])"
| "rx_run (Star k) s caps =
     map (\<lambda>n. (drop n s, caps)) (rev [0 ..< Suc (length (takeWhile (cls_match k) s))])"
| "rx_run (Plus k) s caps =
     map (\<lambda>n. (drop n s, caps)) (rev [1 ..< Suc (length (takeWhile (cls_match k) s))])"
| "rx_run (Then a b) s caps = concat (map (\<lambda>(r, cs). rx_run b r cs) (rx_run a s caps))"
| "rx_run (Or a b) s caps = rx_run a s caps @ rx_run b s caps"
| "rx_run (Opt a) s caps = rx_run a s caps @ [(s, caps)]"
| "rx_run (Group a) s caps =
     map (\<lambda>(r, cs). (r, cs @ [take (length s - length r) s])) (rx_run a s caps)"

definition lits :: "string \<Rightarrow> rx" where
  "lits s = foldr (\<lambda>c r. Then (One (Lit c)) r) s Eps"

definition litsI :: "string \<Rightarrow> rx" where
  "litsI s = foldr (\<lambda>c r. Then (One (LitI c)) r) s Eps"

definition seq :: "rx list \<Rightarrow> rx" where
  "seq rs = foldr Then rs Eps"

text \<open>An expression anchored at both ends: the groups of the first way that uses all input.\<close>

definition rx_full :: "rx \<Rightarrow> string \<Rightarrow> string list option" where
  "rx_full r s =
     (case filter (\<lambda>(rest, cs). rest = []) (rx_run r s []) of
        [] \<Rightarrow> None
      | (rest, cs) # alts \<Rightarrow> Some cs)"

text \<open>An expression without anchors: the first way at the leftmost position that has one.\<close>

fun rx_search :: "rx \<Rightarrow> string \<Rightarrow> string list option" where
  "rx_search r [] = (case rx_run r [] [] of [] \<Rightarrow> None | (rest, cs) # alts \<Rightarrow> Some cs)"
| "rx_search r (c # s) =
     (case rx_run r (c # s) [] of [] \<Rightarrow> rx_search r s | (rest, cs) # alts \<Rightarrow> Some cs)"

text \<open>\<open>s.replace(/\.git$/i, "")\<close>.\<close>

definition strip_git :: "string \<Rightarrow> string" where
  "strip_git s =
     (if 4 \<le> length s \<and> toLowerCase (drop (length s - 4) s) = ''.git''
      then take (length s - 4) s else s)"

text \<open>The Markdown image with a bracketed target, \<open>![alt](<ref>)\<close>.\<close>

definition mdAngle :: rx where
  "mdAngle = seq [lits ''!['', Star (NoneOf '']''), lits ''](''  , Star Space, One (Lit CHR ''<''),
                  Group (Plus (NoneOf ''>'')), One (Lit CHR ''>''), Star Space, One (Lit CHR '')'')]"

text \<open>The Markdown image with a plain target and an optional quoted title.\<close>

definition mdPlain :: rx where
  "mdPlain = seq [lits ''!['', Star (NoneOf '']''), lits ''](''  , Star Space,
                  Group (Plus (NonSpaceNoneOf '')'')),
                  Opt (seq [Plus Space, One (AnyOf [CHR 0x22, CHR 0x27]),
                            Star (NoneOf [CHR 0x22, CHR 0x27]), One (AnyOf [CHR 0x22, CHR 0x27])]),
                  Star Space, One (Lit CHR '')'')]"

text \<open>\<open>s.replace(/^<|>$/g, "")\<close>: one leading \<open><\<close> and one trailing \<open>>\<close> go.\<close>

definition strip_angles :: "string \<Rightarrow> string" where
  "strip_angles s =
     (let a = (if s \<noteq> [] \<and> hd s = CHR ''<'' then tl s else s)
      in if a \<noteq> [] \<and> last a = CHR ''>'' then butlast a else a)"

definition extractGeneratorImportUrl :: "string \<Rightarrow> string" where
  "extractGeneratorImportUrl v =
     (let input = trim v in
      if input = [] then []
      else (case rx_search mdAngle input of
              Some (g # gs) \<Rightarrow> trim g
            | _ \<Rightarrow>
              (case rx_search mdPlain input of
                 Some (g # gs) \<Rightarrow> trim g
               | _ \<Rightarrow> trim (strip_angles input))))"

text \<open>The path template \<open>/api/stats/{kind}/{owner}/{repo}.{format}\<close>, letter case ignored.\<close>

definition statsMatch :: rx where
  "statsMatch = seq [litsI ''/api/stats/'', Group (Or (litsI ''repo'') (litsI ''quality'')),
                     One (Lit CHR ''/''), Group (Plus (NoneOf ''/'')), One (Lit CHR ''/''),
                     Group (Plus (NoneOf ''/.'')), One (Lit CHR ''.''),
                     Group (Or (litsI ''svg'') (litsI ''json''))]"

text \<open>A GitHub repository address; what follows the repository name is ignored.\<close>

definition urlMatch :: rx where
  "urlMatch = seq [litsI ''http'', Opt (One (LitI CHR ''s'')), lits ''://'', litsI ''github.com/'',
                   Group (Plus (NonSpaceNoneOf ''/'')), One (Lit CHR ''/''),
                   Group (Plus (NonSpaceNoneOf ''/?#'')),
                   Opt (Then (One (AnyOf ''/?#'')) (Star Dot))]"

text \<open>The shorthand \<open>owner/repo\<close>.\<close>

definition shortMatch :: rx where
  "shortMatch = seq [Group (Plus (NonSpaceNoneOf ''/'')), One (Lit CHR ''/''),
                     Group (Plus (NonSpaceNoneOf ''/''))]"

subsection \<open>Percent decoding\<close>

datatype js_error = URIError

datatype pct_item = Raw char | Esc nat

text \<open>
  The escapes of a string, strictly: a percent sign that is not followed by two
  hexadecimal digits is an error.
\<close>

fun pct_items :: "string \<Rightarrow> pct_item list option" where
  "pct_items [] = Some []"
| "pct_items (c # s) =
     (if c = CHR ''%'' then
        (case s of
           a # b # r \<Rightarrow>
             if is_hex a \<and> is_hex b
             then map_option ((#) (Esc (digit_val a * 16 + digit_val b))) (pct_items r)
             else None
         | _ \<Rightarrow> None)
      else map_option ((#) (Raw c)) (pct_items s))"

text \<open>
  The escaped bytes must spell well-formed UTF-8: after a lead byte, \<open>need\<close> further
  escapes are due, the next one between \<open>lo\<close> and \<open>hi\<close>.
\<close>

fun utf8_ok :: "nat \<Rightarrow> nat \<Rightarrow> nat \<Rightarrow> pct_item list \<Rightarrow> bool" where
  "utf8_ok need lo hi [] = (need = 0)"
| "utf8_ok need lo hi (Raw c # r) = (need = 0 \<and> utf8_ok 0 0 0 r)"
| "utf8_ok need lo hi (Esc n # r) =
     (if need = 0 then
        (if n < 0x80 then utf8_ok 0 0 0 r
         else if 0xC2 \<le> n \<and> n \<le> 0xDF then utf8_ok 1 0x80 0xBF r
         else if n = 0xE0 then utf8_ok 2 0xA0 0xBF r
         else if n = 0xED then utf8_ok 2 0x80 0x9F r
         else if 0xE1 \<le> n \<and> n \<le> 0xEF then utf8_ok 2 0x80 0xBF r
         else if n = 0xF0 then utf8_ok 3 0x90 0xBF r
         else if 0xF1 \<le> n \<and> n \<le> 0xF3 then utf8_ok 3 0x80 0xBF r
         else if n = 0xF4 then utf8_ok 3 0x80 0x8F r
         else False)
      else lo \<le> n \<and> n \<le> hi \<and> utf8_ok (need - 1) 0x80 0xBF r)"

definition item_char :: "pct_item \<Rightarrow> char" where
  "item_char i = (case i of Raw c \<Rightarrow> c | Esc n \<Rightarrow> char_of n)"

text \<open>\<open>decodeURIComponent\<close>: it throws \<open>URIError\<close> on a malformed escape sequence.\<close>

definition decodeURIComponent :: "string \<Rightarrow> js_error + string" where
  "decodeURIComponent s =
     (case pct_items s of
        None \<Rightarrow> Inl URIError
      | Some items \<Rightarrow> if utf8_ok 0 0 0 items then Inr (map item_char items) else Inl URIError)"

subsection \<open>The address object\<close>

text \<open>
  What the script reads of \<open>new URL(input, window.location.origin)\<close>: the path name and
  the search parameters, decoded, in order. \<open>params.get\<close> is the first pair of a name.
  A parser of addresses is a function to \<open>url option\<close>; \<open>None\<close> stands for the
  constructor throwing. The import functions take the parser as their first argument.
\<close>

record url =
  pathname :: string
  searchParams :: search_params

type_synonym url_parser = "string \<Rightarrow> url option"

definition params_get :: "search_params \<Rightarrow> string \<Rightarrow> string option" where
  "params_get ps k = map_of ps k"

text \<open>A value that is neither \<open>null\<close> nor the empty string.\<close>

definition truthy :: "string option \<Rightarrow> bool" where
  "truthy v = (case v of None \<Rightarrow> False | Some s \<Rightarrow> s \<noteq> [])"

text \<open>\<open>String(v || d)\<close> for a parameter value \<open>v\<close>.\<close>

definition param_or :: "string option \<Rightarrow> string \<Rightarrow> string" where
  "param_or v d = (case v of None \<Rightarrow> d | Some s \<Rightarrow> if s = [] then d else s)"

subsection \<open>Parsing an import reference\<close>

text \<open>
  The object an import yields. An address of the stats interface gives every entry
  (\<open>None\<close> is \<open>null\<close>: the parameter is absent); a GitHub address or a shorthand gives
  the owner and the repository only.
\<close>

record parsed =
  p_owner :: string
  p_repo :: string
  p_kind :: "string option"
  p_format :: "string option"
  p_theme :: "string option"
  p_locale :: "string option"
  p_title :: "string option"
  p_hide :: "string option"
  p_width :: "string option"
  p_langs :: "string option"
  p_animate :: "string option"
  p_animation :: "string option"
  p_duration :: "string option"
  p_cacheSeconds :: "string option"
  p_includeReport :: "string option"
  p_fields :: "string option"
  p_colors :: "palette option"

definition repo_only :: "string \<Rightarrow> string \<Rightarrow> parsed option" where
  "repo_only owner repo =
     (if owner \<noteq> [] \<and> repo \<noteq> [] then
        Some \<lparr> p_owner = owner, p_repo = repo, p_kind = None, p_format = None, p_theme = None,
               p_locale = None, p_title = None, p_hide = None, p_width = None, p_langs = None,
               p_animate = None, p_animation = None, p_duration = None, p_cacheSeconds = None,
               p_includeReport = None, p_fields = None, p_colors = None \<rparr>
      else None)"

text \<open>
  The common end of both branches of \<open>parseGeneratorApiImport\<close>: the owner and the
  repository must not be empty, an unknown kind is \<open>repo\<close>, an unknown format \<open>svg\<close>, and
  the other entries are read from the search parameters.
\<close>

definition api_parsed :: "search_params \<Rightarrow> string \<Rightarrow> string \<Rightarrow> string \<Rightarrow> string \<Rightarrow> parsed option" where
  "api_parsed params owner repo kind format =
     (if owner = [] \<or> repo = [] then None
      else Some
        \<lparr> p_owner = owner,
          p_repo = repo,
          p_kind = Some (if kind = ''quality'' then ''quality'' else ''repo''),
          p_format = Some (if format = ''json'' then ''json'' else ''svg''),
          p_theme = params_get params ''theme'',
          p_locale = params_get params ''locale'',
          p_title = params_get params ''title'',
          p_hide = params_get params ''hide'',
          p_width = params_get params ''card_width'',
          p_langs = params_get params ''langs_count'',
          p_animate = params_get params ''animate'',
          p_animation = params_get params ''animation'',
          p_duration = params_get params ''duration'',
          p_cacheSeconds = params_get params ''cache_seconds'',
          p_includeReport = params_get params ''include_report'',
          p_fields = params_get params ''fields'',
          p_colors = Some (List.map_filter
                            (\<lambda>key. map_option (Pair key)
                                     (normalizeHexColor (param_or (params_get params key) [])))
                            GENERATOR_THEME_KEYS) \<rparr>)"

text \<open>The request shape: both an \<open>owner\<close> and a \<open>repo\<close> search parameter, neither empty.\<close>

definition request_shaped :: "url \<Rightarrow> bool" where
  "request_shaped u =
     (truthy (params_get (searchParams u) ''owner'') \<and> truthy (params_get (searchParams u) ''repo''))"

definition request_import :: "url \<Rightarrow> parsed option" where
  "request_import u =
     (let params = searchParams u;
          owner = trim (param_or (params_get params ''owner'') []);
          repo = strip_git (trim (param_or (params_get params ''repo'') []));
          kind = toLowerCase (trim (param_or (params_get params ''kind'') ''repo''));
          format = toLowerCase (trim (param_or (params_get params ''format'') ''svg''))
      in api_parsed params owner repo kind format)"

text \<open>The path shape: the path name matches the template of the stats interface.\<close>

definition path_import :: "url \<Rightarrow> js_error + parsed option" where
  "path_import u =
     (case rx_full statsMatch (pathname u) of
        Some [k, ow, rp, fm] \<Rightarrow>
          (case decodeURIComponent ow of
             Inl e \<Rightarrow> Inl e
           | Inr owner \<Rightarrow>
               (case decodeURIComponent rp of
                  Inl e \<Rightarrow> Inl e
                | Inr repo \<Rightarrow>
                    Inr (api_parsed (searchParams u) owner (strip_git repo)
                           (toLowerCase k) (toLowerCase fm))))
      | _ \<Rightarrow> Inr None)"

text \<open>
  \<open>parseGeneratorApiImport\<close>. \<open>Inl\<close> is an exception that leaves the function,
  \<open>Inr None\<close> the result \<open>null\<close>.
\<close>

definition parseGeneratorApiImport :: "url_parser \<Rightarrow> string \<Rightarrow> js_error + parsed option" where
  "parseGeneratorApiImport U v =
     (let input = extractGeneratorImportUrl v in
      if input = [] then Inr None
      else (case U input of
              None \<Rightarrow> Inr None
            | Some u \<Rightarrow> if request_shaped u then Inr (request_import u) else path_import u))"

definition github_import :: "string \<Rightarrow> parsed option option" where
  "github_import input =
     (case rx_full urlMatch input of
        Some [ow, rp] \<Rightarrow> Some (repo_only ow (strip_git rp))
      | _ \<Rightarrow> None)"

definition short_import :: "string \<Rightarrow> parsed option option" where
  "short_import input =
     (case rx_full shortMatch input of
        Some [ow, rp] \<Rightarrow> Some (repo_only ow (strip_git rp))
      | _ \<Rightarrow> None)"

text \<open>
  \<open>parseGeneratorImport\<close>: the stats interface shapes first, then the GitHub address,
  then the shorthand.
\<close>

definition parseGeneratorImport :: "url_parser \<Rightarrow> string \<Rightarrow> js_error + parsed option" where
  "parseGeneratorImport U v =
     (case parseGeneratorApiImport U v of
        Inl e \<Rightarrow> Inl e
      | Inr (Some apiImport) \<Rightarrow> Inr (Some apiImport)
      | Inr None \<Rightarrow>
          (let input = extractGeneratorImportUrl v in
           if input = [] then Inr None
           else (case github_import input of
                   Some r \<Rightarrow> Inr r
                 | None \<Rightarrow>
                     (case short_import input of
                        Some r \<Rightarrow> Inr r
                      | None \<Rightarrow> Inr None))))"

text \<open>
  \<open>parseApiImport\<close> of the static generator page is the same function, line for line,
  except that its result has no \<open>fields\<close> entry.
\<close>

definition parseApiImport :: "url_parser \<Rightarrow> string \<Rightarrow> js_error + parsed option" where
  "parseApiImport U v =
     (case parseGeneratorApiImport U v of
        Inl e \<Rightarrow> Inl e
      | Inr r \<Rightarrow> Inr (map_option (\<lambda>p. p \<lparr> p_fields := None \<rparr>) r))"

subsection \<open>Applying an import to the form\<close>

definition clampNumber :: "string \<Rightarrow> rat \<Rightarrow> rat \<Rightarrow> rat \<Rightarrow> jsnum" where
  "clampNumber v lo hi fallback =
     (let number = Number v in
      if \<not> isFinite number then Fin fallback
      else Math_max (Fin lo) (Math_min (Fin hi) number))"

definition parseBooleanValue :: "string option \<Rightarrow> bool \<Rightarrow> bool" where
  "parseBooleanValue v fallback =
     (case v of
        None \<Rightarrow> fallback
      | Some s \<Rightarrow>
          (let normalized = toLowerCase (trim s) in
           if normalized \<in> set [''1'', ''true'', ''yes'', ''on''] then True
           else if normalized \<in> set [''0'', ''false'', ''no'', ''off''] then False
           else fallback))"

text \<open>
  \<open>applyGeneratorImportToForm\<close>, statement by statement: owner, repository, kind and
  format; the three availability syncs; then every other control.
\<close>

definition import_head :: "parsed \<Rightarrow> form \<Rightarrow> form" where
  "import_head p f =
     f \<lparr> gen_owner := (if p_owner p \<noteq> [] then p_owner p else gen_owner f),
         gen_repo := (if p_repo p \<noteq> [] then p_repo p else gen_repo f),
         gen_kind := (if truthy (p_kind p)
                      then (if p_kind p = Some ''quality'' then ''quality'' else ''repo'')
                      else gen_kind f),
         gen_format := (if truthy (p_format p)
                        then (if p_format p = Some ''json'' then ''json'' else ''svg'')
                        else gen_format f) \<rparr>"

definition import_controls :: "parsed \<Rightarrow> form \<Rightarrow> form" where
  "import_controls p f =
     f \<lparr> gen_theme :=
           (let theme = toLowerCase (trim (param_or (p_theme p) []))
            in if truthy (p_theme p) \<and> theme \<in> set (gen_theme_options f) then theme
               else gen_theme f),
         gen_locale :=
           (let locale = toLowerCase (trim (param_or (p_locale p) []))
            in if truthy (p_locale p) \<and> (locale = ''en'' \<or> locale = ''ru'') then locale
               else gen_locale f),
         gen_title := (case p_title p of None \<Rightarrow> [] | Some s \<Rightarrow> s),
         gen_width :=
           (case p_width p of
              None \<Rightarrow> gen_width f
            | Some w \<Rightarrow> String_of (clampNumber w 640 1400 760)),
         gen_langs :=
           (case p_langs p of
              None \<Rightarrow> gen_langs f
            | Some l \<Rightarrow> String_of (clampNumber l 1 30 4)),
         gen_animate :=
           (case p_animate p of
              None \<Rightarrow> gen_animate f
            | Some a \<Rightarrow> parseBooleanValue (Some a) True),
         gen_animation :=
           (let mode = toLowerCase (trim (param_or (p_animation p) []))
            in if truthy (p_animation p) \<and> mode \<in> set [''all'', ''soft'', ''bars'', ''ring'', ''none'']
               then mode else gen_animation f),
         gen_duration :=
           (case p_duration p of
              None \<Rightarrow> gen_duration f
            | Some d \<Rightarrow> String_of (clampNumber d 350 7000 1400)),
         gen_cache_seconds :=
           (case p_cacheSeconds p of
              None \<Rightarrow> gen_cache_seconds f
            | Some c \<Rightarrow> String_of (clampNumber c 0 86400 21600)),
         gen_include_report := parseBooleanValue (p_includeReport p) False \<rparr>"

definition applyGeneratorImportToForm :: "parsed \<Rightarrow> form \<Rightarrow> form" where
  "applyGeneratorImportToForm p f =
     (let f1 = import_head p f;
          f2 = syncGeneratorFieldOptionsByKind
                 (syncGeneratorHideOptionsByKind (syncGeneratorControlVisibility f1));
          f3 = import_controls p f2;
          f4 = applyGeneratorHideFlags (param_or (p_hide p) []) f3;
          f5 = applyGeneratorFieldFlags (param_or (p_fields p) []) f4;
          f6 = (case p_colors p of None \<Rightarrow> f5 | Some colors \<Rightarrow> applyGeneratorPalette colors f5)
      in syncGeneratorCustomThemeVisibility f6)"

text \<open>The message the import shows for a reference of no known shape (English page).\<close>

definition invalidGeneratorRepoUrl :: string where
  "invalidGeneratorRepoUrl =
     ''Enter a valid GitHub URL, stats API URL, or Markdown embed like ![...](https://.../api?...).''"

text \<open>
  \<open>applyRepoImport\<close>, the handler of the import button and of the Enter key. \<open>Inl\<close> is
  an exception that leaves the handler: nothing was written and no message is shown.
\<close>

definition applyRepoImport :: "url_parser \<Rightarrow> form \<Rightarrow> js_error + form" where
  "applyRepoImport U f =
     (case parseGeneratorImport U (gen_repo_url f) of
        Inl e \<Rightarrow> Inl e
      | Inr None \<Rightarrow> Inr (f \<lparr> gen_import_error := invalidGeneratorRepoUrl \<rparr>)
      | Inr (Some p) \<Rightarrow>
          (let f1 = applyGeneratorImportToForm p f;
               f2 = (if gen_owner f1 = [] \<and> p_owner p \<noteq> [] then f1 \<lparr> gen_owner := p_owner p \<rparr> else f1);
               f3 = (if gen_repo f2 = [] \<and> p_repo p \<noteq> [] then f2 \<lparr> gen_repo := p_repo p \<rparr> else f2)
           in Inr (f3 \<lparr> gen_import_error := [] \<rparr>)))"

subsection \<open>A parser of addresses\<close>

text \<open>
  An executable stand-in for the host's address parser, for the references met in
  practice: an absolute \<open>http\<close> or \<open>https\<close> address with a plain host name, or a
  reference relative to the page's origin. Back slashes count as slashes, dot segments
  are resolved, the characters the host would escape in a path are escaped, the
  fragment is dropped, and the query is decoded as form data. A reference with
  another scheme keeps its text up to the query as the path. The theorems below that
  speak of every input hold for every parser, not only for this one.
\<close>

text \<open>Lenient decoding: a percent sign that starts no escape stays.\<close>

fun pct_decode_lenient :: "string \<Rightarrow> string" where
  "pct_decode_lenient [] = []"
| "pct_decode_lenient (c # s) =
     (if c = CHR ''%'' then
        (case s of
           a # b # r \<Rightarrow> if is_hex a \<and> is_hex b
                        then char_of (digit_val a * 16 + digit_val b) # pct_decode_lenient r
                        else c # pct_decode_lenient s
         | _ \<Rightarrow> c # pct_decode_lenient s)
      else c # pct_decode_lenient s)"

definition form_decode :: "string \<Rightarrow> string" where
  "form_decode s = pct_decode_lenient (map (\<lambda>c. if c = CHR ''+'' then CHR '' '' else c) s)"

definition parse_query :: "string \<Rightarrow> search_params" where
  "parse_query q =
     map (\<lambda>kv. (form_decode (takeWhile (\<lambda>c. c \<noteq> CHR ''='') kv),
                 form_decode (drop 1 (dropWhile (\<lambda>c. c \<noteq> CHR ''='') kv))))
         (filter (\<lambda>kv. kv \<noteq> []) (split_on CHR ''&'' q))"

definition is_single_dot :: "string \<Rightarrow> bool" where
  "is_single_dot seg = (toLowerCase seg \<in> set [''.'', ''%2e''])"

definition is_double_dot :: "string \<Rightarrow> bool" where
  "is_double_dot seg = (toLowerCase seg \<in> set [''..'', ''.%2e'', ''%2e.'', ''%2e%2e''])"

text \<open>The segments of a path, dot segments resolved; \<open>acc\<close> is the path so far, reversed.\<close>

fun path_segments :: "string list \<Rightarrow> string list \<Rightarrow> string list" where
  "path_segments acc [] = rev acc"
| "path_segments acc [seg] =
     (if is_double_dot seg then rev ([] # tl acc)
      else if is_single_dot seg then rev ([] # acc)
      else rev (seg # acc))"
| "path_segments acc (seg # rest) =
     (if is_double_dot seg then path_segments (tl acc) rest
      else if is_single_dot seg then path_segments acc rest
      else path_segments (seg # acc) rest)"

definition path_escape :: "string \<Rightarrow> string" where
  "path_escape s =
     concat (map (\<lambda>c. if (of_char c :: nat) \<le> 32 \<or> 127 \<le> (of_char c :: nat)
                          \<or> c \<in> set (CHR 0x22 # ''<>`{}^'')
                       then percent_encode c else [c]) s)"

text \<open>The path name of a path that starts at the root (the leading slash is not in \<open>p\<close>).\<close>

definition normal_path :: "string \<Rightarrow> string" where
  "normal_path p =
     CHR ''/'' # join ''/'' (path_segments []
        (split_on CHR ''/'' (path_escape (map (\<lambda>c. if c = CHR 0x5C then CHR ''/'' else c) p))))"

definition url_tail :: "string \<Rightarrow> string \<times> string" where
  "url_tail s =
     (let nofrag = takeWhile (\<lambda>c. c \<noteq> CHR ''#'') s
      in (takeWhile (\<lambda>c. c \<noteq> CHR ''?'') nofrag, drop 1 (dropWhile (\<lambda>c. c \<noteq> CHR ''?'') nofrag)))"

definition is_host_char :: "char \<Rightarrow> bool" where
  "is_host_char c = (is_alnum c \<or> c \<in> set ''.-_'')"

text \<open>After the two slashes: a host name, an optional port, then the path.\<close>

definition after_authority :: "string \<Rightarrow> url option" where
  "after_authority s =
     (let auth = takeWhile (\<lambda>c. c \<notin> set (CHR 0x5C # ''/?#'')) s;
          rest = dropWhile (\<lambda>c. c \<notin> set (CHR 0x5C # ''/?#'')) s;
          host = takeWhile (\<lambda>c. c \<noteq> CHR '':'') auth;
          port = drop 1 (dropWhile (\<lambda>c. c \<noteq> CHR '':'') auth);
          pq = url_tail rest
      in if host = [] \<or> \<not> list_all is_host_char host \<or> \<not> list_all is_digit port
            \<or> 65535 < digits_val 10 port
         then None
         else Some \<lparr> pathname = normal_path (drop 1 (fst pq)), searchParams = parse_query (snd pq) \<rparr>)"

definition scheme_of :: "string \<Rightarrow> (string \<times> string) option" where
  "scheme_of s =
     (let a = takeWhile (\<lambda>c. is_alnum c \<or> c \<in> set ''+-.'') s;
          rest = drop (length a) s
      in if a \<noteq> [] \<and> \<not> is_digit (hd a) \<and> hd a \<notin> set ''+-.'' \<and> rest \<noteq> [] \<and> hd rest = CHR '':''
         then Some (toLowerCase a, tl rest) else None)"

definition is_slash :: "char \<Rightarrow> bool" where
  "is_slash c = (c = CHR ''/'' \<or> c = CHR 0x5C)"

definition host_URL :: url_parser where
  "host_URL input =
     (let s = filter (\<lambda>c. c \<notin> set [CHR 0x09, CHR 0x0A, CHR 0x0D])
                (rev (dropWhile (\<lambda>c. (of_char c :: nat) \<le> 32)
                   (rev (dropWhile (\<lambda>c. (of_char c :: nat) \<le> 32) input))))
      in case scheme_of s of
           Some (scheme, rest) \<Rightarrow>
             if scheme \<in> set [''http'', ''https'']
             then (if 2 \<le> length rest \<and> is_slash (rest ! 0) \<and> is_slash (rest ! 1)
                   then after_authority (dropWhile is_slash rest)
                   else None)
             else Some \<lparr> pathname = fst (url_tail rest), searchParams = parse_query (snd (url_tail rest)) \<rparr>
         | None \<Rightarrow>
             if 2 \<le> length s \<and> is_slash (s ! 0) \<and> is_slash (s ! 1)
             then after_authority (dropWhile is_slash s)
             else Some \<lparr> pathname = normal_path (if s \<noteq> [] \<and> is_slash (hd s)
                                                  then drop 1 (fst (url_tail s)) else fst (url_tail s)),
                          searchParams = parse_query (snd (url_tail s)) \<rparr>)"

section \<open>Sample states\<close>

text \<open>
  A generator page as it may stand after loading: repository card, SVG format, the
  ocean theme, and the multi-select options of a page that annotates each hide flag
  with the kinds it applies to (the footer flag carries no annotation) and lists the
  fields of \<open>GENERATOR_JSON_FIELDS\<close>. The
  stars and forks flags are checked.
\<close>

definition hide_option :: "string \<Rightarrow> string \<Rightarrow> bool \<Rightarrow> bool \<Rightarrow> option_node" where
  "hide_option v kinds checked disabled =
     \<lparr> opt_value = v, opt_kinds = kinds, opt_checked = checked, opt_disabled = disabled \<rparr>"

definition sample_hide_options :: "option_node list" where
  "sample_hide_options =
     [hide_option ''description'' ''repo'' False False,
      hide_option ''languages'' ''repo'' False False,
      hide_option ''meta'' ''repo,quality'' False False,
      hide_option ''stars'' ''repo,quality'' True False,
      hide_option ''forks'' ''repo'' True False,
      hide_option ''issues'' ''repo'' False False,
      hide_option ''watchers'' ''repo'' False False,
      hide_option ''status'' ''quality'' False True,
      hide_option ''lines'' ''quality'' False True,
      hide_option ''stacks'' ''quality'' False True,
      hide_option ''commit'' ''quality'' False True,
      hide_option ''categories'' ''quality'' False True,
      hide_option ''ring'' ''quality'' False True,
      hide_option ''footer'' [] False False]"

definition sample_field_options :: "option_node list" where
  "sample_field_options =
     map (\<lambda>v. \<lparr> opt_value = v, opt_kinds = ''repo'', opt_checked = True, opt_disabled = True \<rparr>)
         (GENERATOR_JSON_FIELDS ''repo'')
     @ map (\<lambda>v. \<lparr> opt_value = v, opt_kinds = ''quality'', opt_checked = True, opt_disabled = True \<rparr>)
           (GENERATOR_JSON_FIELDS ''quality'')"

definition sample_form :: form where
  "sample_form =
     \<lparr> gen_owner = ''acme'', gen_repo = ''widgets'', gen_kind = ''repo'', gen_format = ''svg'',
       gen_theme = ''ocean'',
       gen_theme_options = [''ocean'', ''light'', ''midnight'', ''nord'', ''forest'', ''custom''],
       gen_locale = ''en'', gen_title = [], gen_hide = ''stars,forks'', gen_fields = ''__none__'',
       gen_width = ''760'', gen_langs = ''4'', gen_animate = True, gen_animation = ''all'',
       gen_duration = ''1400'', gen_cache_seconds = ''21600'', gen_include_report = False,
       gen_theme_preset = ''ocean'', hide_options = sample_hide_options,
       field_options = sample_field_options, gen_colors = preset_ocean,
       gen_repo_url = [], gen_import_error = [],
       svg_only_disabled = False, include_report_disabled = True, langs_disabled = False,
       fields_disabled = True, custom_theme_disabled = True,
       generatorDefaultPalette = Some preset_ocean \<rparr>"




text \<open>
  The page switched to a JSON repository card, with the repository fields enabled and
  the given ones checked.
\<close>

definition json_field_options :: "string list \<Rightarrow> option_node list" where
  "json_field_options checked =
     map (\<lambda>v. \<lparr> opt_value = v, opt_kinds = ''repo'', opt_checked = (v \<in> set checked),
                opt_disabled = False \<rparr>)
         (GENERATOR_JSON_FIELDS ''repo'')
     @ map (\<lambda>v. \<lparr> opt_value = v, opt_kinds = ''quality'', opt_checked = True, opt_disabled = True \<rparr>)
           (GENERATOR_JSON_FIELDS ''quality'')"

definition json_form :: "string list \<Rightarrow> form" where
  "json_form checked =
     sample_form \<lparr> gen_format := ''json'', gen_hide := [], gen_fields := [],
                   field_options := json_field_options checked,
                   svg_only_disabled := True, fields_disabled := False \<rparr>"

text \<open>Import references: an unknown kind and format in the request shape and in the path shape.\<close>

definition banana_request :: string where
  "banana_request = ''https://host/api?owner=acme&repo=widgets&kind=banana&format=pdf''"

definition banana_path :: string where
  "banana_path = ''/api/stats/banana/acme/widgets.svg''"

text \<open>References that have more than one shape, and references with one shape only.\<close>

definition github_with_query :: string where
  "github_with_query = ''https://github.com/acme/widgets?owner=octo&repo=cat''"

definition stats_path_with_query :: string where
  "stats_path_with_query = ''/api/stats/quality/acme/widgets.json?owner=octo&repo=cat''"

definition stats_path_on_github :: string where
  "stats_path_on_github = ''https://github.com/api/stats/repo/acme/widgets.svg''"

definition markdown_embed :: string where
  "markdown_embed = ''![x](https://host/api/stats/repo/acme/widgets.svg?theme=nord)''"

definition github_address :: string where
  "github_address = ''https://github.com/acme/widgets''"

definition shorthand :: string where
  "shorthand = ''acme/widgets''"

text \<open>
  A request-shaped GitHub address whose owner parameter is blank, and a GitHub address
  whose path matches the stats template with the repository segment \<open>.git\<close>.
\<close>

definition blank_owner_request :: string where
  "blank_owner_request = ''https://github.com/acme/widgets?owner=%20&repo=x''"

definition git_suffix_path :: string where
  "git_suffix_path = ''https://github.com/api/stats/repo/acme/%2Egit.svg''"

text \<open>A path-shaped reference with a malformed escape, and the export of a dotted repository name.\<close>

definition malformed_escape :: string where
  "malformed_escape = ''/api/stats/repo/%zz/widgets.svg''"

definition dotted_form :: form where
  "dotted_form = sample_form \<lparr> gen_owner := ''vercel'', gen_repo := ''next.js'' \<rparr>"

text \<open>What the import reads from the export of the sample page.\<close>

definition sample_parsed :: parsed where
  "sample_parsed =
     \<lparr> p_owner = ''acme'', p_repo = ''widgets'', p_kind = Some ''repo'',
       p_format = Some ''svg'', p_theme = Some ''ocean'', p_locale = Some ''en'',
       p_title = None, p_hide = Some ''stars,forks'', p_width = Some ''760'',
       p_langs = Some ''4'', p_animate = Some ''true'', p_animation = Some ''all'',
       p_duration = Some ''1400'', p_cacheSeconds = Some ''21600'',
       p_includeReport = None, p_fields = None, p_colors = Some [] \<rparr>"

section \<open>Lemmas on strings, lists and search parameters\<close>

lemma trim_Nil [simp]: "trim [] = []"
  by (simp add: trim_def)

lemma trim_id:
  assumes "s \<noteq> []" "\<not> is_space (hd s)" "\<not> is_space (last s)"
  shows "trim s = s"
proof -
  have a: "dropWhile is_space s = s"
    using assms(1,2) by (cases s) simp_all
  have "rev s \<noteq> []" "\<not> is_space (hd (rev s))"
    using assms(1,3) by (simp_all add: hd_rev)
  then have "dropWhile is_space (rev s) = rev s"
    by (cases "rev s") simp_all
  with a show ?thesis by (simp add: trim_def)
qed

lemma trimmed_ends:
  assumes "trim x \<noteq> []"
  shows "\<not> is_space (hd (trim x))" and "\<not> is_space (last (trim x))"
proof -
  define y where "y = dropWhile is_space x"
  define z where "z = dropWhile is_space (rev y)"
  have t: "trim x = rev z"
    by (simp add: trim_def y_def z_def)
  with assms have z: "z \<noteq> []" by simp
  then have "\<not> is_space (hd z)"
    unfolding z_def by (rule hd_dropWhile)
  then show "\<not> is_space (last (trim x))"
    using z by (simp add: t last_rev)
  from z have y: "y \<noteq> []"
    by (auto simp: z_def)
  then have hy: "\<not> is_space (hd y)"
    unfolding y_def by (rule hd_dropWhile)
  obtain pre where "rev y = pre @ z"
    unfolding z_def by (metis takeWhile_dropWhile_id)
  with z have "last z = last (rev y)" by simp
  also have "\<dots> = hd y" using y by (simp add: last_rev)
  finally show "\<not> is_space (hd (trim x))"
    using z hy by (simp add: t hd_rev)
qed

lemma join_ends:
  assumes "xs \<noteq> []" "list_all (\<lambda>x. x \<noteq> []) xs"
  shows "join sep xs \<noteq> [] \<and> hd (join sep xs) = hd (hd xs) \<and> last (join sep xs) = last (last xs)"
  using assms by (induction sep xs rule: join.induct) auto

lemma trim_join_trimmed:
  assumes "list_all (\<lambda>x. x \<noteq> []) xs" and "list_all (\<lambda>x. \<exists>y. x = trim y) xs"
  shows "trim (join sep xs) = join sep xs"
proof (cases xs)
  case Nil
  then show ?thesis by simp
next
  case (Cons a as)
  then have ne: "xs \<noteq> []" by simp
  from join_ends [OF ne assms(1), of sep]
  have j: "join sep xs \<noteq> []" "hd (join sep xs) = hd (hd xs)" "last (join sep xs) = last (last xs)"
    by simp_all
  from ne assms have "hd xs \<noteq> []" "\<exists>y. hd xs = trim y" "last xs \<noteq> []" "\<exists>y. last xs = trim y"
    by (auto simp: list_all_iff)
  then have "\<not> is_space (hd (hd xs))" "\<not> is_space (last (last xs))"
    using trimmed_ends by metis+
  with j show ?thesis by (intro trim_id) simp_all
qed

lemma join_eq_Nil:
  "list_all (\<lambda>x. x \<noteq> []) xs \<Longrightarrow> join sep xs = [] \<longleftrightarrow> xs = []"
  using join_ends [of xs sep] by (cases xs) auto

text \<open>Search parameters: the last value set for a name is the one read.\<close>

lemma params_get_set:
  "params_get (params_set k v ps) k' = (if k' = k then Some v else params_get ps k')"
proof (induction ps)
  case Nil
  show ?case by (simp add: params_get_def)
next
  case (Cons a ps)
  obtain x y where a: "a = (x, y)" by (cases a)
  have f: "k' \<noteq> k \<Longrightarrow> map_of (filter (\<lambda>(n, w). n \<noteq> k) ps) k' = map_of ps k'" for ps :: search_params
    by (induction ps) auto
  show ?case
    using Cons.IH by (auto simp: a params_get_def f)
qed

lemma params_get_entries_other:
  "k' \<notin> fst ` set kvs \<Longrightarrow> params_get (foldl set_entry ps (map Some kvs)) k' = params_get ps k'"
  by (induction kvs arbitrary: ps) (auto simp: set_entry_def params_get_set)

lemma map_fst_map_filter_keys:
  "map fst (List.map_filter (\<lambda>k. map_option (Pair k) (g k)) ks) = filter (\<lambda>k. g k \<noteq> None) ks"
  by (induction ks) (auto split: option.splits)

lemma custom_theme_keys:
  "fst ` set (generatorCustomThemeParams f) \<subseteq> set GENERATOR_THEME_KEYS"
proof -
  have "set (map fst (generatorCustomThemeParams f)) \<subseteq> set GENERATOR_THEME_KEYS"
    unfolding generatorCustomThemeParams_def map_fst_map_filter_keys by auto
  then show ?thesis by simp
qed


lemma map_of_map_filter_keys:
  "map_of (List.map_filter (\<lambda>k. map_option (Pair k) (g k)) ks) k
   = (if k \<in> set ks then g k else None)"
  by (induction ks) (auto simp: List.map_filter_simps split: option.splits)

lemma map_filter_cong_set:
  "(\<And>k. k \<in> set ks \<Longrightarrow> g k = h k) \<Longrightarrow> List.map_filter g ks = List.map_filter h ks"
  by (induction ks) (auto simp: List.map_filter_simps split: option.splits)


section \<open>Evaluation lemmas\<close>

text \<open>Closed instances are evaluated by rewriting with the defining equations.\<close>

lemma floor_numeral_div: "\<lfloor>numeral a / numeral b :: rat\<rfloor> = numeral a div numeral b"
  using floor_divide_of_int_eq [of "numeral a" "numeral b", where ?'a = rat] by simp

lemmas number_eval = Number_def trim_def is_space_def radix_literal_def unsigned_decimal_def
  exponent_part_def is_digit_def digits_val_def digit_val_def to_double_range_def

lemmas string_eval = String_of_def unsigned_string_def digits_of.simps

lemma Number_examples:
  "Number ''-5'' = Fin (- 5)" "Number ''99999'' = Fin 99999" "Number ''abc'' = NaN"
  "Number ''760'' = Fin 760" "Number ''4'' = Fin 4" "Number ''1400'' = Fin 1400"
  "Number ''21600'' = Fin 21600" "Number ''33.333'' = Fin (33333 / 1000)"
  by (simp_all add: number_eval)

lemma clampNumber_width_examples:
  "clampNumber ''-5'' 640 1400 760 = Fin 640"
  "clampNumber ''99999'' 640 1400 760 = Fin 1400"
  "clampNumber ''abc'' 640 1400 760 = Fin 760"
  by (simp_all add: clampNumber_def Number_examples isFinite_def Math_max_def Math_min_def)

lemma clamp_string_examples:
  "clamp_string 640 1400 (Fin (- 5)) = ''640''"
  "clamp_string 640 1400 (Fin 99999) = ''1400''"
  "clamp_string 640 1400 NaN = ''NaN''"
  "clamp_string 640 1400 (Fin 760) = ''760''"
  "clamp_string 350 7000 (Fin 1400) = ''1400''"
  "clamp_string 0 86400 (Fin 21600) = ''21600''"
  "clamp_string 1 10 (Fin 4) = ''4''"
  by (simp_all add: clamp_string_def Math_max_def Math_min_def string_eval)

lemmas export_eval = buildGeneratorPath_def generator_params_def set_entry_def value_or_def
  number_or_def encodeURIComponent_def is_alnum_def percent_encode_def hex2_def
  params_toString_def form_encode_def generatorCustomThemeParams_def trim_def is_space_def Let_def

section \<open>Properties of the trend chart\<close>

subsection \<open>Evaluation\<close>

lemma floor_minus_numeral_div:
  "\<lfloor>- (numeral a / numeral b) :: rat\<rfloor> = (- numeral a) div numeral b"
proof -
  have "\<lfloor>of_int (- numeral a) / of_int (numeral b) :: rat\<rfloor> = (- numeral a) div numeral b"
    by (rule floor_divide_of_int_eq)
  then show ?thesis by simp
qed

lemma two_powi:
  "(2::rat) powi e = (if 0 \<le> e then 2 ^ nat e else 1 / 2 ^ nat (- e))"
  by (simp add: power_int_def power_one_over inverse_eq_divide)

lemmas double_eval = fl_def overflow_bound_def round_double_def ulp_def expo_def expo_up.simps expo_down.simps round_even_def
  two_powi Let_def floor_numeral_div floor_minus_numeral_div


lemma sample_doubles:
  "fl (1736 / 10) = Fin (6108006994621235 / 2 ^ 45)"
  "fl next_above_50 = Fin next_above_50"
  "fl (514 / 5) = Fin (7233906901463859 / 2 ^ 46)"
  by (simp_all add: double_eval next_above_50_def)

lemmas chart_eval = trend_y_def trend_x_def d_sub_def d_neg_def Math_max_def

lemma trend_y_samples:
  "trend_y (Fin 40) = Fin (6108006994621235 / 2 ^ 45)"
  "trend_y (Fin 70) = Fin (3616953450731930 / 2 ^ 45)"
  "trend_y (Fin 55) = Fin (4862480222676582 / 2 ^ 45)"
  "trend_y (Fin 50) = Fin 150"
  "trend_y (Fin next_above_50) = Fin 150"
  by (simp_all add: chart_eval double_eval next_above_50_def)


subsection \<open>Powers of two and the exponent\<close>

lemma two_powi_pos: "0 < (2::rat) powi k"
  by (simp add: zero_less_power_int)

lemma two_powi_Suc: "(2::rat) powi (k + 1) = 2 * 2 powi k"
  by (simp add: power_int_add)

lemma two_powi_mono: "a \<le> b \<Longrightarrow> (2::rat) powi a \<le> 2 powi b"
  by (rule power_int_increasing) simp_all

lemma two_powi_less: "(2::rat) powi a < 2 powi b \<Longrightarrow> a < b"
  using two_powi_mono [of b a] by (cases "a < b") simp_all

lemma expo_up_bounds:
  "1 \<le> x \<Longrightarrow> 2 powi (expo_up x e - e) \<le> x \<and> x < 2 powi (expo_up x e - e + 1)"
proof (induction x e rule: expo_up.induct)
  case (1 x e)
  show ?case
  proof (cases "2 \<le> x")
    case True
    then have h: "1 \<le> x / 2" by simp
    have r: "expo_up x e = expo_up (x / 2) (e + 1)"
      using True by (subst expo_up.simps) simp
    from "1.IH" [OF True h]
    have "2 powi (expo_up x e - e - 1) \<le> x / 2" and "x / 2 < 2 powi (expo_up x e - e - 1 + 1)"
      by (simp_all add: r algebra_simps)
    then show ?thesis
      using two_powi_Suc [of "expo_up x e - e - 1"] two_powi_Suc [of "expo_up x e - e"]
      by simp
  next
    case False
    then have "expo_up x e = e"
      by (subst expo_up.simps) simp
    with False "1.prems" show ?thesis by simp
  qed
qed

lemma expo_down_bounds:
  "0 < x \<Longrightarrow> x < 2 \<Longrightarrow>
   2 powi (expo_down x e - e) \<le> x \<and> x < 2 powi (expo_down x e - e + 1)"
proof (induction x e rule: expo_down.induct)
  case (1 x e)
  show ?case
  proof (cases "x < 1")
    case True
    with "1.prems" have c: "0 < x \<and> x < 1" by simp
    have r: "expo_down x e = expo_down (2 * x) (e - 1)"
      using c by (subst expo_down.simps) simp
    from c have "0 < 2 * x" "2 * x < 2" by simp_all
    from "1.IH" [OF c this]
    have "2 powi (expo_down x e - e + 1) \<le> 2 * x" and "2 * x < 2 powi (expo_down x e - e + 1 + 1)"
      by (simp_all add: r algebra_simps)
    then show ?thesis
      using two_powi_Suc [of "expo_down x e - e"] two_powi_Suc [of "expo_down x e - e + 1"]
      by simp
  next
    case False
    then have "expo_down x e = e"
      by (subst expo_down.simps) simp
    with False "1.prems" show ?thesis by simp
  qed
qed

lemma expo_bounds:
  assumes "0 < x"
  shows "2 powi (expo x) \<le> x" and "x < 2 powi (expo x + 1)"
proof -
  have "2 powi (expo x) \<le> x \<and> x < 2 powi (expo x + 1)"
  proof (cases "1 \<le> x")
    case True
    with expo_up_bounds [OF True, of 0] show ?thesis by (simp add: expo_def)
  next
    case False
    with expo_down_bounds [OF assms, of 0] show ?thesis by (simp add: expo_def)
  qed
  then show "2 powi (expo x) \<le> x" and "x < 2 powi (expo x + 1)" by simp_all
qed

lemma expo_less:
  assumes "0 < x" and "x < 2 powi k"
  shows "expo x < k"
proof -
  from expo_bounds(1) [OF assms(1)] assms(2) have "(2::rat) powi (expo x) < 2 powi k"
    by simp
  then show ?thesis by (rule two_powi_less)
qed

lemma expo_ge:
  assumes "2 powi k \<le> x"
  shows "k \<le> expo x"
proof -
  have "0 < x" using two_powi_pos assms by (rule less_le_trans)
  from expo_bounds(2) [OF this] assms have "(2::rat) powi k < 2 powi (expo x + 1)"
    by simp
  then have "k < expo x + 1" by (rule two_powi_less)
  then show ?thesis by simp
qed

lemma expo_mono:
  assumes "0 < x" and "x \<le> y"
  shows "expo x \<le> expo y"
proof -
  from expo_bounds(1) [OF assms(1)] assms(2) have "2 powi (expo x) \<le> y" by simp
  then show ?thesis by (rule expo_ge)
qed

subsection \<open>Rounding\<close>

lemma round_even_of_int [simp]: "round_even (of_int n) = n"
  by (simp add: round_even_def)

lemma round_even_cases:
  "round_even q = \<lfloor>q\<rfloor> \<or> round_even q = \<lfloor>q\<rfloor> + 1"
  by (simp add: round_even_def Let_def)

lemma round_even_mono:
  assumes "q \<le> q'"
  shows "round_even q \<le> round_even q'"
proof (cases "\<lfloor>q\<rfloor> = \<lfloor>q'\<rfloor>")
  case True
  with assms show ?thesis
    by (simp add: round_even_def Let_def)
next
  case False
  with assms have "\<lfloor>q\<rfloor> < \<lfloor>q'\<rfloor>"
    using floor_mono [OF assms] by simp
  moreover have "round_even q \<le> \<lfloor>q\<rfloor> + 1"
    using round_even_cases [of q] by auto
  moreover have "\<lfloor>q'\<rfloor> \<le> round_even q'"
    using round_even_cases [of q'] by auto
  ultimately show ?thesis by simp
qed

lemma round_even_error: "\<bar>of_int (round_even q) - q\<bar> \<le> 1 / 2"
proof -
  have "of_int \<lfloor>q\<rfloor> \<le> q" "q < of_int \<lfloor>q\<rfloor> + 1"
    by linarith+
  then show ?thesis
    by (auto simp: round_even_def Let_def abs_le_iff)
qed

lemma round_even_minus: "round_even (- q) = - round_even q"
proof (cases "q = of_int \<lfloor>q\<rfloor>")
  case True
  then obtain n where "q = of_int n" ..
  then have "round_even (- q) = round_even (of_int (- n))" by simp
  also have "\<dots> = - n" by (rule round_even_of_int)
  finally show ?thesis using \<open>q = of_int n\<close> by simp
next
  case False
  then have f: "\<lfloor>- q\<rfloor> = - \<lfloor>q\<rfloor> - 1"
    by (metis ceiling_def ceiling_altdef add_uminus_conv_diff minus_add_distrib minus_minus)
  have b: "of_int \<lfloor>q\<rfloor> < q" "q < of_int \<lfloor>q\<rfloor> + 1"
    using False by linarith+
  show ?thesis
    unfolding round_even_def Let_def f using b by (auto simp: field_simps)
qed


lemma two_powi_add: "(2::rat) powi (m + n) = 2 powi m * 2 powi n"
  by (simp add: power_int_add)

lemma ulp_pos: "0 < ulp x"
  by (simp add: ulp_def two_powi_pos)

lemma ulp_minus: "ulp (- x) = ulp x"
  by (simp add: ulp_def)

lemma rnd_minus: "round_double (- x) = - round_double x"
  by (simp add: round_double_def ulp_minus round_even_minus)

lemma rnd_zero: "round_double 0 = 0"
  using round_even_of_int [of 0] by (simp add: round_double_def)

lemma scaled_round_le:
  assumes "0 < u" and "x \<le> of_int n * u"
  shows "of_int (round_even (x / u)) * u \<le> of_int n * u"
proof -
  from assms have "x / u \<le> of_int n"
    by (simp add: pos_divide_le_eq)
  from round_even_mono [OF this] have "round_even (x / u) \<le> n" by simp
  then have "(of_int (round_even (x / u)) :: rat) \<le> of_int n" by simp
  with assms(1) show ?thesis by (simp add: mult_right_mono)
qed

lemma scaled_round_ge:
  assumes "0 < u" and "of_int n * u \<le> x"
  shows "of_int n * u \<le> of_int (round_even (x / u)) * u"
proof -
  from assms have "of_int n \<le> x / u"
    by (simp add: pos_le_divide_eq)
  from round_even_mono [OF this] have "n \<le> round_even (x / u)" by simp
  then have "(of_int n :: rat) \<le> of_int (round_even (x / u))" by simp
  with assms(1) show ?thesis by (simp add: mult_right_mono)
qed

lemma rnd_nonneg:
  assumes "0 \<le> x"
  shows "0 \<le> round_double x"
  using scaled_round_ge [OF ulp_pos, of 0 x x] assms by (simp add: round_double_def)

lemma binade_top: "of_int (2 ^ 53) * 2 powi (a - 52) = (2::rat) powi (a + 1)"
proof -
  have "(2::rat) powi (a + 1) = 2 powi 53 * 2 powi (a - 52)"
    using two_powi_add [of 53 "a - 52"] by (simp add: add.commute)
  moreover have "(2::rat) powi 53 = of_int (2 ^ 53)"
    by (simp add: two_powi)
  ultimately show ?thesis by simp
qed

lemma binade_bottom: "of_int (2 ^ 52) * 2 powi (a - 52) = (2::rat) powi a"
proof -
  have "(2::rat) powi a = 2 powi 52 * 2 powi (a - 52)"
    using two_powi_add [of 52 "a - 52"] by simp
  moreover have "(2::rat) powi 52 = of_int (2 ^ 52)"
    by (simp add: two_powi)
  ultimately show ?thesis by simp
qed

lemma rnd_mono_pos:
  assumes "0 < x" and "x \<le> y"
  shows "round_double x \<le> round_double y"
proof -
  define a where "a = max (expo x) (- 1022)"
  define b where "b = max (expo y) (- 1022)"
  from assms have y: "0 < y" by simp
  have ux: "ulp x = 2 powi (a - 52)"
    using assms(1) by (simp add: ulp_def a_def)
  have uy: "ulp y = 2 powi (b - 52)"
    using y by (simp add: ulp_def b_def)
  have ab: "a \<le> b"
    using expo_mono [OF assms] by (simp add: a_def b_def)
  show ?thesis
  proof (cases "a = b")
    case True
    then have u: "ulp y = ulp x" by (simp add: ux uy)
    from assms(2) have "x / ulp x \<le> y / ulp x"
      using ulp_pos [of x] by (simp add: divide_right_mono)
    from round_even_mono [OF this]
    have "(of_int (round_even (x / ulp x)) :: rat) \<le> of_int (round_even (y / ulp x))"
      by simp
    then show ?thesis
      using ulp_pos [of x] by (simp add: round_double_def u mult_right_mono)
  next
    case False
    with ab have lt: "a < b" by simp
    then have bexp: "b = expo y" unfolding a_def b_def by linarith
    have "x < 2 powi (expo x + 1)"
      using assms(1) by (rule expo_bounds)
    also have "\<dots> \<le> 2 powi (a + 1)"
      by (rule two_powi_mono) (simp add: a_def)
    finally have "x \<le> of_int (2 ^ 53) * 2 powi (a - 52)"
      by (simp only: binade_top)
    from scaled_round_le [OF two_powi_pos this]
    have "round_double x \<le> 2 powi (a + 1)"
      by (simp only: round_double_def ux binade_top)
    also have "\<dots> \<le> 2 powi b"
      using lt by (intro two_powi_mono) simp
    also have "\<dots> \<le> round_double y"
    proof -
      have "2 powi b \<le> y"
        unfolding bexp using y by (rule expo_bounds)
      then have "of_int (2 ^ 52) * 2 powi (b - 52) \<le> y"
        by (simp only: binade_bottom)
      from scaled_round_ge [OF two_powi_pos this]
      show ?thesis
        by (simp only: round_double_def uy binade_bottom)
    qed
    finally show ?thesis .
  qed
qed

lemma rnd_mono:
  assumes "x \<le> y"
  shows "round_double x \<le> round_double y"
proof -
  consider "0 < x" | "x \<le> 0" "0 \<le> y" | "y < 0" by linarith
  then show ?thesis
  proof cases
    case 1
    then show ?thesis using assms by (rule rnd_mono_pos)
  next
    case 2
    from 2(1) have "0 \<le> round_double (- x)" by (intro rnd_nonneg) simp
    then have "round_double x \<le> 0" by (simp add: rnd_minus)
    also have "0 \<le> round_double y" using 2(2) by (rule rnd_nonneg)
    finally show ?thesis .
  next
    case 3
    then have "0 < - y" and "- y \<le> - x" using assms by simp_all
    from rnd_mono_pos [OF this] show ?thesis by (simp add: rnd_minus)
  qed
qed

lemma rnd_error: "\<bar>round_double x - x\<bar> \<le> ulp x / 2"
proof -
  have "round_double x - x = (of_int (round_even (x / ulp x)) - x / ulp x) * ulp x"
    using ulp_pos [of x] by (simp add: round_double_def algebra_simps)
  then have "\<bar>round_double x - x\<bar> = \<bar>of_int (round_even (x / ulp x)) - x / ulp x\<bar> * ulp x"
    using ulp_pos [of x] by (simp add: abs_mult)
  also have "\<dots> \<le> 1 / 2 * ulp x"
    using round_even_error [of "x / ulp x"] ulp_pos [of x] by (intro mult_right_mono) simp_all
  finally show ?thesis by simp
qed

lemma rnd_error_bound:
  assumes "\<bar>x\<bar> < 2 powi k" and "- 1022 < k"
  shows "\<bar>round_double x - x\<bar> \<le> 2 powi (k - 54)"
proof (cases "x = 0")
  case True
  then show ?thesis
    using two_powi_pos [of "k - 54"] by (simp add: rnd_zero)
next
  case False
  then have "0 < \<bar>x\<bar>" by simp
  from expo_less [OF this assms(1)] assms(2)
  have "max (expo \<bar>x\<bar>) (- 1022) - 52 \<le> k - 53" by simp
  then have "ulp x \<le> 2 powi (k - 53)"
    unfolding ulp_def by (rule two_powi_mono)
  moreover have "(2::rat) powi (k - 53) = 2 * 2 powi (k - 54)"
    using two_powi_Suc [of "k - 54"] by simp
  ultimately show ?thesis
    using rnd_error [of x] by simp
qed

lemma fl_not_NaN [simp]: "fl x \<noteq> NaN"
  by (simp add: fl_def Let_def)

lemma fl_ordered:
  assumes "x \<le> y"
  shows "ordered (fl x) (fl y)"
  using rnd_mono [OF assms] by (auto simp: ordered_def fl_def Let_def overflow_bound_def)

lemma fl_accurate:
  assumes "\<bar>x\<bar> < 2 powi k" and "- 1022 < k" and "k \<le> 1023"
  shows "\<exists>r. fl x = Fin r \<and> \<bar>r - x\<bar> \<le> 2 powi (k - 54)"
proof -
  from rnd_error_bound [OF assms(1,2)] have e: "\<bar>round_double x - x\<bar> \<le> 2 powi (k - 54)" .
  have "(2::rat) powi (k - 54) \<le> 2 powi k"
    by (rule two_powi_mono) simp
  with e assms(1) have "\<bar>round_double x\<bar> < 2 powi k + 2 powi k" by linarith
  also have "\<dots> = 2 powi (k + 1)"
    by (simp add: two_powi_Suc)
  also have "\<dots> \<le> 2 powi 1024"
    using assms(3) by (intro two_powi_mono) simp
  also have "\<dots> = overflow_bound"
    by (simp add: overflow_bound_def two_powi)
  finally have "\<bar>round_double x\<bar> < overflow_bound" .
  then have "fl x = Fin (round_double x)"
    by (simp add: fl_def Let_def abs_less_iff)
  with e show ?thesis by simp
qed


subsection \<open>Order through the operations\<close>

lemma ordered_fl_PosInf [simp]: "ordered (fl x) PosInf"
  by (cases "fl x") (simp_all add: ordered_def)

lemma ordered_NegInf_fl [simp]: "ordered NegInf (fl x)"
  by (simp add: ordered_def)

lemma add_const_ordered:
  assumes "ordered a b"
  shows "ordered (d_add a (Fin c)) (d_add b (Fin c))"
proof (cases a; cases b)
  fix x y assume "a = Fin x" "b = Fin y"
  with assms show ?thesis
    by (simp add: fl_ordered ordered_def [of "Fin x"])
qed (use assms in \<open>simp_all add: ordered_def [of NaN] ordered_def [of _ NaN] ordered_def [of PosInf]
   ordered_def [of _ NegInf]\<close>)


lemma mul_pos_ordered:
  assumes "ordered a b" and "0 < c"
  shows "ordered (d_mul a (Fin c)) (d_mul b (Fin c))"
proof (cases a; cases b)
  fix x y assume "a = Fin x" "b = Fin y"
  with assms show ?thesis
    by (simp add: fl_ordered ordered_def [of "Fin x"] mult_right_mono)
qed (use assms in \<open>simp_all add: ordered_def [of NaN] ordered_def [of _ NaN] ordered_def [of PosInf]
   ordered_def [of _ NegInf] js_zero_def js_pos_def\<close>)

lemma div_pos_ordered:
  assumes "ordered a b" and "0 < c"
  shows "ordered (d_div a (Fin c)) (d_div b (Fin c))"
proof (cases a; cases b)
  fix x y assume "a = Fin x" "b = Fin y"
  with assms show ?thesis
    by (simp add: fl_ordered ordered_def [of "Fin x"] divide_right_mono)
qed (use assms in \<open>simp_all add: ordered_def [of NaN] ordered_def [of _ NaN] ordered_def [of PosInf]
   ordered_def [of _ NegInf] js_pos_def\<close>)

lemma sub_from_ordered:
  assumes "ordered a b"
  shows "ordered (d_sub (Fin c) b) (d_sub (Fin c) a)"
proof (cases a; cases b)
  fix x y assume "a = Fin x" "b = Fin y"
  with assms show ?thesis
    by (simp add: fl_ordered ordered_def [of "Fin x"] d_sub_def d_neg_def)
qed (use assms in \<open>simp_all add: ordered_def [of NaN] ordered_def [of _ NaN] ordered_def [of PosInf]
   ordered_def [of _ NegInf] d_sub_def d_neg_def\<close>)

subsection \<open>The y coordinate\<close>

lemma chart_constants:
  "d_sub (Fin 300) (Fin 32) = Fin 268"
  "d_sub (Fin 300) (d_mul (Fin 32) (Fin 2)) = Fin 236"
  "d_sub (Fin 100) (Fin 0) = Fin 100"
  "d_add (Fin 100) (Fin 0) = Fin 100"
  "d_sub (Fin 1020) (d_mul (Fin 42) (Fin 2)) = Fin 936"
  "d_mul (Fin 0) (Fin 936) = Fin 0"
  "d_add (Fin 42) (Fin 0) = Fin 42"
  "fl 0 = Fin 0" "fl 1 = Fin 1"
  by (simp_all add: d_sub_def d_neg_def double_eval)

lemma sub_zero: "d_sub s (Fin 0) = d_add s (Fin 0)"
  by (simp add: d_sub_def d_neg_def)

lemma trend_y_stages:
  "trend_y s = d_sub (Fin 268) (d_div (d_mul (d_add s (Fin 0)) (Fin 236)) (Fin 100))"
  by (simp only: trend_y_def chart_constants sub_zero)

lemma trend_y_ordered:
  assumes "ordered a b"
  shows "ordered (trend_y b) (trend_y a)"
  unfolding trend_y_stages
  by (intro sub_from_ordered div_pos_ordered mul_pos_ordered add_const_ordered assms) simp_all

lemma rounding_units:
  "(2::rat) powi (7 - 54) = 1 / 140737488355328"
  "(2::rat) powi (15 - 54) = 1 / 549755813888"
  "(2::rat) powi (8 - 54) = 1 / 70368744177664"
  "(2::rat) powi (9 - 54) = 1 / 35184372088832"
  "(2::rat) powi 7 = 128" "(2::rat) powi 15 = 32768" "(2::rat) powi 8 = 256" "(2::rat) powi 9 = 512"
  by (simp_all add: two_powi)

lemma trend_y_accurate:
  assumes "0 \<le> s" and "s \<le> 100"
  shows "\<exists>y. trend_y (Fin s) = Fin y \<and> \<bar>y - (300 - 32 - s * (300 - 2 * 32) / 100)\<bar> \<le> 1 / 10 ^ 13"
proof -
  have "\<bar>s\<bar> < 2 powi 7"
    using assms unfolding rounding_units by linarith
  from fl_accurate [OF this] obtain s1 where
    s1: "fl s = Fin s1" and e1: "\<bar>s1 - s\<bar> \<le> 1 / 140737488355328"
    unfolding rounding_units by auto
  from e1 assms have b1: "\<bar>s1\<bar> \<le> 101"
    by linarith
  then have "\<bar>s1 * 236\<bar> < 2 powi 15"
    unfolding rounding_units by linarith
  from fl_accurate [OF this] obtain s2 where
    s2: "fl (s1 * 236) = Fin s2" and e2: "\<bar>s2 - s1 * 236\<bar> \<le> 1 / 549755813888"
    unfolding rounding_units by auto
  from e2 b1 have b2: "\<bar>s2\<bar> \<le> 23837"
    by linarith
  then have "\<bar>s2 / 100\<bar> < 2 powi 8"
    unfolding rounding_units by linarith
  from fl_accurate [OF this] obtain s3 where
    s3: "fl (s2 / 100) = Fin s3" and e3: "\<bar>s3 - s2 / 100\<bar> \<le> 1 / 70368744177664"
    unfolding rounding_units by auto
  from e3 b2 have b3: "\<bar>s3\<bar> \<le> 239"
    by linarith
  then have "\<bar>268 - s3\<bar> < 2 powi 9"
    unfolding rounding_units by linarith
  from fl_accurate [OF this] obtain y where
    y: "fl (268 - s3) = Fin y" and e4: "\<bar>y - (268 - s3)\<bar> \<le> 1 / 35184372088832"
    unfolding rounding_units by auto
  have "trend_y (Fin s) = Fin y"
    by (simp add: trend_y_stages s1 s2 s3 d_sub_def d_neg_def y)
  moreover have "\<bar>y - (300 - 32 - s * (300 - 2 * 32) / 100)\<bar> \<le> 1 / 10 ^ 13"
  proof -
    have "\<bar>y - (268 - s * 236 / 100)\<bar> \<le> 1 / 10000000000000"
      using e1 e2 e3 e4 by linarith
    then show ?thesis by simp
  qed
  ultimately show ?thesis by blast
qed


lemma trend_y_strict:
  assumes "0 \<le> a" and "a + 1 / 10 ^ 12 \<le> b" and "b \<le> 100"
  shows "\<exists>ya yb. trend_y (Fin a) = Fin ya \<and> trend_y (Fin b) = Fin yb \<and> yb < ya"
proof -
  from assms have a: "0 \<le> a" "a \<le> 100" and b: "0 \<le> b" "b \<le> 100"
    by simp_all
  from trend_y_accurate [OF a] obtain ya where
    ya: "trend_y (Fin a) = Fin ya" "\<bar>ya - (268 - a * 236 / 100)\<bar> \<le> 1 / 10000000000000"
    by auto
  from trend_y_accurate [OF b] obtain yb where
    yb: "trend_y (Fin b) = Fin yb" "\<bar>yb - (268 - b * 236 / 100)\<bar> \<le> 1 / 10000000000000"
    by auto
  from assms(2) have "a + 1 / 1000000000000 \<le> b" by simp
  with ya(2) yb(2) have "yb < ya" by linarith
  with ya(1) yb(1) show ?thesis by blast
qed

subsection \<open>The x coordinate of the first sample\<close>

lemma trend_x_first:
  assumes "2 \<le> n"
  shows "trend_x n 0 = Fin 42"
proof -
  from assms have "(1::rat) \<le> of_nat n - 1" by simp
  from fl_ordered [OF this] have o: "ordered (Fin 1) (fl (of_nat n - 1))"
    by (simp add: chart_constants)
  have "d_div (Fin 0) (Math_max (fl (of_nat n - 1)) (Fin 1)) = Fin 0"
  proof (cases "fl (of_nat n - 1)")
    case (Fin r)
    with o have "1 \<le> r" by (simp add: ordered_def)
    then show ?thesis
      by (simp add: Fin Math_max_def chart_constants)
  qed (use o in \<open>simp_all add: Math_max_def ordered_def\<close>)
  moreover have "d_sub (Fin (of_nat n)) (Fin 1) = fl (of_nat n - 1)"
    by (simp add: d_sub_def d_neg_def)
  ultimately show ?thesis
    by (simp only: trend_x_def chart_constants of_nat_0)
qed

lemma trend_points_nth:
  assumes "i < length h"
  shows "map (\<lambda>(index, item). trend_point n index item) (zip [0 ..< length h] h) ! i
         = trend_point n i (h ! i)"
  using assms by simp

lemma buildSmoothPath_prefix:
  "pts \<noteq> [] \<Longrightarrow>
   prefix (''M '' @ shw (pt_x (pts ! 0)) @ '' '' @ shw (pt_y (pts ! 0))) (buildSmoothPath shw pts)"
  by (cases pts) (simp_all add: prefix_def)

text \<open>
  Claim C7, as amended. For every history of at least two samples the chart is drawn,
  and the y coordinate of a sample is \<open>300 - 32 - score_total * (300 - 2 * 32) / 100\<close>
  computed in double precision, each operation rounded: for a score from 0 to 100 it
  lies within \<open>10^-13\<close> of the exact value, and a score of 40 lies at the double
  nearest to 173.6. The map is inverted: a larger score never has a larger y, and
  between scores from 0 to 100 that are at least \<open>10^-12\<close> apart the y is strictly
  smaller. The line path starts with \<open>M x0 y0\<close>, the coordinates of the first sample
  as the host prints them, and \<open>x0\<close> is the left padding 42.
\<close>

theorem trend_chart_rounded_inverted_map:
  assumes "2 \<le> length history"
  shows "\<exists>ch. renderTrendChart shw history = Some ch
     \<and> length (points ch) = length history
     \<and> (\<forall>i < length history. pt_y (points ch ! i) = trend_y (score_of (history ! i)))
     \<and> (\<forall>i < length history. \<forall>s.
           score_of (history ! i) = Fin s \<and> 0 \<le> s \<and> s \<le> 100 \<longrightarrow>
           (\<exists>y. pt_y (points ch ! i) = Fin y
                \<and> \<bar>y - (300 - 32 - s * (300 - 2 * 32) / 100)\<bar> \<le> 1 / 10 ^ 13))
     \<and> (\<forall>i < length history.
           score_of (history ! i) = Fin 40 \<longrightarrow> pt_y (points ch ! i) = fl (1736 / 10))
     \<and> (\<forall>i < length history. \<forall>j < length history.
           ordered (score_of (history ! i)) (score_of (history ! j)) \<longrightarrow>
           ordered (pt_y (points ch ! j)) (pt_y (points ch ! i)))
     \<and> (\<forall>i < length history. \<forall>j < length history. \<forall>a b.
           score_of (history ! i) = Fin a \<and> score_of (history ! j) = Fin b
           \<and> 0 \<le> a \<and> a + 1 / 10 ^ 12 \<le> b \<and> b \<le> 100 \<longrightarrow>
           (\<exists>ya yb. pt_y (points ch ! i) = Fin ya \<and> pt_y (points ch ! j) = Fin yb \<and> yb < ya))
     \<and> prefix (''M '' @ shw (pt_x (points ch ! 0)) @ '' '' @ shw (pt_y (points ch ! 0)))
               (linePath ch)
     \<and> pt_x (points ch ! 0) = Fin 42"
proof -
  define pts where
    "pts = map (\<lambda>(index, item). trend_point (length history) index item)
               (zip [0 ..< length history] history)"
  have len: "length pts = length history"
    by (simp add: pts_def)
  have nth: "pts ! i = trend_point (length history) i (history ! i)" if "i < length history" for i
    using that unfolding pts_def by (rule trend_points_nth)
  have ne: "pts \<noteq> []"
    using assms len by auto
  obtain ch where ch: "renderTrendChart shw history = Some ch"
    and p: "points ch = pts" and l: "linePath ch = buildSmoothPath shw pts"
    using assms by (simp add: renderTrendChart_def Let_def pts_def)
  have y: "pt_y (points ch ! i) = trend_y (score_of (history ! i))"
    if "i < length history" for i
    using that by (simp add: p nth trend_point_def)
  have acc: "\<exists>y. pt_y (points ch ! i) = Fin y
                \<and> \<bar>y - (300 - 32 - s * (300 - 2 * 32) / 100)\<bar> \<le> 1 / 10 ^ 13"
    if "i < length history" "score_of (history ! i) = Fin s \<and> 0 \<le> s \<and> s \<le> 100" for i s
    using that trend_y_accurate [of s] by (simp add: y)
  have y40: "pt_y (points ch ! i) = fl (1736 / 10)"
    if "i < length history" "score_of (history ! i) = Fin 40" for i
    using that(2) by (simp only: y [OF that(1)] trend_y_samples(1) sample_doubles(1))
  have mono: "ordered (pt_y (points ch ! j)) (pt_y (points ch ! i))"
    if "i < length history" "j < length history"
      "ordered (score_of (history ! i)) (score_of (history ! j))" for i j
    using that by (simp add: y trend_y_ordered)
  have strict: "\<exists>ya yb. pt_y (points ch ! i) = Fin ya \<and> pt_y (points ch ! j) = Fin yb \<and> yb < ya"
    if "i < length history" "j < length history"
      "score_of (history ! i) = Fin a \<and> score_of (history ! j) = Fin b
           \<and> 0 \<le> a \<and> a + 1 / 10 ^ 12 \<le> b \<and> b \<le> 100" for i j a b
    using that trend_y_strict [of a b] by (simp add: y)
  have pre: "prefix (''M '' @ shw (pt_x (points ch ! 0)) @ '' '' @ shw (pt_y (points ch ! 0)))
               (linePath ch)"
    unfolding p l using ne by (rule buildSmoothPath_prefix)
  have x0: "pt_x (points ch ! 0) = Fin 42"
  proof -
    have "0 < length history" using assms by linarith
    from nth [OF this] trend_x_first [OF assms] show ?thesis
      by (simp add: p trend_point_def)
  qed
  show ?thesis
  proof (intro exI [of _ ch] conjI allI impI)
    show "renderTrendChart shw history = Some ch" by (fact ch)
    show "length (points ch) = length history" by (simp add: p len)
    show "pt_y (points ch ! i) = trend_y (score_of (history ! i))" if "i < length history" for i
      using that by (rule y)
    show "\<exists>y. pt_y (points ch ! i) = Fin y
                \<and> \<bar>y - (300 - 32 - s * (300 - 2 * 32) / 100)\<bar> \<le> 1 / 10 ^ 13"
      if "i < length history" "score_of (history ! i) = Fin s \<and> 0 \<le> s \<and> s \<le> 100" for i s
      using that by (rule acc)
    show "pt_y (points ch ! i) = fl (1736 / 10)"
      if "i < length history" "score_of (history ! i) = Fin 40" for i
      using that by (rule y40)
    show "ordered (pt_y (points ch ! j)) (pt_y (points ch ! i))"
      if "i < length history" "j < length history"
        "ordered (score_of (history ! i)) (score_of (history ! j))" for i j
      using that by (rule mono)
    show "\<exists>ya yb. pt_y (points ch ! i) = Fin ya \<and> pt_y (points ch ! j) = Fin yb \<and> yb < ya"
      if "i < length history" "j < length history"
        "score_of (history ! i) = Fin a \<and> score_of (history ! j) = Fin b
           \<and> 0 \<le> a \<and> a + 1 / 10 ^ 12 \<le> b \<and> b \<le> 100" for i j a b
      using that by (rule strict)
    show "prefix (''M '' @ shw (pt_x (points ch ! 0)) @ '' '' @ shw (pt_y (points ch ! 0)))
               (linePath ch)"
      by (fact pre)
    show "pt_x (points ch ! 0) = Fin 42" by (fact x0)
  qed
qed

text \<open>The scenario of the specification: scores 40, 70, 55.\<close>

theorem trend_chart_rounded_witness:
  "2 \<le> length sample_history
   \<and> (\<forall>shw. \<exists>ch. renderTrendChart shw sample_history = Some ch
        \<and> map pt_y (points ch)
          = [Fin (6108006994621235 / 2 ^ 45), Fin (3616953450731930 / 2 ^ 45),
             Fin (4862480222676582 / 2 ^ 45)]
        \<and> prefix (''M '' @ shw (Fin 42) @ '' '' @ shw (fl (1736 / 10))) (linePath ch))"
proof -
  have len: "2 \<le> length sample_history"
    by (simp add: sample_history_def)
  have "\<exists>ch. renderTrendChart shw sample_history = Some ch
        \<and> map pt_y (points ch)
          = [Fin (6108006994621235 / 2 ^ 45), Fin (3616953450731930 / 2 ^ 45),
             Fin (4862480222676582 / 2 ^ 45)]
        \<and> prefix (''M '' @ shw (Fin 42) @ '' '' @ shw (fl (1736 / 10))) (linePath ch)" for shw
  proof -
    from trend_chart_rounded_inverted_map [OF len, of shw]
    obtain ch where ch: "renderTrendChart shw sample_history = Some ch"
      and n: "length (points ch) = length sample_history"
      and y: "\<forall>i < length sample_history.
             pt_y (points ch ! i) = trend_y (score_of (sample_history ! i))"
      and y40: "\<forall>i < length sample_history.
             score_of (sample_history ! i) = Fin 40 \<longrightarrow> pt_y (points ch ! i) = fl (1736 / 10)"
      and pre: "prefix (''M '' @ shw (pt_x (points ch ! 0)) @ '' '' @ shw (pt_y (points ch ! 0)))
                  (linePath ch)"
      and x0: "pt_x (points ch ! 0) = Fin 42"
      by (elim exE conjE)
    have n3: "length (points ch) = 3"
      using n by (simp add: sample_history_def)
    have y0: "pt_y (points ch ! 0) = Fin (6108006994621235 / 2 ^ 45)"
      and y1: "pt_y (points ch ! Suc 0) = Fin (3616953450731930 / 2 ^ 45)"
      and y2: "pt_y (points ch ! Suc (Suc 0)) = Fin (4862480222676582 / 2 ^ 45)"
      using y by (simp_all add: sample_history_def score_of_def trend_y_samples)
    have ys: "map pt_y (points ch)
          = [Fin (6108006994621235 / 2 ^ 45), Fin (3616953450731930 / 2 ^ 45),
             Fin (4862480222676582 / 2 ^ 45)]"
      using n3 y0 y1 y2
      by (simp add: list_eq_iff_nth_eq less_Suc_eq numeral_3_eq_3 all_conj_distrib)
    have "pt_y (points ch ! 0) = fl (1736 / 10)"
      using y40 by (simp add: sample_history_def score_of_def)
    with pre x0 have pp: "prefix (''M '' @ shw (Fin 42) @ '' '' @ shw (fl (1736 / 10))) (linePath ch)"
      by simp
    show ?thesis
      by (intro conjI exI [of _ ch]) (fact ch, fact ys, fact pp)
  qed
  with len show ?thesis by blast
qed

text \<open>
  Claim C7 as stated fails in double precision. The scores 50 and the next double
  above 50 are drawn at the same height 150, so the y is not strictly decreasing; and
  the y of the score 70 is not the double nearest to \<open>300 - 32 - 70 * 236 / 100\<close>, it
  is the next double above it.
\<close>

theorem neighbouring_scores_share_y:
  "fl 50 = Fin 50 \<and> fl next_above_50 = Fin next_above_50 \<and> 50 < next_above_50
   \<and> (\<forall>shw. \<exists>ch. renderTrendChart shw close_history = Some ch
         \<and> map pt_y (points ch) = [Fin 150, Fin 150])
   \<and> trend_y (Fin 70) = Fin (3616953450731930 / 2 ^ 45)
   \<and> fl (300 - 32 - 70 * (300 - 2 * 32) / 100) = Fin (7233906901463859 / 2 ^ 46)
   \<and> (3616953450731930 / 2 ^ 45 :: rat) \<noteq> 7233906901463859 / 2 ^ 46"
proof -
  have a: "fl 50 = Fin 50" "fl next_above_50 = Fin next_above_50" "50 < next_above_50"
    by (simp_all add: double_eval next_above_50_def)
  have b: "\<exists>ch. renderTrendChart shw close_history = Some ch
         \<and> map pt_y (points ch) = [Fin 150, Fin 150]" for shw
    by (simp add: renderTrendChart_def close_history_def Let_def trend_point_def score_of_def
          trend_y_samples)
  have c: "fl (300 - 32 - 70 * (300 - 2 * 32) / 100) = Fin (7233906901463859 / 2 ^ 46)"
    by (simp add: double_eval)
  have d: "(3616953450731930 / 2 ^ 45 :: rat) \<noteq> 7233906901463859 / 2 ^ 46"
    by simp
  from a b trend_y_samples(2) c d show ?thesis
    by (intro conjI allI)
qed


section \<open>Properties of the score dial\<close>

text \<open>
  On the report page the animation ends as soon as a frame arrives 1200 ms or more after
  the start, and it ends on the clamped target itself.
\<close>

lemma dial_run_complete:
  assumes "frame_requested d" and "\<exists>t \<in> set frames. start + 1200 \<le> t"
  shows "run_frames (frame target start) d frames
         = \<lparr> score_prop = target, score_text = Math_round target, frame_requested = False \<rparr>"
  using assms
proof (induction frames arbitrary: d)
  case Nil
  then show ?case by simp
next
  case (Cons now rest)
  show ?case
  proof (cases "start + 1200 \<le> now")
    case True
    then have "frame target start now
               = \<lparr> score_prop = target, score_text = Math_round target, frame_requested = False \<rparr>"
      by (simp add: frame_def Let_def min_def)
    with Cons.prems(1) show ?thesis by (cases rest) simp_all
  next
    case False
    then have req: "frame_requested (frame target start now)"
      by (simp add: frame_def Let_def min_def)
    from False Cons.prems(2) have "\<exists>t \<in> set rest. start + 1200 \<le> t" by auto
    from Cons.IH [OF req this] Cons.prems(1) show ?thesis by simp
  qed
qed

lemma dial_target_range: "0 \<le> dial_target s \<and> dial_target s \<le> 100"
  by (simp add: dial_target_def Let_def split: option.splits jsnum.splits)

lemma dial_frame_value:
  assumes "start \<le> now" "now < start + 1200"
  shows "score_prop (frame target start now) = toFixed2 (target * (1 - (1 - (now - start) / 1200) ^ 3))"
  using assms by (simp add: frame_def Let_def min_def easing_def)

text \<open>
  Claim C8. The score dial clamps the target to the range 0 to 100, eases the shown value
  from 0 with \<open>1 - (1 - p)^3\<close> over 1200 ms and ends on the clamped target. The dial of
  the report page does so (\<open>dial_run_complete\<close>, \<open>dial_target_range\<close>,
  \<open>dial_frame_value\<close>). The dial of the static pages script has no final assignment: for
  the target 33.333 its last frame leaves \<open>--score\<close> at 33.33, where the report page
  leaves 33.333.
\<close>

theorem score_dial_pinning:
  "dial_target (Some ''33.333'') = 33333 / 1000
   \<and> animateScoreDial False (Some ''33.333'') 0 [600, 1200]
       = \<lparr> score_prop = 33333 / 1000, score_text = 33, frame_requested = False \<rparr>
   \<and> animateScoreDial_pages False (Some ''33.333'') 0 [600, 1200]
       = \<lparr> score_prop = 3333 / 100, score_text = 33, frame_requested = False \<rparr>"
  by (simp add: animateScoreDial_def animateScoreDial_pages_def dial_target_def Number_examples
      frame_def frame_pages_def easing_def toFixed2_def Math_round_def Let_def floor_numeral_div)


section \<open>Properties of the palette\<close>

lemma hex_digits_upper:
  "list_all (\<lambda>c. is_hex (upper_char c) \<and> \<not> is_space (upper_char c)
                  \<and> upper_char (upper_char c) = upper_char c) ''0123456789abcdefABCDEF''"
  by (simp add: is_hex_def upper_char_def is_space_def)

lemma is_hex_upper:
  assumes "is_hex c"
  shows "is_hex (upper_char c) \<and> \<not> is_space (upper_char c) \<and> upper_char (upper_char c) = upper_char c"
proof -
  from assms have "c \<in> set ''0123456789abcdefABCDEF''"
    unfolding is_hex_def .
  with hex_digits_upper show ?thesis
    unfolding list_all_iff by blast
qed

lemma upper_hash: "upper_char CHR ''#'' = CHR ''#''"
  by (simp add: upper_char_def)

lemma normalized_color_shape:
  assumes "normalizeHexColor v = Some w"
  shows "\<exists>a b c d e g. w = [CHR ''#'', a, b, c, d, e, g] \<and> list_all is_hex [a, b, c, d, e, g]
          \<and> list_all (\<lambda>x. upper_char x = x \<and> \<not> is_space x) [a, b, c, d, e, g]"
proof -
  define raw where "raw = trim v"
  from assms have re: "HEX_COLOR_RE raw"
    by (auto simp: normalizeHexColor_def Let_def raw_def split: if_splits)
  then obtain ds where raw: "raw = CHR ''#'' # ds" and len: "length ds = 3 \<or> length ds = 6"
    and hx: "list_all is_hex ds"
    by (auto simp: HEX_COLOR_RE_def split: list.splits)
  from len show ?thesis
  proof
    assume "length ds = 3"
    then obtain a b c where ds: "ds = [a, b, c]"
      by (auto simp: length_Suc_conv numeral_3_eq_3)
    with assms raw have "w = toUpperCase [CHR ''#'', a, a, b, b, c, c]"
      using re by (simp add: normalizeHexColor_def Let_def raw_def [symmetric])
    with hx ds show ?thesis
      by (simp add: toUpperCase_def upper_hash is_hex_upper)
  next
    assume "length ds = 6"
    then obtain a b c d e g where ds: "ds = [a, b, c, d, e, g]"
      by (auto simp: length_Suc_conv eval_nat_numeral)
    with assms raw have "w = toUpperCase raw"
      using re by (simp add: normalizeHexColor_def Let_def raw_def [symmetric])
    with hx ds raw show ?thesis
      by (simp add: toUpperCase_def upper_hash is_hex_upper)
  qed
qed

lemma normalizeHexColor_idem:
  assumes "normalizeHexColor v = Some w"
  shows "normalizeHexColor w = Some w"
proof -
  from normalized_color_shape [OF assms] obtain a b c d e g
    where w: "w = [CHR ''#'', a, b, c, d, e, g]" and hx: "list_all is_hex [a, b, c, d, e, g]"
      and up: "list_all (\<lambda>x. upper_char x = x \<and> \<not> is_space x) [a, b, c, d, e, g]"
    by blast
  have t: "trim w = w"
    using up by (intro trim_id) (simp_all add: w is_space_def)
  have re: "HEX_COLOR_RE w"
    using hx by (simp add: w HEX_COLOR_RE_def)
  have len: "length w \<noteq> 4"
    by (simp add: w)
  have u: "toUpperCase w = w"
    using up by (simp add: w toUpperCase_def upper_hash)
  show ?thesis
    unfolding normalizeHexColor_def Let_def t using re len u by simp
qed

lemma normalizeHexColor_Nil [simp]: "normalizeHexColor [] = None"
  by (simp add: normalizeHexColor_def HEX_COLOR_RE_def)

lemma map_of_set_other:
  "k \<noteq> key \<Longrightarrow> map_of (map (\<lambda>p. if fst p = key then (key, v) else p) cs) k = map_of cs k"
  by (induction cs) auto

lemma map_of_set_same:
  "map_of (map (\<lambda>p. if fst p = key then (key, v) else p) cs) key
   = (if key \<in> fst ` set cs then Some v else None)"
proof (induction cs)
  case Nil
  show ?case by simp
next
  case (Cons a cs)
  show ?case
  proof (cases "fst a = key")
    case True
    then show ?thesis by simp
  next
    case False
    then have "key \<noteq> fst a" by blast
    with False Cons.IH show ?thesis by (cases a) simp
  qed
qed

lemma color_value_set_color:
  "color_value (set_color key v f) k
   = (if k = key \<and> key \<in> fst ` set (gen_colors f) then v else color_value f k)"
proof (cases "k = key")
  case True
  have "key \<notin> fst ` set (gen_colors f) \<Longrightarrow> map_of (gen_colors f) key = None"
    by (simp add: map_of_eq_None_iff)
  with True show ?thesis
    by (simp add: color_value_def set_color_def map_of_set_same)
next
  case False
  then show ?thesis
    by (simp add: color_value_def set_color_def map_of_set_other)
qed

lemma map_fst_set:
  "map fst (map (\<lambda>p. if fst p = key then (key, v) else p) cs) = map fst cs"
  by (induction cs) auto

lemma set_color_frame [simp]:
  "generatorDefaultPalette (set_color key v f) = generatorDefaultPalette f"
  "map fst (gen_colors (set_color key v f)) = map fst (gen_colors f)"
  by (simp_all add: set_color_def map_fst_set del: map_map)

lemma apply_color_frame [simp]:
  "generatorDefaultPalette (apply_color pal f key) = generatorDefaultPalette f"
  "map fst (gen_colors (apply_color pal f key)) = map fst (gen_colors f)"
  by (simp_all add: apply_color_def split: option.splits)

lemma applyGeneratorPalette_frame [simp]:
  "generatorDefaultPalette (applyGeneratorPalette pal f) = generatorDefaultPalette f"
  "map fst (gen_colors (applyGeneratorPalette pal f)) = map fst (gen_colors f)"
proof -
  have "generatorDefaultPalette (foldl (apply_color pal) f ks) = generatorDefaultPalette f
        \<and> map fst (gen_colors (foldl (apply_color pal) f ks)) = map fst (gen_colors f)" for ks
    by (induction ks arbitrary: f) simp_all
  then show "generatorDefaultPalette (applyGeneratorPalette pal f) = generatorDefaultPalette f"
    and "map fst (gen_colors (applyGeneratorPalette pal f)) = map fst (gen_colors f)"
    by (simp_all add: applyGeneratorPalette_def)
qed

lemma color_value_apply_color:
  "color_value (apply_color pal f key) k = (if k = key then applied_value pal f k else color_value f k)"
  by (auto simp: apply_color_def applied_value_def color_value_set_color split: option.splits)

lemma applied_value_apply_color:
  "applied_value pal (apply_color pal f key) k = applied_value pal f k"
  by (auto simp: applied_value_def color_value_apply_color split: option.splits)

lemma color_value_foldl_apply:
  "color_value (foldl (apply_color pal) f ks) k
   = (if k \<in> set ks then applied_value pal f k else color_value f k)"
  by (induction ks arbitrary: f)
     (auto simp: color_value_apply_color applied_value_apply_color)

lemma color_value_applyGeneratorPalette:
  "color_value (applyGeneratorPalette pal f) k
   = (if k \<in> set GENERATOR_THEME_KEYS then applied_value pal f k else color_value f k)"
  by (simp add: applyGeneratorPalette_def color_value_foldl_apply)


lemma palette_of_applied:
  "generatorPaletteFromInputs (applyGeneratorPalette pal f)
   = List.map_filter (\<lambda>key. map_option (Pair key) (normalizeHexColor (applied_value pal f key)))
       GENERATOR_THEME_KEYS"
  unfolding generatorPaletteFromInputs_def
  by (rule map_filter_cong_set) (simp add: color_value_applyGeneratorPalette)

lemma palette_lookup:
  "map_of (generatorPaletteFromInputs f) k
   = (if k \<in> set GENERATOR_THEME_KEYS then normalizeHexColor (color_value f k) else None)"
  unfolding generatorPaletteFromInputs_def by (rule map_of_map_filter_keys)

lemma color_value_absent:
  assumes "k \<notin> set (map fst (gen_colors f))"
  shows "color_value f k = []"
proof -
  from assms have "map_of (gen_colors f) k = None"
    by (simp add: map_of_eq_None_iff)
  then show ?thesis by (simp add: color_value_def)
qed

text \<open>Applying the palette of a form's own inputs changes no well-formed colour.\<close>

lemma normalize_applied_own:
  assumes "k \<in> set GENERATOR_THEME_KEYS"
    and "map fst (gen_colors g) = map fst (gen_colors f)"
    and "normalizeHexColor (color_value f k) = None \<Longrightarrow> normalizeHexColor (color_value g k) = None"
  shows "normalizeHexColor (applied_value (generatorPaletteFromInputs f) g k)
         = (case normalizeHexColor (color_value f k) of
              None \<Rightarrow> None | Some v \<Rightarrow> Some v)"
proof (cases "normalizeHexColor (color_value f k)")
  case None
  with assms show ?thesis
    by (simp add: applied_value_def palette_lookup)
next
  case (Some v)
  then have idem: "normalizeHexColor v = Some v"
    by (rule normalizeHexColor_idem)
  have "k \<in> set (map fst (gen_colors f))"
  proof (rule ccontr)
    assume "k \<notin> set (map fst (gen_colors f))"
    then have "color_value f k = []" by (rule color_value_absent)
    with Some show False by simp
  qed
  with assms(1,2) Some idem show ?thesis
    by (simp add: applied_value_def palette_lookup)
qed

lemma palette_step_frame [simp]:
  "generatorDefaultPalette (palette_step f op) = generatorDefaultPalette f"
  "map fst (gen_colors (palette_step f op)) = map fst (gen_colors f)"
  by (cases op; simp add: randomizeGeneratorPalette_def applyGeneratorPresetPalette_def Let_def)+

lemma palette_steps_frame [simp]:
  "generatorDefaultPalette (foldl palette_step f ops) = generatorDefaultPalette f"
  "map fst (gen_colors (foldl palette_step f ops)) = map fst (gen_colors f)"
  by (induction ops arbitrary: f) simp_all

lemma reset_without_capture:
  assumes "generatorDefaultPalette f = None"
  shows "generatorPaletteFromInputs (resetGeneratorPalette f) = generatorPaletteFromInputs f"
    and "generatorDefaultPalette (resetGeneratorPalette f) = Some (generatorPaletteFromInputs f)"
proof -
  define f1 where "f1 = f \<lparr> generatorDefaultPalette := Some (generatorPaletteFromInputs f) \<rparr>"
  have cv: "color_value f1 k = color_value f k" for k
    by (simp add: f1_def color_value_def)
  have keys: "map fst (gen_colors f1) = map fst (gen_colors f)"
    by (simp add: f1_def)
  have r: "resetGeneratorPalette f = applyGeneratorPalette (generatorPaletteFromInputs f) f1"
    using assms by (simp add: resetGeneratorPalette_def captureGeneratorDefaultPalette_def f1_def)
  have "generatorPaletteFromInputs (resetGeneratorPalette f)
        = List.map_filter (\<lambda>key. map_option (Pair key) (normalizeHexColor (color_value f key)))
            GENERATOR_THEME_KEYS"
    unfolding r palette_of_applied
  proof (rule map_filter_cong_set)
    fix k assume k: "k \<in> set GENERATOR_THEME_KEYS"
    have "normalizeHexColor (applied_value (generatorPaletteFromInputs f) f1 k)
          = (case normalizeHexColor (color_value f k) of None \<Rightarrow> None | Some v \<Rightarrow> Some v)"
      using k keys by (rule normalize_applied_own) (simp add: cv)
    then show "map_option (Pair k) (normalizeHexColor (applied_value (generatorPaletteFromInputs f) f1 k))
               = map_option (Pair k) (normalizeHexColor (color_value f k))"
      by (simp split: option.splits)
  qed
  then show "generatorPaletteFromInputs (resetGeneratorPalette f) = generatorPaletteFromInputs f"
    by (simp add: generatorPaletteFromInputs_def)
  show "generatorDefaultPalette (resetGeneratorPalette f) = Some (generatorPaletteFromInputs f)"
    by (simp add: r f1_def)
qed

lemma reset_after_steps:
  assumes none: "generatorDefaultPalette f = None"
    and full: "list_all (\<lambda>k. normalizeHexColor (color_value f k) \<noteq> None) GENERATOR_THEME_KEYS"
  shows "generatorPaletteFromInputs
           (resetGeneratorPalette (foldl palette_step (captureGeneratorDefaultPalette f) ops))
         = generatorPaletteFromInputs f"
    and "generatorDefaultPalette
           (resetGeneratorPalette (foldl palette_step (captureGeneratorDefaultPalette f) ops))
         = Some (generatorPaletteFromInputs f)"
proof -
  define memo where "memo = generatorPaletteFromInputs f"
  define f1 where "f1 = captureGeneratorDefaultPalette f"
  define f2 where "f2 = foldl palette_step f1 ops"
  have m1: "generatorDefaultPalette f1 = Some memo"
    using none by (simp add: f1_def captureGeneratorDefaultPalette_def memo_def)
  have k1: "map fst (gen_colors f1) = map fst (gen_colors f)"
    using none by (simp add: f1_def captureGeneratorDefaultPalette_def)
  have m2: "generatorDefaultPalette f2 = Some memo"
    by (simp add: f2_def m1)
  have k2: "map fst (gen_colors f2) = map fst (gen_colors f)"
    by (simp add: f2_def k1)
  have r: "resetGeneratorPalette f2 = applyGeneratorPalette memo f2"
    using m2 by (simp add: resetGeneratorPalette_def captureGeneratorDefaultPalette_def)
  have "generatorPaletteFromInputs (resetGeneratorPalette f2)
        = List.map_filter (\<lambda>key. map_option (Pair key) (normalizeHexColor (color_value f key)))
            GENERATOR_THEME_KEYS"
    unfolding r palette_of_applied
  proof (rule map_filter_cong_set)
    fix k assume k: "k \<in> set GENERATOR_THEME_KEYS"
    with full have some: "normalizeHexColor (color_value f k) \<noteq> None"
      by (simp add: list_all_iff)
    have "normalizeHexColor (applied_value memo f2 k)
          = (case normalizeHexColor (color_value f k) of None \<Rightarrow> None | Some v \<Rightarrow> Some v)"
      unfolding memo_def using k k2 by (rule normalize_applied_own) (simp add: some)
    then show "map_option (Pair k) (normalizeHexColor (applied_value memo f2 k))
               = map_option (Pair k) (normalizeHexColor (color_value f k))"
      by (simp split: option.splits)
  qed
  then show "generatorPaletteFromInputs
           (resetGeneratorPalette (foldl palette_step (captureGeneratorDefaultPalette f) ops))
         = generatorPaletteFromInputs f"
    by (simp add: generatorPaletteFromInputs_def f2_def f1_def)
  show "generatorDefaultPalette
           (resetGeneratorPalette (foldl palette_step (captureGeneratorDefaultPalette f) ops))
         = Some (generatorPaletteFromInputs f)"
  proof -
    have "generatorDefaultPalette (resetGeneratorPalette f2) = Some memo"
      by (simp add: r m2)
    then show ?thesis by (simp add: f2_def f1_def memo_def)
  qed
qed



lemma capture_memo:
  "generatorDefaultPalette (captureGeneratorDefaultPalette f)
   = Some (case generatorDefaultPalette f of
             None \<Rightarrow> generatorPaletteFromInputs f | Some p \<Rightarrow> p)"
  by (cases "generatorDefaultPalette f") (simp_all add: captureGeneratorDefaultPalette_def)

lemma capture_then_steps_memo:
  "generatorDefaultPalette (foldl palette_step (captureGeneratorDefaultPalette f) ops)
   = Some (case generatorDefaultPalette f of
             None \<Rightarrow> generatorPaletteFromInputs f | Some p \<Rightarrow> p)"
  by (simp add: capture_memo)








section \<open>Properties of the numeric clamps\<close>

text \<open>
  Claim C3. The import path (\<open>clampNumber\<close>) maps the width inputs \<open>-5\<close>, \<open>99999\<close> and
  \<open>abc\<close> to 640, 1400 and the default 760. The export path (\<open>buildGeneratorPath\<close>) maps
  the first two alike, but a width control holding \<open>abc\<close> is exported as
  \<open>card_width=NaN\<close>: \<open>Math.max\<close> and \<open>Math.min\<close> hand \<open>NaN\<close> on, and the export has no
  test for a finite number.
\<close>

theorem width_clamp_import_and_export:
  "clampNumber ''-5'' 640 1400 760 = Fin 640
   \<and> clampNumber ''99999'' 640 1400 760 = Fin 1400
   \<and> clampNumber ''abc'' 640 1400 760 = Fin 760
   \<and> params_get (generator_params (sample_form \<lparr> gen_width := ''-5'' \<rparr>)) ''card_width'' = Some ''640''
   \<and> params_get (generator_params (sample_form \<lparr> gen_width := ''99999'' \<rparr>)) ''card_width'' = Some ''1400''
   \<and> params_get (generator_params (sample_form \<lparr> gen_width := ''abc'' \<rparr>)) ''card_width'' = Some ''NaN''
   \<and> buildGeneratorPath (sample_form \<lparr> gen_width := ''abc'' \<rparr>)
       = ''/api/stats/repo/acme/widgets.svg?theme=ocean&locale=en&card_width=NaN&hide=stars%2Cforks&animate=true&animation=all&duration=1400&cache_seconds=21600&langs_count=4''"
proof -
  have a: "params_get (generator_params (sample_form \<lparr> gen_width := ''-5'' \<rparr>)) ''card_width'' = Some ''640''"
    by (simp add: export_eval params_get_def sample_form_def Number_examples clamp_string_examples)
  have b: "params_get (generator_params (sample_form \<lparr> gen_width := ''99999'' \<rparr>)) ''card_width'' = Some ''1400''"
    by (simp add: export_eval params_get_def sample_form_def Number_examples clamp_string_examples)
  have c: "params_get (generator_params (sample_form \<lparr> gen_width := ''abc'' \<rparr>)) ''card_width'' = Some ''NaN''"
    by (simp add: export_eval params_get_def sample_form_def Number_examples clamp_string_examples)
  have d: "buildGeneratorPath (sample_form \<lparr> gen_width := ''abc'' \<rparr>)
       = ''/api/stats/repo/acme/widgets.svg?theme=ocean&locale=en&card_width=NaN&hide=stars%2Cforks&animate=true&animation=all&duration=1400&cache_seconds=21600&langs_count=4''"
    by (simp add: export_eval sample_form_def Number_examples clamp_string_examples)
  show ?thesis
    by (intro conjI) (simp_all only: clampNumber_width_examples a b c d)
qed

section \<open>Properties of the hide flags\<close>

lemma params_get_hide:
  "params_get (generator_params f) ''hide''
   = (if value_or (gen_format f) ''svg'' = ''svg'' \<and> trim (gen_hide f) \<noteq> []
      then Some (trim (gen_hide f)) else None)"
proof -
  have "''hide'' \<notin> fst ` set (generatorCustomThemeParams f)"
    using custom_theme_keys [of f] by (auto simp: GENERATOR_THEME_KEYS_def)
  then show ?thesis
    by (simp add: generator_params_def Let_def params_get_entries_other)
       (simp add: set_entry_def params_get_set params_get_def)
qed

lemma params_get_fields:
  "params_get (generator_params f) ''fields''
   = (if value_or (gen_format f) ''svg'' \<noteq> ''svg'' \<and> trim (gen_fields f) \<noteq> []
      then Some (trim (gen_fields f)) else None)"
proof -
  have "''fields'' \<notin> fst ` set (generatorCustomThemeParams f)"
    using custom_theme_keys [of f] by (auto simp: GENERATOR_THEME_KEYS_def)
  then show ?thesis
    by (simp add: generator_params_def Let_def params_get_entries_other)
       (simp add: set_entry_def params_get_set params_get_def)
qed


lemma hide_supported_update [simp]:
  "hide_supported kind format (input \<lparr> opt_disabled := d \<rparr>) = hide_supported kind format input"
  "hide_supported kind format (input \<lparr> opt_checked := c \<rparr>) = hide_supported kind format input"
  by (simp_all add: hide_supported_def allowed_kinds_def)

lemma sync_hide_options:
  "hide_options (syncGeneratorHideOptionsByKind g)
   = map (\<lambda>input.
            if hide_supported (value_or (gen_kind g) ''repo'') (value_or (gen_format g) ''svg'') input
            then input \<lparr> opt_disabled := False \<rparr>
            else input \<lparr> opt_disabled := True, opt_checked := False \<rparr>)
         (hide_options g)"
  by (simp add: syncGeneratorHideOptionsByKind_def syncGeneratorHideField_def Let_def)

lemma sync_hide_field:
  "gen_hide (syncGeneratorHideOptionsByKind g)
   = join '','' (selectedGeneratorHideFlags (syncGeneratorHideOptionsByKind g))"
  by (simp add: syncGeneratorHideOptionsByKind_def syncGeneratorHideField_def Let_def
        selectedGeneratorHideFlags_def)

lemma sync_hide_selected:
  "selectedGeneratorHideFlags (syncGeneratorHideOptionsByKind g)
   = filter (\<lambda>v. v \<noteq> [])
       (map (\<lambda>node. trim (opt_value node))
          (filter (\<lambda>node. opt_checked node
                     \<and> hide_supported (value_or (gen_kind g) ''repo'') (value_or (gen_format g) ''svg'') node)
             (hide_options g)))"
proof -
  have "map (\<lambda>node. trim (opt_value node))
          (filter (\<lambda>node. opt_checked node \<and> \<not> opt_disabled node)
             (map (\<lambda>input. if P input then input \<lparr> opt_disabled := False \<rparr>
                            else input \<lparr> opt_disabled := True, opt_checked := False \<rparr>) ns))
        = map (\<lambda>node. trim (opt_value node)) (filter (\<lambda>node. opt_checked node \<and> P node) ns)"
    for P and ns :: "option_node list"
    by (induction ns) auto
  then show ?thesis
    by (simp add: selectedGeneratorHideFlags_def sync_hide_options)
qed

lemma sync_hide_frame [simp]:
  "gen_kind (syncGeneratorHideOptionsByKind g) = gen_kind g"
  "gen_format (syncGeneratorHideOptionsByKind g) = gen_format g"
  by (simp_all add: syncGeneratorHideOptionsByKind_def syncGeneratorHideField_def Let_def)

lemma sync_control_frame [simp]:
  "gen_kind (syncGeneratorControlVisibility g) = gen_kind g"
  "gen_format (syncGeneratorControlVisibility g) = gen_format g"
  "hide_options (syncGeneratorControlVisibility g) = hide_options g"
  "field_options (syncGeneratorControlVisibility g) = field_options g"
  "gen_hide (syncGeneratorControlVisibility g) = gen_hide g"
  by (simp_all add: syncGeneratorControlVisibility_def Let_def)

lemma sync_fields_field_frame [simp]:
  "gen_kind (syncGeneratorFieldsField g) = gen_kind g"
  "gen_format (syncGeneratorFieldsField g) = gen_format g"
  "hide_options (syncGeneratorFieldsField g) = hide_options g"
  "field_options (syncGeneratorFieldsField g) = field_options g"
  "gen_hide (syncGeneratorFieldsField g) = gen_hide g"
  by (simp_all add: syncGeneratorFieldsField_def Let_def)

lemma sync_field_options_frame [simp]:
  "gen_kind (syncGeneratorFieldOptionsByKind g) = gen_kind g"
  "gen_format (syncGeneratorFieldOptionsByKind g) = gen_format g"
  "hide_options (syncGeneratorFieldOptionsByKind g) = hide_options g"
  "gen_hide (syncGeneratorFieldOptionsByKind g) = gen_hide g"
  by (simp_all add: syncGeneratorFieldOptionsByKind_def Let_def)

lemma sync_custom_frame [simp]:
  "gen_kind (syncGeneratorCustomThemeVisibility g) = gen_kind g"
  "gen_format (syncGeneratorCustomThemeVisibility g) = gen_format g"
  "hide_options (syncGeneratorCustomThemeVisibility g) = hide_options g"
  "field_options (syncGeneratorCustomThemeVisibility g) = field_options g"
  "gen_hide (syncGeneratorCustomThemeVisibility g) = gen_hide g"
  "gen_fields (syncGeneratorCustomThemeVisibility g) = gen_fields g"
  by (simp_all add: syncGeneratorCustomThemeVisibility_def Let_def)

lemma selected_hide_cong:
  "hide_options a = hide_options b \<Longrightarrow> selectedGeneratorHideFlags a = selectedGeneratorHideFlags b"
  by (simp add: selectedGeneratorHideFlags_def)

lemma selected_hide_trimmed:
  "list_all (\<lambda>x. x \<noteq> []) (selectedGeneratorHideFlags f)"
  "list_all (\<lambda>x. \<exists>y. x = trim y) (selectedGeneratorHideFlags f)"
  by (auto simp: selectedGeneratorHideFlags_def list_all_iff)

lemma hide_synced_after:
  assumes h: "hide_options f' = hide_options (syncGeneratorHideOptionsByKind g)"
    and gh: "gen_hide f' = gen_hide (syncGeneratorHideOptionsByKind g)"
    and fm: "gen_format f' = gen_format g"
    and kind: "kind = value_or (gen_kind g) ''repo''"
    and format: "format = value_or (gen_format g) ''svg''"
  shows "list_all (\<lambda>n. (opt_checked n \<longrightarrow> hide_supported kind format n)
                   \<and> opt_disabled n = (\<not> hide_supported kind format n)) (hide_options f')
      \<and> gen_hide f' = join '','' (selectedGeneratorHideFlags f')
      \<and> selectedGeneratorHideFlags f'
          = filter (\<lambda>v. v \<noteq> [])
              (map (\<lambda>n. trim (opt_value n))
                 (filter (\<lambda>n. opt_checked n \<and> hide_supported kind format n) (hide_options g)))
      \<and> params_get (generator_params f') ''hide''
          = (if format = ''svg'' \<and> selectedGeneratorHideFlags f' \<noteq> []
             then Some (join '','' (selectedGeneratorHideFlags f')) else None)"
proof -
  have sel: "selectedGeneratorHideFlags f' = selectedGeneratorHideFlags (syncGeneratorHideOptionsByKind g)"
    using h by (rule selected_hide_cong)
  have a: "list_all (\<lambda>n. (opt_checked n \<longrightarrow> hide_supported kind format n)
                   \<and> opt_disabled n = (\<not> hide_supported kind format n)) (hide_options f')"
    unfolding h sync_hide_options kind format by (auto simp: list_all_iff)
  have b: "gen_hide f' = join '','' (selectedGeneratorHideFlags f')"
    by (simp add: gh sel sync_hide_field)
  have c: "selectedGeneratorHideFlags f'
          = filter (\<lambda>v. v \<noteq> [])
              (map (\<lambda>n. trim (opt_value n))
                 (filter (\<lambda>n. opt_checked n \<and> hide_supported kind format n) (hide_options g)))"
    by (simp add: sel sync_hide_selected kind format)
  have t: "trim (gen_hide f') = join '','' (selectedGeneratorHideFlags f')"
    unfolding b by (rule trim_join_trimmed) (rule selected_hide_trimmed)+
  have e: "join '','' (selectedGeneratorHideFlags f') = [] \<longleftrightarrow> selectedGeneratorHideFlags f' = []"
    by (rule join_eq_Nil) (rule selected_hide_trimmed)
  have d: "params_get (generator_params f') ''hide''
          = (if format = ''svg'' \<and> selectedGeneratorHideFlags f' \<noteq> []
             then Some (join '','' (selectedGeneratorHideFlags f')) else None)"
    by (simp add: params_get_hide t e fm format)
  show ?thesis
    using a b c d by blast
qed

text \<open>
  Claim C4. After the handler of a change of the kind, or of the format, has run: every
  hide option that is not permitted for the new pair is unchecked and disabled; the
  hidden \<open>hide\<close> input lists exactly the checked options that are permitted; and the
  canonical export carries a \<open>hide\<close> parameter only for the SVG format and only with
  those flags.
\<close>

theorem hide_flags_follow_kind_and_format:
  assumes "(f' = on_kind_change k f \<and> kind = value_or k ''repo''
              \<and> format = value_or (gen_format f) ''svg'')
           \<or> (f' = on_format_change fm f \<and> kind = value_or (gen_kind f) ''repo''
              \<and> format = value_or fm ''svg'')"
  shows "list_all (\<lambda>n. (opt_checked n \<longrightarrow> hide_supported kind format n)
                   \<and> opt_disabled n = (\<not> hide_supported kind format n)) (hide_options f')
      \<and> gen_hide f' = join '','' (selectedGeneratorHideFlags f')
      \<and> selectedGeneratorHideFlags f'
          = filter (\<lambda>v. v \<noteq> [])
              (map (\<lambda>n. trim (opt_value n))
                 (filter (\<lambda>n. opt_checked n \<and> hide_supported kind format n) (hide_options f)))
      \<and> params_get (generator_params f') ''hide''
          = (if format = ''svg'' \<and> selectedGeneratorHideFlags f' \<noteq> []
             then Some (join '','' (selectedGeneratorHideFlags f')) else None)"
  using assms
proof
  assume a: "f' = on_kind_change k f \<and> kind = value_or k ''repo''
              \<and> format = value_or (gen_format f) ''svg''"
  let ?g = "syncGeneratorControlVisibility (f \<lparr> gen_kind := k \<rparr>)"
  have "hide_options ?g = hide_options f" by simp
  with hide_synced_after [of f' ?g kind format] a show ?thesis
    by (simp add: on_kind_change_def)
next
  assume a: "f' = on_format_change fm f \<and> kind = value_or (gen_kind f) ''repo''
              \<and> format = value_or fm ''svg''"
  let ?g = "syncGeneratorControlVisibility (f \<lparr> gen_format := fm \<rparr>)"
  have "hide_options ?g = hide_options f" by simp
  with hide_synced_after [of f' ?g kind format] a show ?thesis
    by (simp add: on_format_change_def)
qed

lemmas options_eval = hide_supported_def allowed_kinds_def value_or_def trim_def is_space_def
  sample_form_def sample_hide_options_def hide_option_def

text \<open>
  The scenario: stars and forks are checked on a repository SVG card; the kind is
  switched to quality, for which this page permits stars but not forks.
\<close>

theorem hide_flags_follow_kind_witness:
  "gen_hide sample_form = ''stars,forks''
   \<and> selectedGeneratorHideFlags (on_kind_change ''quality'' sample_form) = [''stars'']
   \<and> gen_hide (on_kind_change ''quality'' sample_form) = ''stars''
   \<and> params_get (generator_params (on_kind_change ''quality'' sample_form)) ''hide'' = Some ''stars''"
proof -
  have pre: "(on_kind_change ''quality'' sample_form = on_kind_change ''quality'' sample_form
              \<and> ''quality'' = value_or ''quality'' ''repo''
              \<and> ''svg'' = value_or (gen_format sample_form) ''svg'')
           \<or> (on_kind_change ''quality'' sample_form = on_format_change [] sample_form
              \<and> ''quality'' = value_or (gen_kind sample_form) ''repo''
              \<and> ''svg'' = value_or [] ''svg'')"
    by (simp add: value_or_def sample_form_def)
  note t = hide_flags_follow_kind_and_format [OF pre]
  have sel: "selectedGeneratorHideFlags (on_kind_change ''quality'' sample_form) = [''stars'']"
    using t by (simp add: options_eval)
  have a: "gen_hide sample_form = ''stars,forks''"
    by (simp add: sample_form_def)
  have b: "gen_hide (on_kind_change ''quality'' sample_form) = ''stars''"
    using t by (simp add: sel)
  have c: "params_get (generator_params (on_kind_change ''quality'' sample_form)) ''hide'' = Some ''stars''"
    using t by (simp add: sel)
  show ?thesis
    by (intro conjI) (fact a, fact sel, fact b, fact c)
qed

section \<open>Properties of the field flags\<close>

lemma join_no_separator:
  assumes "join [c] xs = s" and "c \<notin> set s"
  shows "xs = [s] \<or> (xs = [] \<and> s = [])"
proof (cases xs)
  case Nil
  with assms show ?thesis by simp
next
  case (Cons x ys)
  show ?thesis
  proof (cases ys)
    case Nil
    with Cons assms show ?thesis by simp
  next
    case (Cons y zs)
    with \<open>xs = x # ys\<close> assms(1) have "c \<in> set s" by auto
    with assms(2) show ?thesis by simp
  qed
qed

lemma selected_field_trimmed:
  "list_all (\<lambda>x. x \<noteq> []) (selectedGeneratorFieldFlags f)"
  "list_all (\<lambda>x. \<exists>y. x = trim y) (selectedGeneratorFieldFlags f)"
  by (auto simp: selectedGeneratorFieldFlags_def list_all_iff)

lemma selected_field_cong:
  "field_options a = field_options b \<Longrightarrow> selectedGeneratorFieldFlags a = selectedGeneratorFieldFlags b"
  by (simp add: selectedGeneratorFieldFlags_def)

lemma trim_none_sentinel: "trim ''__none__'' = ''__none__''"
  by (simp add: trim_def is_space_def)

lemma flag_tokens_none: "flag_tokens ''__none__'' = [''__none__'']"
  by (simp add: flag_tokens_def trim_none_sentinel toLowerCase_def lower_char_def)

lemma apply_none_as_sync:
  "applyGeneratorFieldFlags ''__none__'' f
   = syncGeneratorFieldsField
       (f \<lparr> field_options :=
              map (\<lambda>node. if opt_disabled node then node else node \<lparr> opt_checked := False \<rparr>)
                  (field_options f) \<rparr>)"
  by (simp add: applyGeneratorFieldFlags_def flag_tokens_none Let_def cong: if_cong)

lemma none_selected_after_clear:
  "selectedGeneratorFieldFlags
     (f \<lparr> field_options :=
            map (\<lambda>node. if opt_disabled node then node else node \<lparr> opt_checked := False \<rparr>)
                (field_options f) \<rparr>) = []"
proof -
  have "filter (\<lambda>node. opt_checked node \<and> \<not> opt_disabled node)
          (map (\<lambda>node. if opt_disabled node then node else node \<lparr> opt_checked := False \<rparr>) ns) = []"
    for ns :: "option_node list"
    by (induction ns) auto
  then show ?thesis
    by (simp add: selectedGeneratorFieldFlags_def)
qed

lemma selected_after_sync:
  "selectedGeneratorFieldFlags (syncGeneratorFieldsField g) = selectedGeneratorFieldFlags g"
  by (rule selected_field_cong) simp

lemma apply_none_selected:
  "selectedGeneratorFieldFlags (applyGeneratorFieldFlags ''__none__'' f) = []"
  unfolding apply_none_as_sync selected_after_sync by (rule none_selected_after_clear)

lemma apply_none_fields:
  "gen_fields (applyGeneratorFieldFlags ''__none__'' f) = ''__none__''"
  unfolding apply_none_as_sync
  by (simp add: syncGeneratorFieldsField_def [of "f \<lparr> field_options := x \<rparr>" for x] Let_def
        none_selected_after_clear)

lemma apply_fields_frame [simp]:
  "gen_format (applyGeneratorFieldFlags raw f) = gen_format f"
  "gen_kind (applyGeneratorFieldFlags raw f) = gen_kind f"
  by (simp_all add: applyGeneratorFieldFlags_def Let_def)

text \<open>
  Claim C6. On a JSON card the hidden \<open>fields\<close> input has three serialisations that
  never coincide. No selected field gives the sentinel \<open>__none__\<close>, which is exported. A
  selection of as many fields as the kind has (the full selection) gives the empty
  string, which is not exported. Any selection between gives the comma-joined list,
  which is exported, is not empty, and is no sentinel unless a field is called so.
  Importing the sentinel selects no field, and the synced value is the sentinel again,
  not the empty string.
\<close>

theorem field_flags_three_states:
  assumes "value_or (gen_format f) ''svg'' \<noteq> ''svg''"
  shows "(selectedGeneratorFieldFlags f = [] \<longrightarrow>
            gen_fields (syncGeneratorFieldsField f) = ''__none__''
            \<and> params_get (generator_params (syncGeneratorFieldsField f)) ''fields'' = Some ''__none__'')
       \<and> (length (GENERATOR_JSON_FIELDS (value_or (gen_kind f) ''repo''))
             \<le> length (selectedGeneratorFieldFlags f) \<longrightarrow>
            gen_fields (syncGeneratorFieldsField f) = []
            \<and> params_get (generator_params (syncGeneratorFieldsField f)) ''fields'' = None)
       \<and> (selectedGeneratorFieldFlags f \<noteq> []
            \<and> length (selectedGeneratorFieldFlags f)
                < length (GENERATOR_JSON_FIELDS (value_or (gen_kind f) ''repo'')) \<longrightarrow>
            gen_fields (syncGeneratorFieldsField f) = join '','' (selectedGeneratorFieldFlags f)
            \<and> params_get (generator_params (syncGeneratorFieldsField f)) ''fields''
                = Some (join '','' (selectedGeneratorFieldFlags f))
            \<and> join '','' (selectedGeneratorFieldFlags f) \<noteq> []
            \<and> (''__none__'' \<notin> set (selectedGeneratorFieldFlags f) \<longrightarrow>
                 join '','' (selectedGeneratorFieldFlags f) \<noteq> ''__none__''))
       \<and> selectedGeneratorFieldFlags (applyGeneratorFieldFlags ''__none__'' f) = []
       \<and> gen_fields (applyGeneratorFieldFlags ''__none__'' f) = ''__none__''
       \<and> params_get (generator_params (applyGeneratorFieldFlags ''__none__'' f)) ''fields''
           = Some ''__none__''"
proof -
  let ?sel = "selectedGeneratorFieldFlags f"
  let ?total = "length (GENERATOR_JSON_FIELDS (value_or (gen_kind f) ''repo''))"
  let ?f' = "syncGeneratorFieldsField f"
  have total: "(if value_or (gen_kind f) ''repo'' = ''quality''
                then length (GENERATOR_JSON_FIELDS ''quality'')
                else length (GENERATOR_JSON_FIELDS ''repo'')) = ?total"
    by (simp add: GENERATOR_JSON_FIELDS_def)
  have pos: "0 < ?total"
    by (simp add: GENERATOR_JSON_FIELDS_def)
  have fmt: "value_or (gen_format ?f') ''svg'' \<noteq> ''svg''"
    using assms by simp
  have exp: "params_get (generator_params ?f') ''fields''
             = (if trim (gen_fields ?f') \<noteq> [] then Some (trim (gen_fields ?f')) else None)"
    using fmt by (simp add: params_get_fields)
  have none: "gen_fields ?f' = ''__none__''" if "?sel = []"
    using that by (simp add: syncGeneratorFieldsField_def Let_def)
  have all: "gen_fields ?f' = []" if "?total \<le> length ?sel"
  proof -
    from that pos have "?sel \<noteq> []" by auto
    with that show ?thesis
      unfolding syncGeneratorFieldsField_def Let_def total by simp
  qed
  have some: "gen_fields ?f' = join '','' ?sel" if "?sel \<noteq> []" "length ?sel < ?total"
    using that unfolding syncGeneratorFieldsField_def Let_def total by simp
  have tj: "trim (join '','' ?sel) = join '','' ?sel"
    by (rule trim_join_trimmed) (rule selected_field_trimmed)+
  have jn: "join '','' ?sel \<noteq> []" if "?sel \<noteq> []"
    using that join_eq_Nil [OF selected_field_trimmed(1), of "'',''" f] by simp
  have distinct: "join '','' ?sel \<noteq> ''__none__''" if "''__none__'' \<notin> set ?sel"
  proof
    assume "join '','' ?sel = ''__none__''"
    then have "?sel = [''__none__''] \<or> (?sel = [] \<and> ''__none__'' = [])"
      by (rule join_no_separator) simp
    with that show False by auto
  qed
  let ?g = "applyGeneratorFieldFlags ''__none__'' f"
  have gsel: "selectedGeneratorFieldFlags ?g = []"
    by (rule apply_none_selected)
  have gval: "gen_fields ?g = ''__none__''"
    by (rule apply_none_fields)
  have gexp: "params_get (generator_params ?g) ''fields'' = Some ''__none__''"
    using assms by (simp add: params_get_fields gval trim_none_sentinel)
  show ?thesis
  proof (intro conjI impI)
    assume a: "?sel = []"
    show "gen_fields ?f' = ''__none__''" using a by (rule none)
    show "params_get (generator_params ?f') ''fields'' = Some ''__none__''"
      by (simp add: exp none [OF a] trim_none_sentinel)
  next
    assume a: "?total \<le> length ?sel"
    show "gen_fields ?f' = []" using a by (rule all)
    show "params_get (generator_params ?f') ''fields'' = None"
      by (simp add: exp all [OF a])
  next
    assume a: "?sel \<noteq> [] \<and> length ?sel < ?total"
    then have v: "gen_fields ?f' = join '','' ?sel" by (intro some) simp_all
    show "gen_fields ?f' = join '','' ?sel" by (rule v)
    show "params_get (generator_params ?f') ''fields'' = Some (join '','' ?sel)"
      using a jn by (simp add: exp v tj)
    show "join '','' ?sel \<noteq> []" using a jn by simp
  next
    assume "''__none__'' \<notin> set ?sel"
    then show "join '','' ?sel \<noteq> ''__none__''" by (rule distinct)
  next
    show "selectedGeneratorFieldFlags ?g = []" by (rule gsel)
    show "gen_fields ?g = ''__none__''" by (rule gval)
    show "params_get (generator_params ?g) ''fields'' = Some ''__none__''" by (rule gexp)
  qed
qed


lemmas fields_eval = selectedGeneratorFieldFlags_def json_form_def json_field_options_def
  GENERATOR_JSON_FIELDS_def sample_form_def trim_def is_space_def value_or_def

lemma json_form_selected:
  "selectedGeneratorFieldFlags (json_form (GENERATOR_JSON_FIELDS ''repo'')) = GENERATOR_JSON_FIELDS ''repo''"
  "selectedGeneratorFieldFlags (json_form []) = []"
  "selectedGeneratorFieldFlags (json_form [''stars'', ''forks'']) = [''stars'', ''forks'']"
  by (simp_all add: fields_eval)

text \<open>A JSON repository card with all 24 fields, with none, and with two fields selected.\<close>

theorem field_flags_three_states_witness:
  "value_or (gen_format (json_form [])) ''svg'' \<noteq> ''svg''
   \<and> gen_fields (syncGeneratorFieldsField (json_form (GENERATOR_JSON_FIELDS ''repo''))) = []
   \<and> params_get (generator_params (syncGeneratorFieldsField (json_form (GENERATOR_JSON_FIELDS ''repo''))))
        ''fields'' = None
   \<and> gen_fields (syncGeneratorFieldsField (json_form [])) = ''__none__''
   \<and> params_get (generator_params (syncGeneratorFieldsField (json_form []))) ''fields''
       = Some ''__none__''
   \<and> gen_fields (syncGeneratorFieldsField (json_form [''stars'', ''forks''])) = ''stars,forks''
   \<and> params_get (generator_params (syncGeneratorFieldsField (json_form [''stars'', ''forks''])))
        ''fields'' = Some ''stars,forks''
   \<and> selectedGeneratorFieldFlags
        (applyGeneratorFieldFlags ''__none__'' (json_form (GENERATOR_JSON_FIELDS ''repo''))) = []
   \<and> gen_fields (applyGeneratorFieldFlags ''__none__'' (json_form (GENERATOR_JSON_FIELDS ''repo'')))
       = ''__none__''"
proof -
  have j: "value_or (gen_format (json_form sel)) ''svg'' \<noteq> ''svg''" for sel
    by (simp add: json_form_def value_or_def)
  have k: "value_or (gen_kind (json_form sel)) ''repo'' = ''repo''" for sel
    by (simp add: json_form_def sample_form_def value_or_def)
  have n: "length (GENERATOR_JSON_FIELDS ''repo'') = 24"
    by (simp add: GENERATOR_JSON_FIELDS_def)
  note full = field_flags_three_states [OF j [of "GENERATOR_JSON_FIELDS ''repo''"]]
  note none = field_flags_three_states [OF j [of "[]"]]
  note some = field_flags_three_states [OF j [of "[''stars'', ''forks'']"]]
  have a: "gen_fields (syncGeneratorFieldsField (json_form (GENERATOR_JSON_FIELDS ''repo''))) = []"
    and b: "params_get (generator_params (syncGeneratorFieldsField (json_form (GENERATOR_JSON_FIELDS ''repo''))))
        ''fields'' = None"
    and g: "selectedGeneratorFieldFlags
        (applyGeneratorFieldFlags ''__none__'' (json_form (GENERATOR_JSON_FIELDS ''repo''))) = []"
    and h: "gen_fields (applyGeneratorFieldFlags ''__none__'' (json_form (GENERATOR_JSON_FIELDS ''repo'')))
       = ''__none__''"
    using full by (simp_all add: json_form_selected k)
  have c: "gen_fields (syncGeneratorFieldsField (json_form [])) = ''__none__''"
    and d: "params_get (generator_params (syncGeneratorFieldsField (json_form []))) ''fields''
       = Some ''__none__''"
    using none by (simp_all add: json_form_selected k)
  have e: "gen_fields (syncGeneratorFieldsField (json_form [''stars'', ''forks''])) = ''stars,forks''"
    and f: "params_get (generator_params (syncGeneratorFieldsField (json_form [''stars'', ''forks''])))
        ''fields'' = Some ''stars,forks''"
    using some by (simp_all add: json_form_selected k n)
  show ?thesis
    by (intro conjI) (fact j, fact a, fact b, fact c, fact d, fact e, fact f, fact g, fact h)
qed

section \<open>Lemmas on the regular expressions\<close>

text \<open>The ways an expression matches, read as a relation between input, rest and groups.\<close>

lemma rx_in_Eps: "(r, cs) \<in> set (rx_run Eps s caps) \<longleftrightarrow> r = s \<and> cs = caps"
  by auto

lemma rx_in_One:
  "(r, cs) \<in> set (rx_run (One k) s caps) \<longleftrightarrow> (\<exists>c. s = c # r \<and> cls_match k c \<and> cs = caps)"
  by (cases s) auto

lemma rx_in_Then:
  "(r, cs) \<in> set (rx_run (Then a b) s caps)
   \<longleftrightarrow> (\<exists>r1 c1. (r1, c1) \<in> set (rx_run a s caps) \<and> (r, cs) \<in> set (rx_run b r1 c1))"
  by auto

lemma rx_in_Or:
  "(r, cs) \<in> set (rx_run (Or a b) s caps)
   \<longleftrightarrow> (r, cs) \<in> set (rx_run a s caps) \<or> (r, cs) \<in> set (rx_run b s caps)"
  by auto

lemma rx_in_Group:
  "(r, cs) \<in> set (rx_run (Group a) s caps)
   \<longleftrightarrow> (\<exists>c1. (r, c1) \<in> set (rx_run a s caps) \<and> cs = c1 @ [take (length s - length r) s])"
  by auto

lemma take_within_takeWhile:
  assumes "n \<le> length (takeWhile P s)"
  shows "list_all P (take n s)"
proof -
  have "take n s = take n (takeWhile P s @ dropWhile P s)"
    by simp
  also have "\<dots> = take n (takeWhile P s)"
    using assms by (simp del: takeWhile_dropWhile_id)
  finally have "set (take n s) \<subseteq> set (takeWhile P s)"
    by (simp add: set_take_subset)
  then show ?thesis
    by (auto simp: list_all_iff dest: set_takeWhileD)
qed

lemma rx_in_Plus:
  assumes "(r, cs) \<in> set (rx_run (Plus k) s caps)"
  shows "\<exists>p. s = p @ r \<and> p \<noteq> [] \<and> list_all (cls_match k) p \<and> cs = caps"
proof -
  from assms obtain n where n: "1 \<le> n" "n \<le> length (takeWhile (cls_match k) s)"
    and r: "r = drop n s" and cs: "cs = caps"
    by auto
  have le: "n \<le> length s"
    using n(2) length_takeWhile_le [of "cls_match k" s] by linarith
  have "s = take n s @ r" by (simp add: r)
  moreover have "take n s \<noteq> []" using n(1) le by auto
  moreover have "list_all (cls_match k) (take n s)"
    using n(2) by (rule take_within_takeWhile)
  ultimately show ?thesis using cs by blast
qed

lemma litsI_Cons: "litsI (c # w) = Then (One (LitI c)) (litsI w)" and litsI_Nil: "litsI [] = Eps"
  by (simp_all add: litsI_def)

lemma rx_in_litsI:
  "(r, cs) \<in> set (rx_run (litsI w) s caps)
   \<longleftrightarrow> (\<exists>p. s = p @ r \<and> length p = length w \<and> toLowerCase p = toLowerCase w) \<and> cs = caps"
proof (induction w arbitrary: s)
  case Nil
  show ?case by (auto simp: litsI_Nil)
next
  case (Cons c w)
  show ?case
  proof
    assume "(r, cs) \<in> set (rx_run (litsI (c # w)) s caps)"
    then obtain x r1 where s: "s = x # r1" and x: "lower_char x = lower_char c"
      and rest: "(r, cs) \<in> set (rx_run (litsI w) r1 caps)"
      unfolding litsI_Cons rx_in_Then rx_in_One by auto
    from rest obtain p where "r1 = p @ r" "length p = length w" "toLowerCase p = toLowerCase w"
      and cs: "cs = caps"
      unfolding Cons.IH by blast
    with s x have "s = (x # p) @ r \<and> length (x # p) = length (c # w)
        \<and> toLowerCase (x # p) = toLowerCase (c # w)"
      by (simp add: toLowerCase_def)
    with cs show "(\<exists>p. s = p @ r \<and> length p = length (c # w) \<and> toLowerCase p = toLowerCase (c # w))
        \<and> cs = caps"
      by blast
  next
    assume "(\<exists>p. s = p @ r \<and> length p = length (c # w) \<and> toLowerCase p = toLowerCase (c # w))
        \<and> cs = caps"
    then obtain p where p: "s = p @ r" "length p = length (c # w)"
      "toLowerCase p = toLowerCase (c # w)" and cs: "cs = caps"
      by blast
    from p(2) obtain x q where pq: "p = x # q" by (cases p) auto
    with p have "lower_char x = lower_char c" "length q = length w" "toLowerCase q = toLowerCase w"
      by (simp_all add: toLowerCase_def)
    then have "(r, cs) \<in> set (rx_run (litsI w) (q @ r) caps)"
      unfolding Cons.IH using cs by blast
    with pq p(1) \<open>lower_char x = lower_char c\<close>
    show "(r, cs) \<in> set (rx_run (litsI (c # w)) s caps)"
      unfolding litsI_Cons rx_in_Then rx_in_One by auto
  qed
qed

lemma seq_simps: "seq [] = Eps" "seq (a # as) = Then a (seq as)"
  by (simp_all add: seq_def)

lemma rx_full_Some:
  assumes "rx_full e s = Some cs"
  shows "([], cs) \<in> set (rx_run e s [])"
proof -
  from assms obtain rest alts
    where f: "filter (\<lambda>(rest, cs). rest = []) (rx_run e s []) = (rest, cs) # alts"
    by (auto simp: rx_full_def split: list.splits)
  then have "(rest, cs) \<in> set (filter (\<lambda>(rest, cs). rest = []) (rx_run e s []))"
    by simp
  then show ?thesis by auto
qed


lemma rx_in_Lit:
  "(r, cs) \<in> set (rx_run (One (Lit c)) s caps) \<longleftrightarrow> s = c # r \<and> cs = caps"
  unfolding rx_in_One by auto

lemma rx_in_Group_Plus:
  assumes "(r, cs) \<in> set (rx_run (Group (Plus k)) s caps)"
  shows "\<exists>p. s = p @ r \<and> p \<noteq> [] \<and> list_all (cls_match k) p \<and> cs = caps @ [p]"
proof -
  from assms obtain c1 where a: "(r, c1) \<in> set (rx_run (Plus k) s caps)"
    and cs: "cs = c1 @ [take (length s - length r) s]"
    unfolding rx_in_Group by blast
  from rx_in_Plus [OF a] obtain p where p: "s = p @ r" "p \<noteq> []" "list_all (cls_match k) p" "c1 = caps"
    by blast
  with cs have "cs = caps @ [p]" by simp
  with p show ?thesis by blast
qed

lemma rx_in_Group_words:
  assumes "(r, cs) \<in> set (rx_run (Group (Or (litsI w1) (litsI w2))) s caps)"
  shows "\<exists>p. s = p @ r \<and> (toLowerCase p = toLowerCase w1 \<or> toLowerCase p = toLowerCase w2)
             \<and> cs = caps @ [p]"
proof -
  from assms obtain c1
    where a: "(r, c1) \<in> set (rx_run (litsI w1) s caps) \<or> (r, c1) \<in> set (rx_run (litsI w2) s caps)"
    and cs: "cs = c1 @ [take (length s - length r) s]"
    unfolding rx_in_Group rx_in_Or by blast
  from a obtain p where p: "s = p @ r" "toLowerCase p = toLowerCase w1 \<or> toLowerCase p = toLowerCase w2"
    "c1 = caps"
    unfolding rx_in_litsI by blast
  with cs have "cs = caps @ [p]" by simp
  with p show ?thesis by blast
qed

lemma lower_words:
  "toLowerCase ''/api/stats/'' = ''/api/stats/''" "toLowerCase ''repo'' = ''repo''"
  "toLowerCase ''quality'' = ''quality''" "toLowerCase ''svg'' = ''svg''"
  "toLowerCase ''json'' = ''json''"
  by (simp_all add: toLowerCase_def lower_char_def)

text \<open>What a path name that matches the template of the stats interface looks like.\<close>

lemma stats_match_shape:
  assumes "rx_full statsMatch s = Some cs"
  shows "\<exists>a k ow rp fm.
           s = a @ k @ ''/'' @ ow @ ''/'' @ rp @ ''.'' @ fm
           \<and> toLowerCase a = ''/api/stats/''
           \<and> (toLowerCase k = ''repo'' \<or> toLowerCase k = ''quality'')
           \<and> ow \<noteq> [] \<and> CHR ''/'' \<notin> set ow
           \<and> rp \<noteq> [] \<and> CHR ''/'' \<notin> set rp \<and> CHR ''.'' \<notin> set rp
           \<and> (toLowerCase fm = ''svg'' \<or> toLowerCase fm = ''json'')
           \<and> cs = [k, ow, rp, fm]"
proof -
  from rx_full_Some [OF assms]
  obtain r1 c1 r2 c2 r3 c3 r4 c4 r5 c5 r6 c6 r7 c7 r8 c8 where
    m1: "(r1, c1) \<in> set (rx_run (litsI ''/api/stats/'') s [])" and
    m2: "(r2, c2) \<in> set (rx_run (Group (Or (litsI ''repo'') (litsI ''quality''))) r1 c1)" and
    m3: "(r3, c3) \<in> set (rx_run (One (Lit CHR ''/'')) r2 c2)" and
    m4: "(r4, c4) \<in> set (rx_run (Group (Plus (NoneOf ''/''))) r3 c3)" and
    m5: "(r5, c5) \<in> set (rx_run (One (Lit CHR ''/'')) r4 c4)" and
    m6: "(r6, c6) \<in> set (rx_run (Group (Plus (NoneOf ''/.''))) r5 c5)" and
    m7: "(r7, c7) \<in> set (rx_run (One (Lit CHR ''.'')) r6 c6)" and
    m8: "(r8, c8) \<in> set (rx_run (Group (Or (litsI ''svg'') (litsI ''json''))) r7 c7)" and
    m9: "([], cs) \<in> set (rx_run Eps r8 c8)"
    unfolding statsMatch_def seq_simps rx_in_Then by blast
  from m1 obtain a where a: "s = a @ r1" "toLowerCase a = ''/api/stats/''" "c1 = []"
    unfolding rx_in_litsI lower_words by blast
  from rx_in_Group_words [OF m2] obtain k
    where k: "r1 = k @ r2" "toLowerCase k = ''repo'' \<or> toLowerCase k = ''quality''" "c2 = c1 @ [k]"
    unfolding lower_words by blast
  from m3 have s3: "r2 = CHR ''/'' # r3" "c3 = c2"
    unfolding rx_in_Lit by simp_all
  from rx_in_Group_Plus [OF m4] obtain ow
    where ow: "r3 = ow @ r4" "ow \<noteq> []" "list_all (cls_match (NoneOf ''/'')) ow" "c4 = c3 @ [ow]"
    by blast
  from m5 have s5: "r4 = CHR ''/'' # r5" "c5 = c4"
    unfolding rx_in_Lit by simp_all
  from rx_in_Group_Plus [OF m6] obtain rp
    where rp: "r5 = rp @ r6" "rp \<noteq> []" "list_all (cls_match (NoneOf ''/.'')) rp" "c6 = c5 @ [rp]"
    by blast
  from m7 have s7: "r6 = CHR ''.'' # r7" "c7 = c6"
    unfolding rx_in_Lit by simp_all
  from rx_in_Group_words [OF m8] obtain fm
    where fm: "r7 = fm @ r8" "toLowerCase fm = ''svg'' \<or> toLowerCase fm = ''json''" "c8 = c7 @ [fm]"
    unfolding lower_words by blast
  from m9 have s9: "r8 = []" "cs = c8"
    by simp_all
  have "s = a @ k @ ''/'' @ ow @ ''/'' @ rp @ ''.'' @ fm"
    by (simp add: a k s3 ow s5 rp s7 fm s9)
  moreover have "cs = [k, ow, rp, fm]"
    by (simp add: a k s3 ow s5 rp s7 fm s9)
  moreover have "CHR ''/'' \<notin> set ow" "CHR ''/'' \<notin> set rp" "CHR ''.'' \<notin> set rp"
    using ow(3) rp(3) by (auto simp: list_all_iff)
  ultimately show ?thesis
    using a(2) k(2) ow(2) rp(2) fm(2) by blast
qed

section \<open>Properties of the import: kind and format\<close>

lemma api_parsed_Some:
  assumes "owner \<noteq> []" "repo \<noteq> []"
  shows "\<exists>p. api_parsed params owner repo kind format = Some p
             \<and> p_owner p = owner \<and> p_repo p = repo
             \<and> p_kind p = Some (if kind = ''quality'' then ''quality'' else ''repo'')
             \<and> p_format p = Some (if format = ''json'' then ''json'' else ''svg'')"
  using assms by (simp add: api_parsed_def)

lemma api_parsed_kind:
  assumes "api_parsed params owner repo kind format = Some p"
  shows "p_kind p = Some (if kind = ''quality'' then ''quality'' else ''repo'')
         \<and> p_format p = Some (if format = ''json'' then ''json'' else ''svg'')"
  using assms by (auto simp: api_parsed_def split: if_splits)

lemma path_import_Some:
  assumes "path_import u = Inr (Some p)"
  shows "\<exists>a k ow rp fm.
           pathname u = a @ k @ ''/'' @ ow @ ''/'' @ rp @ ''.'' @ fm
           \<and> toLowerCase a = ''/api/stats/''
           \<and> (toLowerCase k = ''repo'' \<or> toLowerCase k = ''quality'')
           \<and> (toLowerCase fm = ''svg'' \<or> toLowerCase fm = ''json'')
           \<and> CHR ''.'' \<notin> set rp
           \<and> p_kind p = Some (toLowerCase k) \<and> p_format p = Some (toLowerCase fm)"
proof -
  from assms obtain cs where m: "rx_full statsMatch (pathname u) = Some cs"
    by (cases "rx_full statsMatch (pathname u)") (auto simp: path_import_def)
  from stats_match_shape [OF m] obtain a k ow rp fm where
    sh: "pathname u = a @ k @ ''/'' @ ow @ ''/'' @ rp @ ''.'' @ fm"
      "toLowerCase a = ''/api/stats/''"
      "toLowerCase k = ''repo'' \<or> toLowerCase k = ''quality''"
      "toLowerCase fm = ''svg'' \<or> toLowerCase fm = ''json''"
      "CHR ''.'' \<notin> set rp"
    and cs: "cs = [k, ow, rp, fm]"
    by blast
  from assms m cs obtain owner repo where
    "api_parsed (searchParams u) owner (strip_git repo) (toLowerCase k) (toLowerCase fm) = Some p"
    by (auto simp: path_import_def split: sum.splits)
  from api_parsed_kind [OF this] sh(3,4)
  have "p_kind p = Some (toLowerCase k) \<and> p_format p = Some (toLowerCase fm)"
    by auto
  with sh show ?thesis by blast
qed

text \<open>
  Claim C10, as amended. In the request shape an unknown kind becomes \<open>repo\<close> and an
  unknown format \<open>svg\<close>, and neither value can make the import fail: with an owner and
  a repository that are not blank the import succeeds. In the path shape the template
  itself admits only the kinds \<open>repo\<close> and \<open>quality\<close> and the formats \<open>svg\<close> and \<open>json\<close>
  (in any letter case): a successful import has one of them in its path, and a path
  that does not match the template gives no import of this shape.
\<close>

theorem unknown_kind_and_format:
  assumes "extractGeneratorImportUrl v \<noteq> []" and "U (extractGeneratorImportUrl v) = Some u"
  shows "(request_shaped u
            \<and> trim (param_or (params_get (searchParams u) ''owner'') []) \<noteq> []
            \<and> strip_git (trim (param_or (params_get (searchParams u) ''repo'') [])) \<noteq> [] \<longrightarrow>
          (\<exists>p. parseGeneratorImport U v = Inr (Some p)
               \<and> parseApiImport U v = Inr (Some (p \<lparr> p_fields := None \<rparr>))
               \<and> p_kind p = Some (if toLowerCase (trim (param_or (params_get (searchParams u) ''kind'')
                                                          ''repo'')) = ''quality''
                                  then ''quality'' else ''repo'')
               \<and> p_format p = Some (if toLowerCase (trim (param_or (params_get (searchParams u) ''format'')
                                                            ''svg'')) = ''json''
                                    then ''json'' else ''svg'')))
       \<and> (\<not> request_shaped u \<longrightarrow>
           (\<forall>p. parseGeneratorApiImport U v = Inr (Some p) \<longrightarrow>
              (\<exists>a k ow rp fm.
                 pathname u = a @ k @ ''/'' @ ow @ ''/'' @ rp @ ''.'' @ fm
                 \<and> toLowerCase a = ''/api/stats/''
                 \<and> (toLowerCase k = ''repo'' \<or> toLowerCase k = ''quality'')
                 \<and> (toLowerCase fm = ''svg'' \<or> toLowerCase fm = ''json'')
                 \<and> p_kind p = Some (toLowerCase k) \<and> p_format p = Some (toLowerCase fm))))
       \<and> (\<not> request_shaped u \<and> rx_full statsMatch (pathname u) = None \<longrightarrow>
           parseGeneratorApiImport U v = Inr None \<and> parseApiImport U v = Inr None)"
proof (intro conjI impI allI)
  assume a: "request_shaped u
            \<and> trim (param_or (params_get (searchParams u) ''owner'') []) \<noteq> []
            \<and> strip_git (trim (param_or (params_get (searchParams u) ''repo'') [])) \<noteq> []"
  have api: "parseGeneratorApiImport U v = Inr (request_import u)"
    using assms a by (simp add: parseGeneratorApiImport_def Let_def)
  from a api_parsed_Some obtain p where
    p: "request_import u = Some p"
      "p_kind p = Some (if toLowerCase (trim (param_or (params_get (searchParams u) ''kind'')
                                                          ''repo'')) = ''quality''
                                  then ''quality'' else ''repo'')"
      "p_format p = Some (if toLowerCase (trim (param_or (params_get (searchParams u) ''format'')
                                                            ''svg'')) = ''json''
                                    then ''json'' else ''svg'')"
    unfolding request_import_def Let_def by blast
  have "parseGeneratorImport U v = Inr (Some p)"
    by (simp add: parseGeneratorImport_def api p(1))
  moreover have "parseApiImport U v = Inr (Some (p \<lparr> p_fields := None \<rparr>))"
    by (simp add: parseApiImport_def api p(1))
  ultimately show "\<exists>p. parseGeneratorImport U v = Inr (Some p)
               \<and> parseApiImport U v = Inr (Some (p \<lparr> p_fields := None \<rparr>))
               \<and> p_kind p = Some (if toLowerCase (trim (param_or (params_get (searchParams u) ''kind'')
                                                          ''repo'')) = ''quality''
                                  then ''quality'' else ''repo'')
               \<and> p_format p = Some (if toLowerCase (trim (param_or (params_get (searchParams u) ''format'')
                                                            ''svg'')) = ''json''
                                    then ''json'' else ''svg'')"
    using p(2,3) by blast
next
  fix p
  assume n: "\<not> request_shaped u" and s: "parseGeneratorApiImport U v = Inr (Some p)"
  have "parseGeneratorApiImport U v = path_import u"
    using assms n by (simp add: parseGeneratorApiImport_def Let_def)
  with s have "path_import u = Inr (Some p)" by simp
  from path_import_Some [OF this]
  show "\<exists>a k ow rp fm.
                 pathname u = a @ k @ ''/'' @ ow @ ''/'' @ rp @ ''.'' @ fm
                 \<and> toLowerCase a = ''/api/stats/''
                 \<and> (toLowerCase k = ''repo'' \<or> toLowerCase k = ''quality'')
                 \<and> (toLowerCase fm = ''svg'' \<or> toLowerCase fm = ''json'')
                 \<and> p_kind p = Some (toLowerCase k) \<and> p_format p = Some (toLowerCase fm)"
    by blast
next
  assume n: "\<not> request_shaped u \<and> rx_full statsMatch (pathname u) = None"
  then have api: "parseGeneratorApiImport U v = Inr None"
    using assms by (simp add: parseGeneratorApiImport_def Let_def path_import_def)
  then show "parseGeneratorApiImport U v = Inr None" .
  from api show "parseApiImport U v = Inr None"
    by (simp add: parseApiImport_def)
qed


lemmas regex_eval = rx_full_def seq_def lits_def litsI_def lower_char_def is_space_def

lemmas extract_eval = extractGeneratorImportUrl_def mdAngle_def mdPlain_def strip_angles_def
  trim_def seq_def lits_def is_space_def Let_def

lemmas url_eval = host_URL_def scheme_of_def after_authority_def url_tail_def normal_path_def
  path_escape_def parse_query_def form_decode_def is_single_dot_def is_double_dot_def
  is_host_char_def is_alnum_def is_digit_def is_slash_def is_hex_def digits_val_def digit_val_def
  toLowerCase_def lower_char_def percent_encode_def hex2_def Let_def

lemma banana_request_url:
  "extractGeneratorImportUrl banana_request = banana_request"
  "host_URL banana_request
   = Some \<lparr> pathname = ''/api'',
            searchParams = [(''owner'', ''acme''), (''repo'', ''widgets''), (''kind'', ''banana''),
                            (''format'', ''pdf'')] \<rparr>"
  by (simp_all add: banana_request_def extract_eval url_eval)

lemma banana_path_url:
  "extractGeneratorImportUrl banana_path = banana_path"
  "host_URL banana_path = Some \<lparr> pathname = banana_path, searchParams = [] \<rparr>"
  "rx_full statsMatch banana_path = None"
  "github_import banana_path = None"
  "short_import banana_path = None"
  by (simp_all add: banana_path_def extract_eval url_eval statsMatch_def urlMatch_def
        shortMatch_def github_import_def short_import_def regex_eval)


text \<open>A request with the kind \<open>banana\<close> and the format \<open>pdf\<close> imports as a repository SVG card.\<close>

theorem unknown_kind_and_format_witness:
  "extractGeneratorImportUrl banana_request \<noteq> []
   \<and> (\<exists>p. parseGeneratorImport host_URL banana_request = Inr (Some p)
          \<and> parseApiImport host_URL banana_request = Inr (Some (p \<lparr> p_fields := None \<rparr>))
          \<and> p_kind p = Some ''repo'' \<and> p_format p = Some ''svg'')"
proof -
  let ?u = "\<lparr> pathname = ''/api'',
            searchParams = [(''owner'', ''acme''), (''repo'', ''widgets''), (''kind'', ''banana''),
                            (''format'', ''pdf'')] \<rparr>"
  have ne: "extractGeneratorImportUrl banana_request \<noteq> []"
    by (simp add: banana_request_url) (simp add: banana_request_def)
  have u: "host_URL (extractGeneratorImportUrl banana_request) = Some ?u"
    by (simp add: banana_request_url)
  have pre: "request_shaped ?u
            \<and> trim (param_or (params_get (searchParams ?u) ''owner'') []) \<noteq> []
            \<and> strip_git (trim (param_or (params_get (searchParams ?u) ''repo'') [])) \<noteq> []"
    by (simp add: request_shaped_def truthy_def params_get_def param_or_def trim_def is_space_def
          strip_git_def toLowerCase_def lower_char_def)
  have k: "toLowerCase (trim (param_or (params_get (searchParams ?u) ''kind'') ''repo'')) \<noteq> ''quality''"
    and f: "toLowerCase (trim (param_or (params_get (searchParams ?u) ''format'') ''svg'')) \<noteq> ''json''"
    by (simp_all add: params_get_def param_or_def trim_def is_space_def toLowerCase_def lower_char_def)
  from unknown_kind_and_format [where U = host_URL, OF ne u] pre k f
  have "\<exists>p. parseGeneratorImport host_URL banana_request = Inr (Some p)
          \<and> parseApiImport host_URL banana_request = Inr (Some (p \<lparr> p_fields := None \<rparr>))
          \<and> p_kind p = Some ''repo'' \<and> p_format p = Some ''svg''"
    by (simp only: if_False) blast
  with ne show ?thesis by (rule conjI)
qed

text \<open>
  Claim C10 as stated fails in the path shape: the kind \<open>banana\<close> is not coerced to
  \<open>repo\<close>; the path does not match the template and the import fails.
\<close>

theorem unknown_kind_in_path_fails:
  "parseGeneratorImport host_URL banana_path = Inr None
   \<and> parseApiImport host_URL banana_path = Inr None"
proof -
  have ne: "extractGeneratorImportUrl banana_path \<noteq> []"
    by (simp add: banana_path_url) (simp add: banana_path_def)
  have n: "\<not> request_shaped \<lparr> pathname = banana_path, searchParams = [] \<rparr>"
    by (simp add: request_shaped_def truthy_def params_get_def)
  have api: "parseGeneratorApiImport host_URL banana_path = Inr None"
    using ne n by (simp add: parseGeneratorApiImport_def banana_path_url path_import_def)
  have "parseGeneratorImport host_URL banana_path = Inr None"
    using ne by (simp add: parseGeneratorImport_def api banana_path_url)
  moreover have "parseApiImport host_URL banana_path = Inr None"
    by (simp add: parseApiImport_def api)
  ultimately show ?thesis by (rule conjI)
qed

section \<open>Properties of the import: the order of the shapes\<close>

lemma repo_only_kind:
  "repo_only ow rp = Some p \<Longrightarrow> p_kind p = None \<and> p_format p = None"
  by (auto simp: repo_only_def split: if_splits)

lemma later_shapes_carry_no_kind:
  assumes "github_import i = Some (Some p) \<or> short_import i = Some (Some p)"
  shows "p_kind p = None"
  using assms
  by (auto simp: github_import_def short_import_def split: option.splits list.splits
      dest: repo_only_kind)

lemma api_import_carries_kind:
  assumes "parseGeneratorApiImport U v = Inr (Some p)"
  shows "p_kind p \<noteq> None"
proof -
  from assms obtain u where "request_import u = Some p \<or> path_import u = Inr (Some p)"
    by (auto simp: parseGeneratorApiImport_def Let_def split: if_splits option.splits)
  then show ?thesis
  proof
    assume "request_import u = Some p"
    then show ?thesis
      by (auto simp: request_import_def Let_def dest: api_parsed_kind)
  next
    assume "path_import u = Inr (Some p)"
    from path_import_Some [OF this] show ?thesis by auto
  qed
qed

lemma request_import_Some:
  assumes "trim (param_or (params_get (searchParams u) ''owner'') []) \<noteq> []"
    and "strip_git (trim (param_or (params_get (searchParams u) ''repo'') [])) \<noteq> []"
  shows "\<exists>p. request_import u = Some p
             \<and> p_owner p = trim (param_or (params_get (searchParams u) ''owner'') [])
             \<and> p_repo p = strip_git (trim (param_or (params_get (searchParams u) ''repo'') []))
             \<and> p_kind p \<noteq> None"
  using api_parsed_Some [OF assms] by (simp add: request_import_def Let_def) fastforce

lemma request_import_None:
  assumes "request_import u = None"
  shows "trim (param_or (params_get (searchParams u) ''owner'') []) = []
         \<or> strip_git (trim (param_or (params_get (searchParams u) ''repo'') [])) = []"
  using assms by (simp add: request_import_def Let_def api_parsed_def split: if_splits)

lemma path_import_result:
  assumes "rx_full statsMatch (pathname u) = Some [k, ow, rp, fm]"
    and "decodeURIComponent ow = Inr owner" and "decodeURIComponent rp = Inr repo"
    and "owner \<noteq> []" and "strip_git repo \<noteq> []"
  shows "\<exists>p. path_import u = Inr (Some p) \<and> p_owner p = owner \<and> p_repo p = strip_git repo
             \<and> p_kind p \<noteq> None"
  using assms api_parsed_Some [of owner "strip_git repo" "searchParams u" "toLowerCase k" "toLowerCase fm"]
  by (simp add: path_import_def) fastforce

lemma path_import_None:
  assumes "path_import u = Inr None"
  shows "rx_full statsMatch (pathname u) = None
         \<or> (\<exists>k ow rp fm owner repo.
               rx_full statsMatch (pathname u) = Some [k, ow, rp, fm]
               \<and> decodeURIComponent ow = Inr owner \<and> decodeURIComponent rp = Inr repo
               \<and> (owner = [] \<or> strip_git repo = []))"
proof (cases "rx_full statsMatch (pathname u)")
  case None
  then show ?thesis by simp
next
  case (Some cs)
  from stats_match_shape [OF Some] obtain k ow rp fm where cs: "cs = [k, ow, rp, fm]"
    by blast
  from assms Some cs obtain owner repo where
    d: "decodeURIComponent ow = Inr owner" "decodeURIComponent rp = Inr repo"
    and n: "api_parsed (searchParams u) owner (strip_git repo) (toLowerCase k) (toLowerCase fm) = None"
    by (auto simp: path_import_def split: sum.splits)
  from n have "owner = [] \<or> strip_git repo = []"
    by (simp add: api_parsed_def split: if_splits)
  with Some cs d show ?thesis by blast
qed

lemma later_shape_only_after_null:
  assumes "parseGeneratorImport U v = Inr (Some p)" and "p_kind p = None"
  shows "parseGeneratorApiImport U v = Inr None"
proof (cases "parseGeneratorApiImport U v")
  case (Inl e)
  with assms show ?thesis by (simp add: parseGeneratorImport_def)
next
  case (Inr r)
  show ?thesis
  proof (cases r)
    case None
    with Inr show ?thesis by simp
  next
    case (Some q)
    with Inr have "parseGeneratorApiImport U v = Inr (Some q)" by simp
    from api_import_carries_kind [OF this] assms Inr Some show ?thesis
      by (simp add: parseGeneratorImport_def)
  qed
qed

text \<open>
  Claim C2, as amended. For a reference that the address parser accepts:
  when it has an \<open>owner\<close> and a \<open>repo\<close> search parameter and both name something
  after trimming, the import is the request reading, whatever the path and whatever
  the later patterns would make of the text; when it is not request-shaped and its
  path matches the template with an owner and a repository, the import is the path
  reading. An import of a later shape (one without a kind) is the GitHub reading when
  the GitHub pattern matches and the shorthand reading only when it does not, and
  it arises only when the earlier shape gave nothing: a request-shaped reference
  whose owner or repository is blank (its path is then not tried against the
  template), or a path that does not match the template or whose repository segment
  is empty once \<open>.git\<close> is removed.
\<close>

theorem import_shape_priority:
  assumes "extractGeneratorImportUrl v = i" and "i \<noteq> []" and "U i = Some u"
  shows "(request_shaped u
            \<and> trim (param_or (params_get (searchParams u) ''owner'') []) \<noteq> []
            \<and> strip_git (trim (param_or (params_get (searchParams u) ''repo'') [])) \<noteq> [] \<longrightarrow>
          (\<exists>p. parseGeneratorImport U v = Inr (Some p)
               \<and> p_owner p = trim (param_or (params_get (searchParams u) ''owner'') [])
               \<and> p_repo p = strip_git (trim (param_or (params_get (searchParams u) ''repo'') []))
               \<and> p_kind p \<noteq> None))
         \<and> (\<not> request_shaped u \<longrightarrow>
              (\<forall>k ow rp fm owner repo.
                 rx_full statsMatch (pathname u) = Some [k, ow, rp, fm]
                 \<and> decodeURIComponent ow = Inr owner \<and> decodeURIComponent rp = Inr repo
                 \<and> owner \<noteq> [] \<and> strip_git repo \<noteq> [] \<longrightarrow>
                 (\<exists>p. parseGeneratorImport U v = Inr (Some p)
                      \<and> p_owner p = owner \<and> p_repo p = strip_git repo \<and> p_kind p \<noteq> None)))
         \<and> (\<forall>p. parseGeneratorImport U v = Inr (Some p) \<and> p_kind p = None \<longrightarrow>
              (github_import i = Some (Some p)
               \<or> github_import i = None \<and> short_import i = Some (Some p))
              \<and> (if request_shaped u
                  then trim (param_or (params_get (searchParams u) ''owner'') []) = []
                       \<or> strip_git (trim (param_or (params_get (searchParams u) ''repo'') [])) = []
                  else rx_full statsMatch (pathname u) = None
                       \<or> (\<exists>k ow rp fm owner repo.
                             rx_full statsMatch (pathname u) = Some [k, ow, rp, fm]
                             \<and> decodeURIComponent ow = Inr owner
                             \<and> decodeURIComponent rp = Inr repo
                             \<and> (owner = [] \<or> strip_git repo = []))))"
proof (intro conjI impI allI)
  have api: "parseGeneratorApiImport U v
             = (if request_shaped u then Inr (request_import u) else path_import u)"
    using assms by (simp add: parseGeneratorApiImport_def Let_def)
  have via_api: "parseGeneratorImport U v = Inr (Some p)"
    if "parseGeneratorApiImport U v = Inr (Some p)" for p
    using that by (simp add: parseGeneratorImport_def)
  {
    assume a: "request_shaped u
            \<and> trim (param_or (params_get (searchParams u) ''owner'') []) \<noteq> []
            \<and> strip_git (trim (param_or (params_get (searchParams u) ''repo'') [])) \<noteq> []"
    then obtain p where p: "request_import u = Some p"
      "p_owner p = trim (param_or (params_get (searchParams u) ''owner'') [])"
      "p_repo p = strip_git (trim (param_or (params_get (searchParams u) ''repo'') []))"
      "p_kind p \<noteq> None"
      using request_import_Some [of u] by blast
    from a p(1) have "parseGeneratorApiImport U v = Inr (Some p)"
      by (simp add: api)
    from via_api [OF this] p(2-4)
    show "\<exists>p. parseGeneratorImport U v = Inr (Some p)
               \<and> p_owner p = trim (param_or (params_get (searchParams u) ''owner'') [])
               \<and> p_repo p = strip_git (trim (param_or (params_get (searchParams u) ''repo'') []))
               \<and> p_kind p \<noteq> None"
      by blast
  }
  {
    fix k ow rp fm owner repo
    assume n: "\<not> request_shaped u"
      and m: "rx_full statsMatch (pathname u) = Some [k, ow, rp, fm]
                 \<and> decodeURIComponent ow = Inr owner \<and> decodeURIComponent rp = Inr repo
                 \<and> owner \<noteq> [] \<and> strip_git repo \<noteq> []"
    then obtain p where p: "path_import u = Inr (Some p)" "p_owner p = owner"
      "p_repo p = strip_git repo" "p_kind p \<noteq> None"
      using path_import_result [of u k ow rp fm owner repo] by blast
    from n p(1) have "parseGeneratorApiImport U v = Inr (Some p)"
      by (simp add: api)
    from via_api [OF this] p(2-4)
    show "\<exists>p. parseGeneratorImport U v = Inr (Some p)
                      \<and> p_owner p = owner \<and> p_repo p = strip_git repo \<and> p_kind p \<noteq> None"
      by blast
  }
  {
    fix p
    assume a: "parseGeneratorImport U v = Inr (Some p) \<and> p_kind p = None"
    then have null: "parseGeneratorApiImport U v = Inr None"
      using later_shape_only_after_null by blast
    with a assms(1,2)
    show "github_import i = Some (Some p)
               \<or> github_import i = None \<and> short_import i = Some (Some p)"
      by (auto simp: parseGeneratorImport_def Let_def split: option.splits)
    show "if request_shaped u
                  then trim (param_or (params_get (searchParams u) ''owner'') []) = []
                       \<or> strip_git (trim (param_or (params_get (searchParams u) ''repo'') [])) = []
                  else rx_full statsMatch (pathname u) = None
                       \<or> (\<exists>k ow rp fm owner repo.
                             rx_full statsMatch (pathname u) = Some [k, ow, rp, fm]
                             \<and> decodeURIComponent ow = Inr owner
                             \<and> decodeURIComponent rp = Inr repo
                             \<and> (owner = [] \<or> strip_git repo = []))"
    proof (cases "request_shaped u")
      case True
      with null have "request_import u = None" by (simp add: api)
      from request_import_None [OF this] True show ?thesis by simp
    next
      case False
      with null have "path_import u = Inr None" by (simp add: api)
      from path_import_None [OF this] False show ?thesis by simp
    qed
  }
qed


lemmas import_eval = request_shaped_def truthy_def params_get_def param_or_def request_import_def
  path_import_def api_parsed_def strip_git_def github_import_def short_import_def repo_only_def
  statsMatch_def urlMatch_def shortMatch_def decodeURIComponent_def item_char_def
  List.map_filter_def GENERATOR_THEME_KEYS_def normalizeHexColor_def HEX_COLOR_RE_def
  trim_def is_space_def

lemma github_with_query_url:
  "extractGeneratorImportUrl github_with_query = github_with_query"
  "host_URL github_with_query
   = Some \<lparr> pathname = ''/acme/widgets'',
            searchParams = [(''owner'', ''octo''), (''repo'', ''cat'')] \<rparr>"
  "\<exists>q. github_import github_with_query = Some (Some q) \<and> p_owner q = ''acme''"
  by (simp_all add: github_with_query_def extract_eval url_eval import_eval regex_eval)

lemma stats_path_with_query_url:
  "extractGeneratorImportUrl stats_path_with_query = stats_path_with_query"
  "host_URL stats_path_with_query
   = Some \<lparr> pathname = ''/api/stats/quality/acme/widgets.json'',
            searchParams = [(''owner'', ''octo''), (''repo'', ''cat'')] \<rparr>"
  "\<exists>q. path_import \<lparr> pathname = ''/api/stats/quality/acme/widgets.json'',
                      searchParams = [(''owner'', ''octo''), (''repo'', ''cat'')] \<rparr>
       = Inr (Some q) \<and> p_owner q = ''acme'' \<and> p_kind q = Some ''quality''"
  by (simp_all add: stats_path_with_query_def extract_eval url_eval import_eval regex_eval)

lemma stats_path_on_github_url:
  "extractGeneratorImportUrl stats_path_on_github = stats_path_on_github"
  "host_URL stats_path_on_github
   = Some \<lparr> pathname = ''/api/stats/repo/acme/widgets.svg'', searchParams = [] \<rparr>"
  "\<exists>q. github_import stats_path_on_github = Some (Some q) \<and> p_owner q = ''api''
       \<and> p_repo q = ''stats''"
  "\<exists>p. path_import \<lparr> pathname = ''/api/stats/repo/acme/widgets.svg'', searchParams = [] \<rparr>
       = Inr (Some p) \<and> p_owner p = ''acme'' \<and> p_repo p = ''widgets''"
  by (simp_all add: stats_path_on_github_def extract_eval url_eval import_eval regex_eval)

lemma github_address_url:
  "extractGeneratorImportUrl github_address = github_address"
  "host_URL github_address = Some \<lparr> pathname = ''/acme/widgets'', searchParams = [] \<rparr>"
  "path_import \<lparr> pathname = ''/acme/widgets'', searchParams = [] \<rparr> = Inr None"
  "github_import github_address = Some (repo_only ''acme'' ''widgets'')"
  by (simp_all add: github_address_def extract_eval url_eval import_eval regex_eval)

lemma shorthand_url:
  "extractGeneratorImportUrl shorthand = shorthand"
  "host_URL shorthand = Some \<lparr> pathname = ''/acme/widgets'', searchParams = [] \<rparr>"
  "github_import shorthand = None"
  "short_import shorthand = Some (repo_only ''acme'' ''widgets'')"
  by (simp_all add: shorthand_def extract_eval url_eval import_eval regex_eval)

lemma blank_owner_request_url:
  "extractGeneratorImportUrl blank_owner_request = blank_owner_request"
  "host_URL blank_owner_request
   = Some \<lparr> pathname = ''/acme/widgets'',
            searchParams = [(''owner'', '' ''), (''repo'', ''x'')] \<rparr>"
  "github_import blank_owner_request = Some (repo_only ''acme'' ''widgets'')"
  by (simp_all add: blank_owner_request_def extract_eval url_eval import_eval regex_eval
        char_of_def bit_simps)

lemma git_suffix_path_url:
  "extractGeneratorImportUrl git_suffix_path = git_suffix_path"
  "host_URL git_suffix_path
   = Some \<lparr> pathname = ''/api/stats/repo/acme/%2Egit.svg'', searchParams = [] \<rparr>"
  "rx_full statsMatch ''/api/stats/repo/acme/%2Egit.svg''
   = Some [''repo'', ''acme'', ''%2Egit'', ''svg'']"
  "path_import \<lparr> pathname = ''/api/stats/repo/acme/%2Egit.svg'', searchParams = [] \<rparr>
   = Inr None"
  "github_import git_suffix_path = Some (repo_only ''api'' ''stats'')"
  by (simp_all add: git_suffix_path_def extract_eval url_eval import_eval regex_eval
        char_of_def bit_simps toLowerCase_def lower_char_def)

lemma github_address_short:
  "short_import github_address = None"
  by (simp add: github_address_def import_eval regex_eval)

text \<open>
  A reference that is both request-shaped and a GitHub address is read as a request;
  one that is both path-shaped and a GitHub address is read by its path; a GitHub
  address that matches no earlier shape is read by the GitHub pattern.
\<close>

theorem import_shape_priority_witness:
  "(\<exists>p q. parseGeneratorImport host_URL github_with_query = Inr (Some p)
           \<and> p_owner p = ''octo'' \<and> p_repo p = ''cat'' \<and> p_kind p \<noteq> None
           \<and> github_import (extractGeneratorImportUrl github_with_query) = Some (Some q)
           \<and> p_owner q = ''acme'')
   \<and> (\<exists>p q. parseGeneratorImport host_URL stats_path_on_github = Inr (Some p)
           \<and> p_owner p = ''acme'' \<and> p_repo p = ''widgets'' \<and> p_kind p \<noteq> None
           \<and> github_import (extractGeneratorImportUrl stats_path_on_github) = Some (Some q)
           \<and> p_owner q = ''api'' \<and> p_repo q = ''stats'')
   \<and> parseGeneratorImport host_URL github_address = Inr (repo_only ''acme'' ''widgets'')
   \<and> github_import github_address = Some (repo_only ''acme'' ''widgets'')"
proof -
  let ?rq = "\<lparr> pathname = ''/acme/widgets'',
               searchParams = [(''owner'', ''octo''), (''repo'', ''cat'')] \<rparr>"
  let ?pg = "\<lparr> pathname = ''/api/stats/repo/acme/widgets.svg'', searchParams = [] \<rparr>"
  let ?gh = "\<lparr> pathname = ''/acme/widgets'', searchParams = [] \<rparr>"
  have rq: "request_shaped ?rq"
    "trim (param_or (params_get (searchParams ?rq) ''owner'') []) = ''octo''"
    "strip_git (trim (param_or (params_get (searchParams ?rq) ''repo'') [])) = ''cat''"
    by (simp_all add: import_eval toLowerCase_def lower_char_def)
  have ne1: "github_with_query \<noteq> []" by (simp add: github_with_query_def)
  from import_shape_priority [where U = host_URL, OF github_with_query_url(1) ne1
      github_with_query_url(2)] rq
  have "\<exists>p. parseGeneratorImport host_URL github_with_query = Inr (Some p)
            \<and> p_owner p = ''octo'' \<and> p_repo p = ''cat'' \<and> p_kind p \<noteq> None"
    by simp
  with github_with_query_url(3) have one: "\<exists>p q.
      parseGeneratorImport host_URL github_with_query = Inr (Some p)
      \<and> p_owner p = ''octo'' \<and> p_repo p = ''cat'' \<and> p_kind p \<noteq> None
      \<and> github_import (extractGeneratorImportUrl github_with_query) = Some (Some q)
      \<and> p_owner q = ''acme''"
    by (simp only: github_with_query_url(1)) blast

  have pg: "\<not> request_shaped ?pg"
    "rx_full statsMatch (pathname ?pg) = Some [''repo'', ''acme'', ''widgets'', ''svg'']"
    "decodeURIComponent ''acme'' = Inr ''acme''" "decodeURIComponent ''widgets'' = Inr ''widgets''"
    "strip_git ''widgets'' = ''widgets''"
    by (simp_all add: import_eval regex_eval toLowerCase_def)
  have ne2: "stats_path_on_github \<noteq> []" by (simp add: stats_path_on_github_def)
  from import_shape_priority [where U = host_URL, OF stats_path_on_github_url(1) ne2
      stats_path_on_github_url(2)] pg
  have "\<exists>p. parseGeneratorImport host_URL stats_path_on_github = Inr (Some p)
            \<and> p_owner p = ''acme'' \<and> p_repo p = ''widgets'' \<and> p_kind p \<noteq> None"
    by fastforce
  with stats_path_on_github_url(3) have two: "\<exists>p q.
      parseGeneratorImport host_URL stats_path_on_github = Inr (Some p)
      \<and> p_owner p = ''acme'' \<and> p_repo p = ''widgets'' \<and> p_kind p \<noteq> None
      \<and> github_import (extractGeneratorImportUrl stats_path_on_github) = Some (Some q)
      \<and> p_owner q = ''api'' \<and> p_repo q = ''stats''"
    by (simp only: stats_path_on_github_url(1)) blast

  have ne3: "github_address \<noteq> []" by (simp add: github_address_def)
  have gh: "\<not> request_shaped ?gh"
    by (simp add: import_eval)
  then have "parseGeneratorApiImport host_URL github_address = Inr None"
    using ne3 by (simp add: parseGeneratorApiImport_def github_address_url)
  with ne3 have three:
    "parseGeneratorImport host_URL github_address = Inr (repo_only ''acme'' ''widgets'')"
    by (simp add: parseGeneratorImport_def github_address_url)
  obtain p where p: "repo_only ''acme'' ''widgets'' = Some p" "p_kind p = None"
    by (simp add: repo_only_def)
  from import_shape_priority [where U = host_URL, OF github_address_url(1) ne3
      github_address_url(2)] three p
  have "github_import github_address = Some (Some p)
        \<or> github_import github_address = None \<and> short_import github_address = Some (Some p)"
    by simp
  then have four: "github_import github_address = Some (repo_only ''acme'' ''widgets'')"
    by (simp add: github_address_short p(1))
  from one two three four show ?thesis
    by (intro conjI)
qed

text \<open>
  Claim C2 as stated fails where an earlier shape matches and yields nothing. The first
  reference has an \<open>owner\<close> and a \<open>repo\<close> parameter, but the owner is a blank: it is
  imported as the GitHub repository of its address. The second matches the path
  template, but its repository segment is \<open>.git\<close>: it is imported as the GitHub
  repository \<open>api/stats\<close>.
\<close>

theorem matching_earlier_shape_read_as_github:
  "(\<exists>u. host_URL (extractGeneratorImportUrl blank_owner_request) = Some u \<and> request_shaped u)
   \<and> parseGeneratorImport host_URL blank_owner_request = Inr (repo_only ''acme'' ''widgets'')
   \<and> (\<exists>u cs. host_URL (extractGeneratorImportUrl git_suffix_path) = Some u
             \<and> \<not> request_shaped u \<and> rx_full statsMatch (pathname u) = Some cs)
   \<and> parseGeneratorImport host_URL git_suffix_path = Inr (repo_only ''api'' ''stats'')
   \<and> repo_only ''acme'' ''widgets'' \<noteq> None \<and> repo_only ''api'' ''stats'' \<noteq> None"
proof -
  let ?rq = "\<lparr> pathname = ''/acme/widgets'',
               searchParams = [(''owner'', '' ''), (''repo'', ''x'')] \<rparr>"
  let ?pg = "\<lparr> pathname = ''/api/stats/repo/acme/%2Egit.svg'', searchParams = [] \<rparr>"
  have ne1: "blank_owner_request \<noteq> []" by (simp add: blank_owner_request_def)
  have ne2: "git_suffix_path \<noteq> []" by (simp add: git_suffix_path_def)
  have rq: "request_shaped ?rq" "request_import ?rq = None"
    by (simp_all add: import_eval)
  have pg: "\<not> request_shaped ?pg"
    by (simp add: import_eval)
  have a: "\<exists>u. host_URL (extractGeneratorImportUrl blank_owner_request) = Some u \<and> request_shaped u"
    using rq(1) by (simp add: blank_owner_request_url)
  have "parseGeneratorApiImport host_URL blank_owner_request = Inr None"
    using ne1 rq by (simp add: parseGeneratorApiImport_def blank_owner_request_url)
  with ne1 have b:
    "parseGeneratorImport host_URL blank_owner_request = Inr (repo_only ''acme'' ''widgets'')"
    by (simp add: parseGeneratorImport_def blank_owner_request_url)
  have c: "\<exists>u cs. host_URL (extractGeneratorImportUrl git_suffix_path) = Some u
             \<and> \<not> request_shaped u \<and> rx_full statsMatch (pathname u) = Some cs"
    using pg by (simp add: git_suffix_path_url)
  have "parseGeneratorApiImport host_URL git_suffix_path = Inr None"
    using ne2 pg by (simp add: parseGeneratorApiImport_def git_suffix_path_url)
  with ne2 have d:
    "parseGeneratorImport host_URL git_suffix_path = Inr (repo_only ''api'' ''stats'')"
    by (simp add: parseGeneratorImport_def git_suffix_path_url)
  have e: "repo_only ''acme'' ''widgets'' \<noteq> None" "repo_only ''api'' ''stats'' \<noteq> None"
    by (simp_all add: repo_only_def)
  from a b c d e show ?thesis
    by (intro conjI)
qed


section \<open>Properties of the import: failure\<close>

lemma import_null_keeps_form:
  assumes "parseGeneratorImport U (gen_repo_url f) = Inr None"
  shows "applyRepoImport U f = Inr (f \<lparr> gen_import_error := invalidGeneratorRepoUrl \<rparr>)"
  using assms by (simp add: applyRepoImport_def)

lemma import_exception_aborts:
  assumes "parseGeneratorImport U (gen_repo_url f) = Inl e"
  shows "applyRepoImport U f = Inl e"
  using assms by (simp add: applyRepoImport_def)

lemma import_exception_from_decoding:
  assumes "parseGeneratorImport U v = Inl e"
  shows "\<exists>u k ow rp fm. U (extractGeneratorImportUrl v) = Some u \<and> \<not> request_shaped u
           \<and> rx_full statsMatch (pathname u) = Some [k, ow, rp, fm]
           \<and> (decodeURIComponent ow = Inl e \<or> decodeURIComponent rp = Inl e)"
  using assms
  by (auto simp: parseGeneratorImport_def parseGeneratorApiImport_def path_import_def Let_def
      split: if_splits option.splits sum.splits list.splits)

lemma malformed_escape_url:
  "extractGeneratorImportUrl malformed_escape = malformed_escape"
  "host_URL malformed_escape = Some \<lparr> pathname = malformed_escape, searchParams = [] \<rparr>"
  "rx_full statsMatch malformed_escape = Some [''repo'', ''%zz'', ''widgets'', ''svg'']"
  "decodeURIComponent ''%zz'' = Inl URIError"
  by (simp_all add: malformed_escape_def extract_eval url_eval import_eval regex_eval)

text \<open>
  Claim C5. A reference of no known shape leaves every control as it was and shows the
  message (\<open>import_null_keeps_form\<close>). But a path-shaped reference whose owner segment
  holds a malformed escape makes \<open>decodeURIComponent\<close> raise \<open>URIError\<close> outside the
  \<open>try\<close> block of \<open>parseGeneratorApiImport\<close>: the handler is left by the exception, no
  parse failure is returned and no message is shown.
\<close>

theorem malformed_escape_aborts_import:
  "parseGeneratorImport host_URL malformed_escape = Inl URIError
   \<and> applyRepoImport host_URL (sample_form \<lparr> gen_repo_url := malformed_escape \<rparr>) = Inl URIError"
proof -
  have "malformed_escape \<noteq> []"
    by (simp add: malformed_escape_def)
  moreover have "\<not> request_shaped \<lparr> pathname = malformed_escape, searchParams = [] \<rparr>"
    by (simp add: request_shaped_def truthy_def params_get_def)
  ultimately have "parseGeneratorApiImport host_URL malformed_escape = Inl URIError"
    by (simp add: parseGeneratorApiImport_def malformed_escape_url path_import_def)
  then have "parseGeneratorImport host_URL malformed_escape = Inl URIError"
    by (simp add: parseGeneratorImport_def)
  then show ?thesis
    by (simp add: applyRepoImport_def)
qed


section \<open>Export followed by import\<close>

lemma comma_code:
  "char_of (44::nat) = CHR '',''"
  by (simp add: char_of_def bit_simps)

lemma sample_form_export:
  "buildGeneratorPath sample_form
   = ''/api/stats/repo/acme/widgets.svg?theme=ocean&locale=en&card_width=760&hide=stars%2Cforks&animate=true&animation=all&duration=1400&cache_seconds=21600&langs_count=4''"
  by (simp add: export_eval sample_form_def Number_examples clamp_string_examples)

lemma sample_export_parsed:
  "parseGeneratorImport host_URL (buildGeneratorPath sample_form) = Inr (Some sample_parsed)"
  by (simp add: sample_form_export parseGeneratorImport_def parseGeneratorApiImport_def
        extract_eval url_eval import_eval regex_eval comma_code toLowerCase_def lower_char_def
        sample_parsed_def)

lemma clampNumber_sample:
  "String_of (clampNumber ''760'' 640 1400 760) = ''760''"
  "String_of (clampNumber ''4'' 1 30 4) = ''4''"
  "String_of (clampNumber ''1400'' 350 7000 1400) = ''1400''"
  "String_of (clampNumber ''21600'' 0 86400 21600) = ''21600''"
  by (simp_all add: clampNumber_def Number_examples isFinite_def Math_max_def Math_min_def
        string_eval)

lemma applyGeneratorPalette_Nil:
  "applyGeneratorPalette [] f = f"
proof -
  have "foldl (apply_color []) f ks = f" for ks
    by (induction ks) (simp_all add: apply_color_def normalizeHexColor_Nil)
  then show ?thesis
    by (simp add: applyGeneratorPalette_def)
qed


lemma sample_import_head:
  "import_head sample_parsed (sample_form \<lparr> gen_repo_url := r \<rparr>)
   = sample_form \<lparr> gen_repo_url := r \<rparr>"
  by (simp add: sample_parsed_def import_head_def truthy_def sample_form_def)

lemma sample_sync_controls:
  "syncGeneratorControlVisibility (sample_form \<lparr> gen_repo_url := r \<rparr>)
   = sample_form \<lparr> gen_repo_url := r \<rparr>"
  by (simp add: syncGeneratorControlVisibility_def value_or_def sample_form_def)


lemmas sample_eval = sample_form_def sample_hide_options_def sample_field_options_def
  hide_option_def GENERATOR_JSON_FIELDS_def

lemmas node_eval = hide_supported_def field_supported_def allowed_kinds_def value_or_def
  trim_def is_space_def Let_def

lemma sample_sync_hide:
  "syncGeneratorHideOptionsByKind (sample_form \<lparr> gen_repo_url := r \<rparr>)
   = sample_form \<lparr> gen_repo_url := r \<rparr>"
  by (simp add: syncGeneratorHideOptionsByKind_def syncGeneratorHideField_def
        selectedGeneratorHideFlags_def node_eval sample_eval)

lemma sample_sync_fields:
  "syncGeneratorFieldOptionsByKind (sample_form \<lparr> gen_repo_url := r \<rparr>)
   = sample_form \<lparr> gen_repo_url := r \<rparr>"
  by (simp add: syncGeneratorFieldOptionsByKind_def syncGeneratorFieldsField_def
        selectedGeneratorFieldFlags_def node_eval sample_eval)

lemma sample_import_controls:
  "import_controls sample_parsed (sample_form \<lparr> gen_repo_url := r \<rparr>)
   = sample_form \<lparr> gen_repo_url := r \<rparr>"
  by (simp add: sample_parsed_def import_controls_def parseBooleanValue_def truthy_def param_or_def
        toLowerCase_def lower_char_def trim_def is_space_def clampNumber_sample sample_form_def)

lemma sample_apply_hide:
  "applyGeneratorHideFlags ''stars,forks'' (sample_form \<lparr> gen_repo_url := r \<rparr>)
   = sample_form \<lparr> gen_repo_url := r \<rparr>"
  by (simp add: applyGeneratorHideFlags_def flag_tokens_def syncGeneratorHideField_def
        selectedGeneratorHideFlags_def toLowerCase_def lower_char_def node_eval sample_eval)

lemma sample_apply_fields:
  "applyGeneratorFieldFlags [] (sample_form \<lparr> gen_repo_url := r \<rparr>)
   = sample_form \<lparr> gen_repo_url := r \<rparr>"
  by (simp add: applyGeneratorFieldFlags_def flag_tokens_def syncGeneratorFieldsField_def
        selectedGeneratorFieldFlags_def node_eval sample_eval)

lemma sample_sync_custom:
  "syncGeneratorCustomThemeVisibility (sample_form \<lparr> gen_repo_url := r \<rparr>)
   = sample_form \<lparr> gen_repo_url := r \<rparr>"
  by (simp add: syncGeneratorCustomThemeVisibility_def value_or_def sample_form_def)


lemma sample_import_applied:
  "applyGeneratorImportToForm sample_parsed (sample_form \<lparr> gen_repo_url := r \<rparr>)
   = sample_form \<lparr> gen_repo_url := r \<rparr>"
proof -
  have "p_hide sample_parsed = Some ''stars,forks''" "p_fields sample_parsed = None"
    "p_colors sample_parsed = Some []"
    by (simp_all add: sample_parsed_def)
  then show ?thesis
    by (simp add: applyGeneratorImportToForm_def param_or_def sample_import_head
          sample_sync_controls sample_sync_hide sample_sync_fields sample_import_controls
          sample_apply_hide sample_apply_fields sample_sync_custom applyGeneratorPalette_Nil)
qed

text \<open>
  The round trip on the sample page: importing the page's own export changes no control.
\<close>

lemma sample_export_import:
  "applyRepoImport host_URL (sample_form \<lparr> gen_repo_url := buildGeneratorPath sample_form \<rparr>)
   = Inr (sample_form \<lparr> gen_repo_url := buildGeneratorPath sample_form \<rparr>)"
proof -
  have "gen_owner (sample_form \<lparr> gen_repo_url := r \<rparr>) \<noteq> []
        \<and> gen_repo (sample_form \<lparr> gen_repo_url := r \<rparr>) \<noteq> []
        \<and> (sample_form \<lparr> gen_repo_url := r \<rparr>) \<lparr> gen_import_error := [] \<rparr>
            = sample_form \<lparr> gen_repo_url := r \<rparr>" for r
    by (simp add: sample_form_def)
  then show ?thesis
    by (simp add: applyRepoImport_def sample_export_parsed sample_import_applied)
qed

lemma dotted_form_export:
  "buildGeneratorPath dotted_form
   = ''/api/stats/repo/vercel/next.js.svg?theme=ocean&locale=en&card_width=760&hide=stars%2Cforks&animate=true&animation=all&duration=1400&cache_seconds=21600&langs_count=4''"
  by (simp add: export_eval dotted_form_def sample_form_def Number_examples clamp_string_examples)

lemma dotted_export_url:
  "extractGeneratorImportUrl (buildGeneratorPath dotted_form) = buildGeneratorPath dotted_form"
  "host_URL (buildGeneratorPath dotted_form)
   = Some \<lparr> pathname = ''/api/stats/repo/vercel/next.js.svg'',
            searchParams =
              [(''theme'', ''ocean''), (''locale'', ''en''), (''card_width'', ''760''),
               (''hide'', ''stars,forks''), (''animate'', ''true''), (''animation'', ''all''),
               (''duration'', ''1400''), (''cache_seconds'', ''21600''),
               (''langs_count'', ''4'')] \<rparr>"
  "rx_full statsMatch ''/api/stats/repo/vercel/next.js.svg'' = None"
  "github_import (buildGeneratorPath dotted_form) = None"
  "short_import (buildGeneratorPath dotted_form) = None"
  by (simp_all add: dotted_form_export extract_eval url_eval import_eval regex_eval comma_code)

text \<open>
  Claim C1. The export of a card for the repository \<open>vercel/next.js\<close> keeps the dot
  of the name in the path, and the path template of the import admits no dot in the
  repository segment: the import of the exported address fails, the controls stay as
  they were and the message for an invalid reference is shown.
\<close>

theorem dotted_repository_export_import:
  "buildGeneratorPath dotted_form
   = ''/api/stats/repo/vercel/next.js.svg?theme=ocean&locale=en&card_width=760&hide=stars%2Cforks&animate=true&animation=all&duration=1400&cache_seconds=21600&langs_count=4''
   \<and> parseGeneratorImport host_URL (buildGeneratorPath dotted_form) = Inr None
   \<and> applyRepoImport host_URL (sample_form \<lparr> gen_repo_url := buildGeneratorPath dotted_form \<rparr>)
       = Inr (sample_form \<lparr> gen_repo_url := buildGeneratorPath dotted_form,
                             gen_import_error := invalidGeneratorRepoUrl \<rparr>)"
proof -
  let ?u = "\<lparr> pathname = ''/api/stats/repo/vercel/next.js.svg'',
            searchParams =
              [(''theme'', ''ocean''), (''locale'', ''en''), (''card_width'', ''760''),
               (''hide'', ''stars,forks''), (''animate'', ''true''), (''animation'', ''all''),
               (''duration'', ''1400''), (''cache_seconds'', ''21600''),
               (''langs_count'', ''4'')] \<rparr>"
  have ne: "buildGeneratorPath dotted_form \<noteq> []"
    by (simp add: dotted_form_export)
  have "\<not> request_shaped ?u"
    by (simp add: request_shaped_def truthy_def params_get_def)
  with ne have "parseGeneratorApiImport host_URL (buildGeneratorPath dotted_form) = Inr None"
    by (simp add: parseGeneratorApiImport_def dotted_export_url path_import_def)
  with ne have n: "parseGeneratorImport host_URL (buildGeneratorPath dotted_form) = Inr None"
    by (simp add: parseGeneratorImport_def dotted_export_url)
  then have "applyRepoImport host_URL (sample_form \<lparr> gen_repo_url := buildGeneratorPath dotted_form \<rparr>)
       = Inr (sample_form \<lparr> gen_repo_url := buildGeneratorPath dotted_form,
                             gen_import_error := invalidGeneratorRepoUrl \<rparr>)"
    by (simp add: applyRepoImport_def)
  with n dotted_form_export show ?thesis
    by (intro conjI)
qed

end
